(* ===== verification/Prelude.thy ===== *)
theory Prelude
  imports Complex_Main "HOL-Library.Word"
begin

unbundle bit_operations_syntax

text \<open>
  The vocabulary shared by every component of the amber model: names for the Rust integer types
  (a fixed-width integer is a machine word, so \<open>+\<close> and \<open>-\<close> are the \<open>wrapping_\<close> operations),
  the checked and saturating operations of the standard library that the sources call, the
  little-endian byte codecs behind \<open>to_le_bytes\<close> and \<open>from_le_bytes\<close>, and the in-place
  overwrite of a byte buffer that \<open>copy_nonoverlapping\<close> and \<open>copy_from_slice\<close> perform.
  The lemmas collected in \<open>codec_simps\<close> and \<open>splice_simps\<close> carry the component proofs.
\<close>

type_synonym u8 = "8 word"
type_synonym u16 = "16 word"
type_synonym u32 = "32 word"
type_synonym u64 = "64 word"
type_synonym usize = "64 word"
type_synonym bytes = "u8 list"

named_theorems codec_simps \<open>little-endian encoders and decoders\<close>
named_theorems splice_simps \<open>overwriting a range of a byte buffer\<close>
named_theorems word_bounds \<open>numeric bounds of words\<close>


section \<open>Checked and saturating arithmetic\<close>

definition checked_sub :: "'a::len word \<Rightarrow> 'a word \<Rightarrow> 'a word option" where
  "checked_sub a b = (if b \<le> a then Some (a - b) else None)"

definition saturating_sub :: "'a::len word \<Rightarrow> 'a word \<Rightarrow> 'a word" where
  "saturating_sub a b = (if b \<le> a then a - b else 0)"

definition saturating_mul :: "'a::len word \<Rightarrow> 'a word \<Rightarrow> 'a word" where
  "saturating_mul a b = (if unat a * unat b < 2 ^ LENGTH('a) then a * b else - 1)"

lemma unat_sub_le: "b \<le> a \<Longrightarrow> unat (a - b) = unat a - unat b" for a b :: "'a::len word"
  by (simp add: unat_sub)

lemma checked_sub_Some_iff:
  "checked_sub a b = Some c \<longleftrightarrow> unat b \<le> unat a \<and> unat c = unat a - unat b"
  by (auto simp: checked_sub_def word_le_nat_alt word_unat_eq_iff unat_sub)

lemma unat_saturating_sub [simp]: "unat (saturating_sub a b) = unat a - unat b"
  by (auto simp: saturating_sub_def unat_sub word_le_nat_alt)

lemma word_distance_Suc:
  fixes a l :: "'a::len word"
  assumes "l \<noteq> a"
  shows "unat (a - l) = Suc (unat (a - (l + 1)))"
proof -
  have "a - l \<noteq> 0" using assms by simp
  then have "unat (a - l - 1) = unat (a - l) - 1" by (rule unat_minus_one)
  moreover have "0 < unat (a - l)" using \<open>a - l \<noteq> 0\<close> by (simp add: unat_gt_0)
  ultimately show ?thesis by (simp add: diff_diff_eq [symmetric])
qed

lemma unat_lt_width [word_bounds]: "unat (x :: 'a::len word) < 2 ^ LENGTH('a)"
  by (fact unsigned_less)

lemma u16_bound [word_bounds]: "unat (x :: u16) < 65536"
  using unat_lt_width [of x] by simp

lemma u32_bound [word_bounds]: "unat (x :: u32) < 4294967296"
  using unat_lt_width [of x] by simp

lemma u64_bound [word_bounds]: "unat (x :: u64) < 18446744073709551616"
  using unat_lt_width [of x] by simp

lemma unat_max_u32: "unat (- 1 :: u32) = 4294967295"
  by (simp add: unsigned_minus_1_eq_mask mask_eq_exp_minus_1)

lemma add_mod_inj:
  assumes "(a + j) mod n = (a + k) mod n" "j < n" "k < (n :: nat)"
  shows "j = k"
proof -
  have *: "i = l" if "(a + i) mod n = (a + l) mod n" "i \<le> l" "l < n" for i l
  proof -
    have "n dvd (a + l) - (a + i)" using that(1,2) mod_eq_dvd_iff_nat [of "a + i" "a + l" n] by simp
    then have "n dvd l - i" by simp
    then show ?thesis using that(2,3) nat_dvd_not_less [of "l - i" n] by fastforce
  qed
  show ?thesis using *[of j k] *[of k j] assms by (cases "j \<le> k") simp_all
qed

lemma unat_ucast_up [simp]:
  "LENGTH('a::len) \<le> LENGTH('b::len) \<Longrightarrow> unat (ucast (x :: 'a word) :: 'b word) = unat x"
  by (simp add: unsigned_ucast_eq take_bit_nat_eq_self_iff order_less_le_trans [OF unsigned_less])

lemma ucast_down_up [simp]:
  "LENGTH('a::len) \<le> LENGTH('b::len) \<Longrightarrow> ucast (ucast (x :: 'a word) :: 'b word) = x"
  by (rule bit_word_eqI) (auto simp: bit_ucast_iff)


section \<open>Little-endian codecs\<close>

text \<open>\<open>x.to_le_bytes()\<close> of an \<open>n\<close>-byte integer, and \<open>from_le_bytes\<close>.\<close>

definition to_le :: "nat \<Rightarrow> 'a::len word \<Rightarrow> bytes" where
  "to_le n w = map (\<lambda>i. ucast (drop_bit (8 * i) w)) [0..<n]"

primrec from_le :: "bytes \<Rightarrow> 'a::len word" where
  "from_le [] = 0"
| "from_le (b # bs) = ucast b OR push_bit 8 (from_le bs)"

lemma length_to_le [simp, codec_simps]: "length (to_le n w) = n"
  by (simp add: to_le_def)

lemma nth_to_le [codec_simps]: "i < n \<Longrightarrow> to_le n w ! i = ucast (drop_bit (8 * i) w)"
  by (simp add: to_le_def)

lemma bit_from_le:
  "bit (from_le bs :: 'a::len word) i \<longleftrightarrow>
     i < LENGTH('a) \<and> i div 8 < length bs \<and> bit (bs ! (i div 8)) (i mod 8)"
proof (induction bs arbitrary: i)
  case (Cons b bs)
  show ?case
  proof (cases "i < 8")
    case True
    then show ?thesis by (simp add: bit_or_iff bit_ucast_iff bit_push_bit_iff)
  next
    case False
    then have "i div 8 = Suc ((i - 8) div 8)" "i mod 8 = (i - 8) mod 8"
      by (simp_all add: le_div_geq le_mod_geq)
    then show ?thesis
      using False bit_imp_le_length [of b i]
      by (auto simp: bit_or_iff bit_ucast_iff bit_push_bit_iff Cons.IH)
  qed
qed simp

lemma from_le_to_le [codec_simps]:
  fixes w :: "'a::len word"
  assumes "LENGTH('a) \<le> 8 * n"
  shows "from_le (to_le n w) = w"
proof (rule bit_word_eqI)
  fix i assume i: "i < LENGTH('a)"
  with assms have "i div 8 < n" by (simp add: div_less_iff_less_mult mult.commute)
  moreover have "8 * (i div 8) + i mod 8 = i" by simp
  ultimately show "bit (from_le (to_le n w) :: 'a word) i = bit w i"
    using i by (simp add: bit_from_le nth_to_le bit_ucast_iff bit_drop_bit_eq)
qed

lemma to_le_from_le [codec_simps]:
  assumes "8 * length bs \<le> LENGTH('a::len)"
  shows "to_le (length bs) (from_le bs :: 'a word) = bs"
proof (rule nth_equalityI)
  fix k assume "k < length (to_le (length bs) (from_le bs :: 'a word))"
  then have k: "k < length bs" by simp
  show "to_le (length bs) (from_le bs :: 'a word) ! k = bs ! k"
  proof (rule bit_word_eqI)
    fix j assume j: "j < LENGTH(8)"
    then have "(8 * k + j) div 8 = k" "(8 * k + j) mod 8 = j" by simp_all
    moreover have "8 * k + j < LENGTH('a)" using assms k j by simp
    ultimately show "bit (to_le (length bs) (from_le bs :: 'a word) ! k) j = bit (bs ! k) j"
      using k j by (simp add: nth_to_le bit_ucast_iff bit_drop_bit_eq bit_from_le)
  qed
qed simp

lemma from_le_replicate_0 [simp]: "from_le (replicate n 0) = 0"
  by (induction n) simp_all


section \<open>Overwriting a range of a buffer\<close>

definition splice_at :: "nat \<Rightarrow> 'a list \<Rightarrow> 'a list \<Rightarrow> 'a list" where
  "splice_at off new old = take off old @ new @ drop (off + length new) old"

definition bslice :: "nat \<Rightarrow> nat \<Rightarrow> 'a list \<Rightarrow> 'a list" where
  "bslice off n xs = take n (drop off xs)"

lemma length_splice_at [simp, splice_simps]:
  "off + length new \<le> length old \<Longrightarrow> length (splice_at off new old) = length old"
  by (simp add: splice_at_def)

lemma length_bslice [simp, splice_simps]:
  "off + n \<le> length xs \<Longrightarrow> length (bslice off n xs) = n"
  by (simp add: bslice_def)

lemma nth_bslice [splice_simps]:
  "\<lbrakk>off + n \<le> length xs; i < n\<rbrakk> \<Longrightarrow> bslice off n xs ! i = xs ! (off + i)"
  by (simp add: bslice_def)

lemma nth_splice_at [splice_simps]:
  "\<lbrakk>off + length new \<le> length old; i < length old\<rbrakk> \<Longrightarrow>
     splice_at off new old ! i =
       (if off \<le> i \<and> i < off + length new then new ! (i - off) else old ! i)"
  by (auto simp: splice_at_def nth_append not_less)

lemma bslice_splice_same [simp, splice_simps]:
  "off + length new \<le> length old \<Longrightarrow> bslice off (length new) (splice_at off new old) = new"
  by (simp add: bslice_def splice_at_def)

lemma bslice_splice_other [splice_simps]:
  assumes "off + length new \<le> length old" "off' + n \<le> length old"
    and "off' + n \<le> off \<or> off + length new \<le> off'"
  shows "bslice off' n (splice_at off new old) = bslice off' n old"
  by (rule nth_equalityI) (use assms in \<open>auto simp: nth_bslice nth_splice_at\<close>)

lemma splice_at_Nil [simp]: "splice_at off [] xs = xs"
  by (simp add: splice_at_def)

lemma splice_at_bslice_id [simp]:
  "off + n \<le> length xs \<Longrightarrow> splice_at off (bslice off n xs) xs = xs"
  by (rule nth_equalityI) (auto simp: nth_splice_at nth_bslice)

lemma upt_conv_Cons_map: "[0..<Suc n] = 0 # map Suc [0..<n]"
  by (metis map_Suc_upt upt_conv_Cons zero_less_Suc)


section \<open>State that survives a snapshot\<close>

text \<open>A part of the VM whose state is captured into a snapshot and restored into a freshly built
  instance.  \<open>inv\<close> is what every instance the VM builds satisfies.  A fork of a fork, of any
  depth, still captures as the original did.\<close>

locale snapshot_part =
  fixes cap :: "'s \<Rightarrow> 'c" and res :: "'c \<Rightarrow> 's \<Rightarrow> 's" and inv :: "'s \<Rightarrow> bool"
  assumes cap_res: "\<lbrakk>inv s; inv t\<rbrakk> \<Longrightarrow> cap (res (cap s) t) = cap s"
    and inv_res: "\<lbrakk>inv s; inv t\<rbrakk> \<Longrightarrow> inv (res (cap s) t)"
begin

lemma fork_chain:
  "\<lbrakk>inv s; \<forall>t \<in> set ts. inv t\<rbrakk> \<Longrightarrow>
     cap (foldl (\<lambda>s t. res (cap s) t) s ts) = cap s \<and> inv (foldl (\<lambda>s t. res (cap s) t) s ts)"
  by (induction ts arbitrary: s) (simp_all add: cap_res inv_res)

end

end
