(* ===== verification/Core.thy ===== *)
theory Core
  imports Prelude
begin

text \<open>
  The vocabulary of \<open>amber-core\<close>: the error type and the guest-physical memory map of
  \<open>lib.rs\<close>, the exit vocabulary and the data-abort decoder of \<open>hypervisor.rs\<close>, and the CPU
  templates of \<open>cpu.rs\<close>.  The text carried by an error is not modelled; which error is raised,
  and the registers of a guest fault, are.
\<close>

section \<open>Errors and the memory map\<close>

datatype error =
    Backend
  | Mmap
  | Loader
  | Fdt
  | GuestFault (fault_pc: u64) (fault_esr: u64) (fault_ipa: u64)
  | Device
  | Snapshot

datatype gic_kind = V2 | V3

record gic_info =
  dist_base :: u64
  dist_size :: u64
  redist_base :: u64
  redist_size :: u64
  kind :: gic_kind

definition BALLOON :: u8 where "BALLOON = 1"
definition PAUSE :: u8 where "PAUSE = 2"
definition RESUME :: u8 where "RESUME = 3"

definition RAM_BASE :: u64 where "RAM_BASE = 0x40000000"
definition KERNEL_OFFSET :: u64 where "KERNEL_OFFSET = 0x00200000"
definition DTB_OFFSET :: u64 where "DTB_OFFSET = 0x00100000"
definition GIC_DIST_BASE :: u64 where "GIC_DIST_BASE = 0x08000000"
definition GIC_DIST_SIZE :: u64 where "GIC_DIST_SIZE = 0x00010000"
definition GIC_CPU_BASE :: u64 where "GIC_CPU_BASE = 0x08010000"
definition GIC_CPU_SIZE :: u64 where "GIC_CPU_SIZE = 0x00010000"
definition PL011_BASE :: u64 where "PL011_BASE = 0x09000000"
definition PL011_SIZE :: u64 where "PL011_SIZE = 0x1000"
definition GIC_SPI_BASE :: u32 where "GIC_SPI_BASE = 32"
definition PL011_SPI :: u32 where "PL011_SPI = 1"
definition VIRTIO_MMIO_BASE :: u64 where "VIRTIO_MMIO_BASE = 0x0c000000"
definition VIRTIO_MMIO_STRIDE :: u64 where "VIRTIO_MMIO_STRIDE = 0x200"
definition VIRTIO_SPI_BASE :: u32 where "VIRTIO_SPI_BASE = 2"

lemmas layout_defs = RAM_BASE_def KERNEL_OFFSET_def DTB_OFFSET_def PL011_BASE_def PL011_SIZE_def
  GIC_SPI_BASE_def PL011_SPI_def VIRTIO_MMIO_BASE_def VIRTIO_MMIO_STRIDE_def VIRTIO_SPI_BASE_def


section \<open>Exits of the guest\<close>

record mmio_access =
  ma_ipa :: u64
  ma_size :: u8
  ma_write :: "u64 option"

datatype vm_exit =
    Mmio mmio_access
  | Idle
  | Shutdown
  | Fault u64 u64 u64

text \<open>The syndrome is decoded with shifts and masks, as in the source; \<open>get_x\<close> reads a general
  register of the stopped vcpu.\<close>

definition decode_data_abort :: "u64 \<Rightarrow> u64 \<Rightarrow> (u8 \<Rightarrow> u64) \<Rightarrow> (mmio_access \<times> u8) option" where
  "decode_data_abort esr ipa get_x =
     (let ec = drop_bit 26 esr AND 0x3f in
      if ec \<noteq> 0x24 then None
      else
        let iss = esr AND 0x1ffffff;
            isv = drop_bit 24 iss AND 1 in
        if isv = 0 then None
        else
          let sas = drop_bit 22 iss AND 3;
              size = push_bit (unat sas) 1;
              srt = ucast (drop_bit 16 iss AND 0x1f);
              wnr = drop_bit 6 iss AND 1;
              write = (if wnr = 1 then Some (get_x srt) else None)
          in Some (\<lparr>ma_ipa = ipa, ma_size = size, ma_write = write\<rparr>, srt))"


section \<open>CPU templates\<close>

definition enc :: "u32 \<Rightarrow> u32 \<Rightarrow> u32 \<Rightarrow> u32 \<Rightarrow> u32 \<Rightarrow> u32" where
  "enc op0 op1 crn crm op2 =
     push_bit 14 op0 OR push_bit 11 op1 OR push_bit 7 crn OR push_bit 3 crm OR op2"

definition ID_AA64ISAR0_EL1 :: u32 where "ID_AA64ISAR0_EL1 = enc 3 0 0 6 0"

record override =
  ov_reg :: u32
  and_mask :: u64
  or_value :: u64

record cpu_template =
  tpl_name :: string
  overrides :: "override list"

definition CRYPTO_FIELDS :: u64 where
  "CRYPTO_FIELDS = push_bit 4 0xfff OR push_bit 32 0xfff"

definition NO_CRYPTO :: "override list" where
  "NO_CRYPTO = [\<lparr>ov_reg = ID_AA64ISAR0_EL1, and_mask = NOT CRYPTO_FIELDS, or_value = 0\<rparr>]"

definition TEMPLATES :: "cpu_template list" where
  "TEMPLATES = [\<lparr>tpl_name = ''host'', overrides = []\<rparr>,
                \<lparr>tpl_name = ''no-crypto'', overrides = NO_CRYPTO\<rparr>]"

definition by_name :: "string \<Rightarrow> cpu_template option" where
  "by_name name = find (\<lambda>t. tpl_name t = name) TEMPLATES"

definition names :: "string list" where
  "names = map tpl_name TEMPLATES"

text \<open>The read-modify-write a backend performs for every override of the template
  (\<open>apply_cpu_template\<close> in \<open>amber-hvf/src/lib.rs\<close>), on a register file.\<close>

definition apply_override :: "(u32 \<Rightarrow> u64) \<Rightarrow> override \<Rightarrow> u32 \<Rightarrow> u64" where
  "apply_override regs ov = regs(ov_reg ov := (regs (ov_reg ov) AND and_mask ov) OR or_value ov)"

definition apply_cpu_template :: "cpu_template \<Rightarrow> (u32 \<Rightarrow> u64) \<Rightarrow> u32 \<Rightarrow> u64" where
  "apply_cpu_template t regs = foldl apply_override regs (overrides t)"


section \<open>Errors in sequence\<close>

text \<open>The \<open>?\<close> operator.\<close>

definition try_bind :: "'e + 'a \<Rightarrow> ('a \<Rightarrow> 'e + 'b) \<Rightarrow> 'e + 'b" where
  "try_bind r f = (case r of Inl e \<Rightarrow> Inl e | Inr x \<Rightarrow> f x)"

lemma try_bind_simps [simp]: "try_bind (Inl e) f = Inl e" "try_bind (Inr x) f = f x"
  by (simp_all add: try_bind_def)

lemma try_bind_Inr: "try_bind r f = Inr y \<longleftrightarrow> (\<exists>x. r = Inr x \<and> f x = Inr y)"
  by (cases r) simp_all

fun collect_all :: "('i \<Rightarrow> 'e + 'a) \<Rightarrow> 'i list \<Rightarrow> 'e + 'a list" where
  "collect_all f [] = Inr []"
| "collect_all f (i # is) = try_bind (f i) (\<lambda>x. try_bind (collect_all f is) (\<lambda>xs. Inr (x # xs)))"

lemma collect_all_Inr: "collect_all f xs = Inr ys \<longleftrightarrow> list_all2 (\<lambda>x y. f x = Inr y) xs ys"
proof (induction xs arbitrary: ys)
  case (Cons x xs)
  then show ?case by (cases "f x"; cases "collect_all f xs") (auto simp: list_all2_Cons1 try_bind_def)
qed auto

lemma collect_all_nth:
  "collect_all f is = Inr xs \<longleftrightarrow> length xs = length is \<and> (\<forall>k < length is. f (is ! k) = Inr (xs ! k))"
  by (auto simp: collect_all_Inr list_all2_conv_all_nth)

end
