(* ===== verification/Memory.thy ===== *)
theory Memory
  imports Core
begin

text \<open>
  Guest RAM, \<open>amber-core/src/memory.rs\<close>.  \<open>GuestMemory\<close> owns one mapping and \<open>GuestRam\<close> is
  the copyable view of it, so both are the same pair of a base address and the mapped bytes
  here; the host pointer arithmetic becomes an index into the byte list.  An access is rejected
  exactly when \<open>offset\<close> is \<open>None\<close>: a rejected read leaves the caller's buffer alone, a
  rejected write leaves RAM alone.
\<close>

record guest_ram =
  base :: u64
  mem :: bytes

text \<open>The region lies inside the 64-bit guest-physical address space.\<close>

definition ram_ok :: "guest_ram \<Rightarrow> bool" where
  "ram_ok ram \<longleftrightarrow> unat (base ram) + length (mem ram) \<le> 2 ^ 64"

text \<open>\<open>GuestMemory::new\<close> and \<open>from_snapshot_cow\<close>: the outcome of \<open>mmap\<close> and of opening the
  snapshot file belong to the host and are arguments.  Anonymous memory reads as zero.\<close>

definition guest_memory_new :: "bool \<Rightarrow> u64 \<Rightarrow> nat \<Rightarrow> error + guest_ram" where
  "guest_memory_new mmap_ok b len =
     (if mmap_ok then Inr \<lparr>base = b, mem = replicate len 0\<rparr> else Inl Mmap)"

definition from_snapshot_cow :: "bool \<Rightarrow> u64 \<Rightarrow> bytes option \<Rightarrow> error + guest_ram" where
  "from_snapshot_cow mmap_ok b file =
     (case file of None \<Rightarrow> Inl Mmap
      | Some img \<Rightarrow> if mmap_ok then Inr \<lparr>base = b, mem = img\<rparr> else Inl Mmap)"

definition offset :: "guest_ram \<Rightarrow> u64 \<Rightarrow> nat \<Rightarrow> nat option" where
  "offset ram gpa n =
     (case checked_sub gpa (base ram) of
        None \<Rightarrow> None
      | Some off \<Rightarrow>
          if unat off + n < 2 ^ 64 \<and> unat off + n \<le> length (mem ram)
          then Some (unat off) else None)"

definition in_range :: "guest_ram \<Rightarrow> u64 \<Rightarrow> nat \<Rightarrow> bool" where
  "in_range ram gpa n \<longleftrightarrow> offset ram gpa n \<noteq> None"

definition host_ptr_at :: "guest_ram \<Rightarrow> u64 \<Rightarrow> nat \<Rightarrow> nat option" where
  "host_ptr_at ram gpa len = offset ram gpa len"

definition ram_read :: "guest_ram \<Rightarrow> u64 \<Rightarrow> bytes \<Rightarrow> bool \<times> bytes" where
  "ram_read ram gpa buf =
     (case offset ram gpa (length buf) of
        Some off \<Rightarrow> (True, bslice off (length buf) (mem ram))
      | None \<Rightarrow> (False, buf))"

definition ram_write :: "guest_ram \<Rightarrow> u64 \<Rightarrow> bytes \<Rightarrow> bool \<times> guest_ram" where
  "ram_write ram gpa buf =
     (case offset ram gpa (length buf) of
        Some off \<Rightarrow> (True, ram\<lparr>mem := splice_at off buf (mem ram)\<rparr>)
      | None \<Rightarrow> (False, ram))"

definition guest_memory_write :: "guest_ram \<Rightarrow> u64 \<Rightarrow> bytes \<Rightarrow> error + guest_ram" where
  "guest_memory_write ram gpa bs =
     (case offset ram gpa (length bs) of
        Some off \<Rightarrow> Inr (ram\<lparr>mem := splice_at off bs (mem ram)\<rparr>)
      | None \<Rightarrow> Inl Loader)"

definition read_u16 :: "guest_ram \<Rightarrow> u64 \<Rightarrow> u16" where
  "read_u16 ram gpa = from_le (snd (ram_read ram gpa (replicate 2 0)))"

definition read_u32 :: "guest_ram \<Rightarrow> u64 \<Rightarrow> u32" where
  "read_u32 ram gpa = from_le (snd (ram_read ram gpa (replicate 4 0)))"

definition read_u64 :: "guest_ram \<Rightarrow> u64 \<Rightarrow> u64" where
  "read_u64 ram gpa = from_le (snd (ram_read ram gpa (replicate 8 0)))"

definition write_u16 :: "guest_ram \<Rightarrow> u64 \<Rightarrow> u16 \<Rightarrow> guest_ram" where
  "write_u16 ram gpa v = snd (ram_write ram gpa (to_le 2 v))"

definition write_u32 :: "guest_ram \<Rightarrow> u64 \<Rightarrow> u32 \<Rightarrow> guest_ram" where
  "write_u32 ram gpa v = snd (ram_write ram gpa (to_le 4 v))"


section \<open>The address map a region implements\<close>

text \<open>What RAM is to a device: a partial map from guest-physical addresses to bytes.  The
  locale states the contract of such a store; its lemmas are the read-over-write laws every
  ring and buffer access relies on.\<close>

definition ram_map :: "guest_ram \<Rightarrow> nat \<Rightarrow> u8 option" where
  "ram_map ram i =
     (if unat (base ram) \<le> i \<and> i - unat (base ram) < length (mem ram)
      then Some (mem ram ! (i - unat (base ram))) else None)"

definition gpa_range :: "u64 \<Rightarrow> nat \<Rightarrow> nat set" where
  "gpa_range a n = {unat a ..< unat a + n}"

locale byte_store =
  fixes view :: "'m \<Rightarrow> nat \<Rightarrow> u8 option"
    and ok :: "'m \<Rightarrow> u64 \<Rightarrow> nat \<Rightarrow> bool"
    and rd :: "'m \<Rightarrow> u64 \<Rightarrow> nat \<Rightarrow> bytes"
    and wr :: "'m \<Rightarrow> u64 \<Rightarrow> bytes \<Rightarrow> 'm"
  assumes wr_view: "ok m a (length bs) \<Longrightarrow>
            view (wr m a bs) i =
              (if i \<in> gpa_range a (length bs) then Some (bs ! (i - unat a)) else view m i)"
    and wr_rejected: "\<not> ok m a (length bs) \<Longrightarrow> wr m a bs = m"
    and ok_wr: "ok (wr m a bs) b n = ok m b n"
    and rd_view: "\<lbrakk>ok m a n; i < n\<rbrakk> \<Longrightarrow> view m (unat a + i) = Some (rd m a n ! i)"
    and rd_length: "length (rd m a n) = n"
    and rd_rejected: "\<not> ok m a n \<Longrightarrow> rd m a n = replicate n 0"
    and ok_mono: "\<lbrakk>ok m a n; k \<le> n\<rbrakk> \<Longrightarrow> ok m a k"
begin

lemma rd_eqI:
  assumes "ok m a n = ok m' a n"
    and "\<And>i. i \<in> gpa_range a n \<Longrightarrow> view m i = view m' i"
  shows "rd m a n = rd m' a n"
proof (cases "ok m a n")
  case True
  show ?thesis
  proof (rule nth_equalityI)
    fix i assume "i < length (rd m a n)"
    then have i: "i < n" by (simp add: rd_length)
    then have "view m (unat a + i) = view m' (unat a + i)"
      by (intro assms(2)) (simp add: gpa_range_def)
    with i True assms(1) show "rd m a n ! i = rd m' a n ! i"
      using rd_view [of m a n i] rd_view [of m' a n i] by simp
  qed (simp add: rd_length)
qed (use assms(1) rd_rejected in metis)

lemma rd_wr_same:
  assumes "ok m a (length bs)"
  shows "rd (wr m a bs) a (length bs) = bs"
proof (rule nth_equalityI)
  fix i assume "i < length (rd (wr m a bs) a (length bs))"
  then have i: "i < length bs" by (simp add: rd_length)
  with rd_view [of "wr m a bs" a "length bs" i] wr_view [OF assms, of "unat a + i"] assms
  show "rd (wr m a bs) a (length bs) ! i = bs ! i"
    by (simp add: ok_wr gpa_range_def)
qed (simp add: rd_length)

lemma take_rd:
  assumes "ok m a n" "k \<le> n"
  shows "take k (rd m a n) = rd m a k"
proof (rule nth_equalityI)
  fix i assume "i < length (take k (rd m a n))"
  then have "i < k" "i < n" using assms(2) by (simp_all add: rd_length)
  with rd_view [OF assms(1), of i] rd_view [OF ok_mono [OF assms], of i]
  show "take k (rd m a n) ! i = rd m a k ! i" by simp
qed (use assms(2) in \<open>simp add: rd_length\<close>)

lemma take_rd_wr:
  assumes "ok m a n" "length bs \<le> n"
  shows "take (length bs) (rd (wr m a bs) a n) = bs"
  using take_rd [of "wr m a bs" a n "length bs"] rd_wr_same [OF ok_mono [OF assms]] assms
  by (simp add: ok_wr)

lemma view_wr_outside:
  "i \<notin> gpa_range a (length bs) \<Longrightarrow> view (wr m a bs) i = view m i"
  by (cases "ok m a (length bs)") (simp_all add: wr_view wr_rejected)

lemma rd_wr_disjoint:
  assumes "gpa_range a (length bs) \<inter> gpa_range b n = {}"
  shows "rd (wr m a bs) b n = rd m b n"
  by (rule rd_eqI) (use assms in \<open>auto simp: ok_wr intro!: view_wr_outside\<close>)

end


section \<open>Guest RAM implements the contract\<close>

abbreviation ram_bytes :: "guest_ram \<Rightarrow> u64 \<Rightarrow> nat \<Rightarrow> bytes" where
  "ram_bytes ram gpa n \<equiv> snd (ram_read ram gpa (replicate n 0))"

abbreviation ram_put :: "guest_ram \<Rightarrow> u64 \<Rightarrow> bytes \<Rightarrow> guest_ram" where
  "ram_put ram gpa bs \<equiv> snd (ram_write ram gpa bs)"

lemma offset_Some_iff:
  "offset ram gpa n = Some k \<longleftrightarrow>
     unat (base ram) \<le> unat gpa \<and> k = unat gpa - unat (base ram) \<and>
     k + n < 2 ^ 64 \<and> k + n \<le> length (mem ram)"
  by (auto simp: offset_def checked_sub_def word_le_nat_alt unat_sub split: option.splits)

lemma in_range_iff:
  "in_range ram gpa n \<longleftrightarrow>
     unat (base ram) \<le> unat gpa \<and> unat gpa - unat (base ram) + n < 2 ^ 64 \<and>
     unat gpa - unat (base ram) + n \<le> length (mem ram)"
  using offset_Some_iff [of ram gpa n] by (cases "offset ram gpa n") (auto simp: in_range_def)

lemma in_range_offset: "in_range ram gpa n \<Longrightarrow> offset ram gpa n = Some (unat gpa - unat (base ram))"
  by (auto simp: in_range_def offset_Some_iff)

lemma not_in_range_offset: "\<not> in_range ram gpa n \<Longrightarrow> offset ram gpa n = None"
  by (simp add: in_range_def)

lemma base_ram_put [simp]: "base (ram_put ram gpa bs) = base ram"
  by (simp add: ram_write_def split: option.splits)

lemma length_ram_put [simp]: "length (mem (ram_put ram gpa bs)) = length (mem ram)"
  by (auto simp: ram_write_def offset_Some_iff split: option.splits)

lemma in_range_ram_put [simp]: "in_range (ram_put ram gpa bs) a n = in_range ram a n"
  by (simp add: in_range_iff)

lemma fst_ram_write [simp]: "fst (ram_write ram gpa bs) = in_range ram gpa (length bs)"
  by (simp add: ram_write_def in_range_def split: option.splits)

lemma fst_ram_read [simp]: "fst (ram_read ram gpa bs) = in_range ram gpa (length bs)"
  by (simp add: ram_read_def in_range_def split: option.splits)

lemma length_ram_read [simp]: "length (snd (ram_read ram gpa buf)) = length buf"
  by (auto simp: ram_read_def offset_Some_iff split: option.splits)

lemma ram_read_Nil [simp]: "snd (ram_read ram gpa []) = []"
  by (metis length_0_conv length_ram_read list.size(3))

lemma ram_read_rejected: "\<not> in_range ram gpa (length buf) \<Longrightarrow> snd (ram_read ram gpa buf) = buf"
  by (simp add: ram_read_def not_in_range_offset)

lemma ram_read_buf_irrelevant:
  "in_range ram gpa (length buf) \<Longrightarrow> snd (ram_read ram gpa buf) = ram_bytes ram gpa (length buf)"
  by (simp add: ram_read_def in_range_offset)

interpretation ram: byte_store ram_map in_range ram_bytes ram_put
proof unfold_locales
  fix m a and bs :: bytes and i
  assume ok: "in_range m a (length bs)"
  then show "ram_map (ram_put m a bs) i =
      (if i \<in> gpa_range a (length bs) then Some (bs ! (i - unat a)) else ram_map m i)"
    by (auto simp: ram_map_def ram_write_def in_range_offset in_range_iff nth_splice_at
        gpa_range_def)
next
  fix m a n i
  assume "in_range m a n" "i < n"
  then show "ram_map m (unat a + i) = Some (ram_bytes m a n ! i)"
    by (auto simp: ram_map_def ram_read_def in_range_offset in_range_iff nth_bslice)
next
  fix m a and bs :: bytes
  assume "\<not> in_range m a (length bs)"
  then show "ram_put m a bs = m" by (simp add: ram_write_def not_in_range_offset)
next
  fix m a and n k :: nat
  assume "in_range m a n" "k \<le> n"
  then show "in_range m a k" by (auto simp: in_range_iff)
qed (simp_all add: ram_read_rejected)


section \<open>Frames: what an operation may change\<close>

text \<open>\<open>changes_only A r r'\<close>: the operation kept the region's placement and size and changed no
  byte outside the address set \<open>A\<close>.  Every device operation is shown to be such a step.\<close>

definition changes_only :: "nat set \<Rightarrow> guest_ram \<Rightarrow> guest_ram \<Rightarrow> bool" where
  "changes_only A r r' \<longleftrightarrow>
     base r' = base r \<and> length (mem r') = length (mem r) \<and>
     (\<forall>i. i \<notin> A \<longrightarrow> ram_map r' i = ram_map r i)"

named_theorems frame_intros \<open>frames of the RAM operations\<close>

lemma changes_only_refl [simp, frame_intros]: "changes_only A r r"
  by (simp add: changes_only_def)

lemma changes_only_trans:
  "\<lbrakk>changes_only A r r'; changes_only B r' r''\<rbrakk> \<Longrightarrow> changes_only (A \<union> B) r r''"
  by (auto simp: changes_only_def)

lemma changes_only_step:
  "\<lbrakk>changes_only A r r'; changes_only A r' r''\<rbrakk> \<Longrightarrow> changes_only A r r''"
  by (auto simp: changes_only_def)

lemma changes_only_mono: "\<lbrakk>changes_only A r r'; A \<subseteq> B\<rbrakk> \<Longrightarrow> changes_only B r r'"
  by (auto simp: changes_only_def)

lemma changes_only_put [frame_intros]:
  "gpa_range a (length bs) \<subseteq> A \<Longrightarrow> changes_only A r (ram_put r a bs)"
  unfolding changes_only_def by (auto intro!: ram.view_wr_outside)

lemma changes_only_in_range: "changes_only A r r' \<Longrightarrow> in_range r' a n = in_range r a n"
  by (simp add: changes_only_def in_range_iff)

lemma changes_only_ram_ok: "changes_only A r r' \<Longrightarrow> ram_ok r' = ram_ok r"
  by (simp add: changes_only_def ram_ok_def)

lemma in_range_no_wrap:
  assumes "ram_ok ram" "in_range ram a n" "k < n"
  shows "unat (a + of_nat k) = unat a + k"
proof -
  have "unat a + n \<le> 2 ^ 64" using assms(1,2) by (auto simp: ram_ok_def in_range_iff)
  with assms(3) have "unat a + k < 2 ^ 64" by simp
  moreover have "unat (of_nat k :: u64) = k" using calculation by (simp add: unat_of_nat)
  ultimately show ?thesis using unat_add_lem [of a "of_nat k"] by simp
qed

lemma in_range_sub:
  assumes "ram_ok ram" "in_range ram a n" "k < n" "k + j \<le> n"
  shows "in_range ram (a + of_nat k) j"
  using assms(2,4) in_range_no_wrap [OF assms(1-3)] by (auto simp: in_range_iff)

lemma changes_only_bytes:
  assumes "changes_only A r r'" "A \<inter> gpa_range a n = {}"
  shows "ram_bytes r' a n = ram_bytes r a n"
proof (rule ram.rd_eqI)
  show "in_range r' a n = in_range r a n" by (rule changes_only_in_range [OF assms(1)])
next
  fix i assume "i \<in> gpa_range a n"
  with assms show "ram_map r' i = ram_map r i" unfolding changes_only_def by blast
qed

lemma changes_only_write_u16 [frame_intros]:
  "gpa_range a 2 \<subseteq> A \<Longrightarrow> changes_only A r (write_u16 r a v)"
  unfolding write_u16_def by (rule changes_only_put) simp

lemma changes_only_write_u32 [frame_intros]:
  "gpa_range a 4 \<subseteq> A \<Longrightarrow> changes_only A r (write_u32 r a v)"
  unfolding write_u32_def by (rule changes_only_put) simp

lemma read_u16_cong: "ram_bytes r' a 2 = ram_bytes r a 2 \<Longrightarrow> read_u16 r' a = read_u16 r a"
  by (simp add: read_u16_def)

lemma read_u32_cong: "ram_bytes r' a 4 = ram_bytes r a 4 \<Longrightarrow> read_u32 r' a = read_u32 r a"
  by (simp add: read_u32_def)

lemma read_u16_write_u16: "in_range r a 2 \<Longrightarrow> read_u16 (write_u16 r a v) a = v"
  using ram.rd_wr_same [of r a "to_le 2 v"]
  by (simp add: read_u16_def write_u16_def from_le_to_le)

lemma read_u32_write_u32: "in_range r a 4 \<Longrightarrow> read_u32 (write_u32 r a v) a = v"
  using ram.rd_wr_same [of r a "to_le 4 v"]
  by (simp add: read_u32_def write_u32_def from_le_to_le)

lemma read_u16_rejected: "\<not> in_range r a 2 \<Longrightarrow> read_u16 r a = 0"
  by (simp add: read_u16_def ram.rd_rejected)

lemma guest_memory_write_eq:
  "guest_memory_write ram gpa bs =
     (if in_range ram gpa (length bs) then Inr (ram_put ram gpa bs) else Inl Loader)"
  by (auto simp: guest_memory_write_def ram_write_def in_range_def split: option.splits)



section \<open>Evaluating accesses\<close>

lemma read_u16_eval:
  "read_u16 ram a = (case offset ram a 2 of None \<Rightarrow> 0 | Some k \<Rightarrow> from_le (bslice k 2 (mem ram)))"
  by (simp add: read_u16_def ram_read_def numeral_2_eq_2 split: option.split)

lemma read_u32_eval:
  "read_u32 ram a = (case offset ram a 4 of None \<Rightarrow> 0 | Some k \<Rightarrow> from_le (bslice k 4 (mem ram)))"
  by (simp add: read_u32_def ram_read_def split: option.split)

lemma read_u64_eval:
  "read_u64 ram a = (case offset ram a 8 of None \<Rightarrow> 0 | Some k \<Rightarrow> from_le (bslice k 8 (mem ram)))"
  by (simp add: read_u64_def ram_read_def split: option.split)

lemmas ram_eval = read_u16_eval read_u32_eval read_u64_eval offset_def checked_sub_def

end
