(* ===== verification/Virtio.thy ===== *)
theory Virtio
  imports Memory
begin

text \<open>
  The virtio-mmio transport, \<open>amber-core/src/virtio.rs\<close>: the register file, the split-virtqueue
  walkers and the two data paths (\<open>process\<close> for guest notifications, \<open>pump_rx\<close> for payloads
  that originate on the host).  A \<open>Box<dyn VirtioDevice>\<close> is a device state together with its
  method table; the table is the record \<open>virtio_ops\<close>, so the transport is written once over
  an arbitrary device.  Guest RAM is threaded through every operation that may touch it.
\<close>

section \<open>Registers and constants\<close>

definition VIRTIO_MAGIC :: u32 where "VIRTIO_MAGIC = 0x74726976"
definition VENDOR :: u32 where "VENDOR = 0x616d6265"
definition QUEUE_MAX :: u32 where "QUEUE_MAX = 256"
definition SECTOR :: u64 where "SECTOR = 512"
definition FEATURE_VERSION_1_WORD :: u32 where "FEATURE_VERSION_1_WORD = 1"
definition VIRTQ_DESC_F_NEXT :: u16 where "VIRTQ_DESC_F_NEXT = 1"
definition VIRTQ_DESC_F_WRITE :: u16 where "VIRTQ_DESC_F_WRITE = 2"
definition MAX_DESC_LEN :: u32 where "MAX_DESC_LEN = push_bit 20 16"

datatype mmio_reg =
    MAGIC | VERSION | DEVICE_ID | VENDOR_ID | DEVICE_FEATURES | DEVICE_FEATURES_SEL
  | DRIVER_FEATURES | DRIVER_FEATURES_SEL | QUEUE_SEL | QUEUE_NUM_MAX | QUEUE_NUM | QUEUE_READY
  | QUEUE_NOTIFY | INTERRUPT_STATUS | INTERRUPT_ACK | STATUS | QUEUE_DESC_LOW | QUEUE_DESC_HIGH
  | QUEUE_DRIVER_LOW | QUEUE_DRIVER_HIGH | QUEUE_DEVICE_LOW | QUEUE_DEVICE_HIGH
  | CONFIG_GENERATION | CONFIG u64 | UNKNOWN_REG

text \<open>The arms of the two \<open>match offset\<close> expressions.\<close>

definition mmio_reg_of :: "u64 \<Rightarrow> mmio_reg" where
  "mmio_reg_of off =
     (if off = 0x000 then MAGIC else if off = 0x004 then VERSION
      else if off = 0x008 then DEVICE_ID else if off = 0x00c then VENDOR_ID
      else if off = 0x010 then DEVICE_FEATURES else if off = 0x014 then DEVICE_FEATURES_SEL
      else if off = 0x020 then DRIVER_FEATURES else if off = 0x024 then DRIVER_FEATURES_SEL
      else if off = 0x030 then QUEUE_SEL else if off = 0x034 then QUEUE_NUM_MAX
      else if off = 0x038 then QUEUE_NUM else if off = 0x044 then QUEUE_READY
      else if off = 0x050 then QUEUE_NOTIFY else if off = 0x060 then INTERRUPT_STATUS
      else if off = 0x064 then INTERRUPT_ACK else if off = 0x070 then STATUS
      else if off = 0x080 then QUEUE_DESC_LOW else if off = 0x084 then QUEUE_DESC_HIGH
      else if off = 0x090 then QUEUE_DRIVER_LOW else if off = 0x094 then QUEUE_DRIVER_HIGH
      else if off = 0x0a0 then QUEUE_DEVICE_LOW else if off = 0x0a4 then QUEUE_DEVICE_HIGH
      else if off = 0x0fc then CONFIG_GENERATION
      else if 0x100 \<le> off then CONFIG (off - 0x100) else UNKNOWN_REG)"


section \<open>Buffers, queues and devices\<close>

record buf =
  addr :: u64
  len :: u32
  writable :: bool

record 'd virtio_ops =
  op_device_id :: u32
  op_device_features :: "'d \<Rightarrow> u32 \<Rightarrow> u32"
  op_config :: "'d \<Rightarrow> u64 \<Rightarrow> u32"
  op_num_queues :: nat
  op_config_changed :: "'d \<Rightarrow> bool"
  op_ack_config :: "'d \<Rightarrow> 'd"
  op_handle :: "'d \<Rightarrow> nat \<Rightarrow> guest_ram \<Rightarrow> buf list \<Rightarrow> 'd \<times> guest_ram \<times> u32"
  op_rx_queue :: "nat option"
  op_event_queue :: "nat option"
  op_poll_rx :: "'d \<Rightarrow> nat \<Rightarrow> 'd \<times> bytes option"
  op_wants_poll :: "'d \<Rightarrow> bool"
  op_take_throttle :: "'d \<Rightarrow> 'd \<times> rat option"

text \<open>The trait's default methods: a device overrides the fields it implements.\<close>

definition virtio_default_ops ::
  "u32 \<Rightarrow> ('d \<Rightarrow> nat \<Rightarrow> guest_ram \<Rightarrow> buf list \<Rightarrow> 'd \<times> guest_ram \<times> u32) \<Rightarrow> 'd virtio_ops" where
  "virtio_default_ops ident hdl =
     \<lparr>op_device_id = ident, op_device_features = (\<lambda>_ _. 0), op_config = (\<lambda>_ _. 0),
      op_num_queues = 1, op_config_changed = (\<lambda>_. False), op_ack_config = (\<lambda>d. d),
      op_handle = hdl, op_rx_queue = None, op_event_queue = None,
      op_poll_rx = (\<lambda>d _. (d, None)), op_wants_poll = (\<lambda>_. False),
      op_take_throttle = (\<lambda>d. (d, None))\<rparr>"

record queue =
  q_num :: u32
  q_ready :: u32
  q_desc :: u64
  q_avail :: u64
  q_used :: u64
  q_last_avail :: u16

definition queue_default :: queue where
  "queue_default = \<lparr>q_num = 0, q_ready = 0, q_desc = 0, q_avail = 0, q_used = 0, q_last_avail = 0\<rparr>"

record 'd virtio_mmio =
  dev :: 'd
  attached :: bool
  device_features_sel :: u32
  status :: u32
  queue_sel :: nat
  queues :: "queue list"
  interrupt_status :: u32
  pending_rx :: "bytes option"

text \<open>\<open>VirtioDevState\<close> of \<open>snapshot.rs\<close>: every queue is its six words.\<close>

record virtio_dev_state =
  ds_status :: u32
  ds_interrupt_status :: u32
  ds_queues :: "(u64 \<times> u64 \<times> u64 \<times> u64 \<times> u64 \<times> u64) list"

definition queue_words :: "queue \<Rightarrow> u64 \<times> u64 \<times> u64 \<times> u64 \<times> u64 \<times> u64" where
  "queue_words q = (ucast (q_num q), ucast (q_ready q), q_desc q, q_avail q, q_used q,
                    ucast (q_last_avail q))"

definition queue_of_words :: "u64 \<times> u64 \<times> u64 \<times> u64 \<times> u64 \<times> u64 \<Rightarrow> queue" where
  "queue_of_words v =
     (case v of (n, r, d, a, u, l) \<Rightarrow>
        \<lparr>q_num = min (ucast n) QUEUE_MAX, q_ready = ucast r, q_desc = d, q_avail = a, q_used = u,
         q_last_avail = ucast l\<rparr>)"

definition capture :: "'d virtio_mmio \<Rightarrow> virtio_dev_state" where
  "capture m = \<lparr>ds_status = status m, ds_interrupt_status = interrupt_status m,
                ds_queues = map queue_words (queues m)\<rparr>"

fun restore_queues :: "queue list \<Rightarrow> (u64 \<times> u64 \<times> u64 \<times> u64 \<times> u64 \<times> u64) list \<Rightarrow> queue list" where
  "restore_queues (q # qs) (v # vs) = queue_of_words v # restore_queues qs vs"
| "restore_queues qs _ = qs"

definition restore :: "virtio_dev_state \<Rightarrow> 'd virtio_mmio \<Rightarrow> 'd virtio_mmio" where
  "restore s m = m\<lparr>status := ds_status s, interrupt_status := ds_interrupt_status s,
                   queues := restore_queues (queues m) (ds_queues s)\<rparr>"

definition virtio_new :: "'d virtio_ops \<Rightarrow> 'd \<Rightarrow> 'd virtio_mmio" where
  "virtio_new ops d =
     \<lparr>dev = d, attached = False, device_features_sel = 0, status = 0, queue_sel = 0,
      queues = replicate (max (op_num_queues ops) 1) queue_default, interrupt_status = 0,
      pending_rx = None\<rparr>"

definition attach :: "'d virtio_mmio \<Rightarrow> 'd virtio_mmio" where
  "attach m = m\<lparr>attached := True\<rparr>"

definition irq_level :: "'d virtio_ops \<Rightarrow> 'd virtio_mmio \<Rightarrow> bool" where
  "irq_level ops m \<longleftrightarrow> interrupt_status m \<noteq> 0 \<or> op_config_changed ops (dev m)"

definition take_throttle :: "'d virtio_ops \<Rightarrow> 'd virtio_mmio \<Rightarrow> 'd virtio_mmio \<times> rat option" where
  "take_throttle ops m =
     (case op_take_throttle ops (dev m) of (d, t) \<Rightarrow> (m\<lparr>dev := d\<rparr>, t))"

definition wants_poll :: "'d virtio_ops \<Rightarrow> 'd virtio_mmio \<Rightarrow> bool" where
  "wants_poll ops m = op_wants_poll ops (dev m)"


section \<open>Register reads\<close>

definition selected_queue :: "'d virtio_mmio \<Rightarrow> queue" where
  "selected_queue m =
     (if queue_sel m < length (queues m) then queues m ! queue_sel m else queue_default)"

definition mmio_read :: "'d virtio_ops \<Rightarrow> 'd virtio_mmio \<Rightarrow> u64 \<Rightarrow> u64" where
  "mmio_read ops m off =
     ucast (case mmio_reg_of off of
        MAGIC \<Rightarrow> VIRTIO_MAGIC
      | VERSION \<Rightarrow> 2
      | DEVICE_ID \<Rightarrow> op_device_id ops
      | VENDOR_ID \<Rightarrow> VENDOR
      | DEVICE_FEATURES \<Rightarrow>
          (let f = op_device_features ops (dev m) (device_features_sel m) in
           if device_features_sel m = 1 then f OR FEATURE_VERSION_1_WORD else f)
      | QUEUE_NUM_MAX \<Rightarrow> (if queue_sel m < length (queues m) then QUEUE_MAX else 0)
      | QUEUE_READY \<Rightarrow> q_ready (selected_queue m)
      | INTERRUPT_STATUS \<Rightarrow>
          interrupt_status m OR (if op_config_changed ops (dev m) then 2 else 0)
      | STATUS \<Rightarrow> status m
      | CONFIG_GENERATION \<Rightarrow> 0
      | CONFIG o' \<Rightarrow> op_config ops (dev m) o'
      | _ \<Rightarrow> 0)"


section \<open>Walking the rings\<close>

text \<open>\<open>collect_chain\<close>: the \<open>for _ in 0..qsz\<close> loop, with the number of iterations left as first
  argument.\<close>

primrec collect_from :: "nat \<Rightarrow> guest_ram \<Rightarrow> u64 \<Rightarrow> u16 \<Rightarrow> u16 \<Rightarrow> buf list" where
  "collect_from 0 ram desc i qsz = []"
| "collect_from (Suc n) ram desc i qsz =
     (if qsz \<le> i then []
      else
        let d = desc + 16 * ucast i;
            a = read_u64 ram d;
            l = min (read_u32 ram (d + 8)) MAX_DESC_LEN;
            flags = read_u16 ram (d + 12);
            next = read_u16 ram (d + 14);
            l' = (if in_range ram a (unat l) then l else 0);
            b = \<lparr>addr = a, len = l', writable = (flags AND VIRTQ_DESC_F_WRITE \<noteq> 0)\<rparr>
        in if flags AND VIRTQ_DESC_F_NEXT = 0 then [b]
           else b # collect_from n ram desc next qsz)"

definition collect_chain :: "guest_ram \<Rightarrow> u64 \<Rightarrow> u16 \<Rightarrow> u16 \<Rightarrow> buf list" where
  "collect_chain ram desc head qsz = collect_from (unat qsz) ram desc head qsz"

definition push_used :: "guest_ram \<Rightarrow> u64 \<Rightarrow> u32 \<Rightarrow> u32 \<Rightarrow> u16 \<Rightarrow> guest_ram" where
  "push_used ram used ident l qsz =
     (if qsz = 0 then ram
      else
        let idx = read_u16 ram (used + 2);
            elem = used + (4 + 8 * ucast (idx mod qsz));
            ram1 = write_u32 ram elem ident;
            ram2 = write_u32 ram1 (elem + 4) l
        in write_u16 ram2 (used + 2) (idx + 1))"

text \<open>The head descriptor of the next chain the guest made available on a queue.\<close>

definition avail_idx :: "guest_ram \<Rightarrow> queue \<Rightarrow> u16" where
  "avail_idx ram q = read_u16 ram (q_avail q + 2)"

definition next_head :: "guest_ram \<Rightarrow> queue \<Rightarrow> u16" where
  "next_head ram q =
     (let slot = q_last_avail q mod ucast (q_num q)
      in read_u16 ram (q_avail q + (4 + 2 * ucast slot)))"

definition next_rx_capacity :: "guest_ram \<Rightarrow> queue \<Rightarrow> nat option" where
  "next_rx_capacity ram q =
     (if q_ready q = 0 \<or> q_num q = 0 then None
      else if q_last_avail q = avail_idx ram q then None
      else Some (sum_list (map (\<lambda>b. unat (len b))
             (filter writable (collect_chain ram (q_desc q) (next_head ram q) (ucast (q_num q)))))))"

text \<open>The copy loop of \<open>inject_one\<close>: fill the writable buffers in order, \<open>data\<close> being what is
  left to deliver, and return how much was written.\<close>

fun scatter :: "guest_ram \<Rightarrow> buf list \<Rightarrow> bytes \<Rightarrow> guest_ram \<times> nat" where
  "scatter ram [] data = (ram, 0)"
| "scatter ram (b # bs) data =
     (if data = [] then (ram, 0)
      else
        let n = min (unat (len b)) (length data);
            ram' = ram_put ram (addr b) (take n data)
        in case scatter ram' bs (drop n data) of (ram'', w) \<Rightarrow> (ram'', n + w))"

definition inject_one :: "guest_ram \<Rightarrow> queue \<Rightarrow> bytes \<Rightarrow> bool \<times> guest_ram \<times> queue" where
  "inject_one ram q data =
     (if q_ready q = 0 \<or> q_num q = 0 then (False, ram, q)
      else if q_last_avail q = avail_idx ram q then (False, ram, q)
      else
        let qsz = ucast (q_num q);
            head = next_head ram q;
            bufs = collect_chain ram (q_desc q) head qsz
        in case scatter ram (filter writable bufs) data of
             (ram', off) \<Rightarrow>
               (True, push_used ram' (q_used q) (ucast head) (of_nat off) qsz,
                q\<lparr>q_last_avail := q_last_avail q + 1\<rparr>))"


section \<open>Servicing a notification\<close>

fun process_loop ::
  "'d virtio_ops \<Rightarrow> nat \<Rightarrow> u16 \<Rightarrow> nat \<Rightarrow> 'd \<Rightarrow> guest_ram \<Rightarrow> queue \<Rightarrow> bool \<Rightarrow> 'd \<times> guest_ram \<times> queue \<times> bool"
  where
  "process_loop ops qidx aidx 0 d ram q progressed = (d, ram, q, progressed)"
| "process_loop ops qidx aidx (Suc budget) d ram q progressed =
     (if q_last_avail q = aidx then (d, ram, q, progressed)
      else
        let qsz = ucast (q_num q);
            head = next_head ram q;
            bufs = collect_chain ram (q_desc q) head qsz
        in case op_handle ops d qidx ram bufs of
             (d', ram', written) \<Rightarrow>
               process_loop ops qidx aidx budget d'
                 (push_used ram' (q_used q) (ucast head) written qsz)
                 (q\<lparr>q_last_avail := q_last_avail q + 1\<rparr>) True)"

definition process :: "'d virtio_ops \<Rightarrow> 'd virtio_mmio \<Rightarrow> guest_ram \<Rightarrow> nat \<Rightarrow> 'd virtio_mmio \<times> guest_ram"
  where
  "process ops m ram qidx =
     (if \<not> attached m then (m, ram)
      else if op_rx_queue ops = Some qidx \<or> op_event_queue ops = Some qidx then (m, ram)
      else if \<not> qidx < length (queues m) then (m, ram)
      else
        let q = queues m ! qidx in
        if q_ready q = 0 \<or> q_num q = 0 then (m, ram)
        else
          case process_loop ops qidx (avail_idx ram q) (unat (ucast (q_num q) :: u16))
                 (dev m) ram q False of
            (d', ram', q', progressed) \<Rightarrow>
              (m\<lparr>dev := d',
                 queues := (queues m)[qidx := (queues m ! qidx)\<lparr>q_last_avail := q_last_avail q'\<rparr>],
                 interrupt_status :=
                   (if progressed then interrupt_status m OR 1 else interrupt_status m)\<rparr>,
               ram'))"


section \<open>Register writes\<close>

definition with_queue :: "'d virtio_mmio \<Rightarrow> nat \<Rightarrow> (queue \<Rightarrow> queue) \<Rightarrow> 'd virtio_mmio" where
  "with_queue m sel f =
     (if sel < length (queues m) then m\<lparr>queues := (queues m)[sel := f (queues m ! sel)]\<rparr> else m)"

definition reset :: "'d virtio_mmio \<Rightarrow> 'd virtio_mmio" where
  "reset m = m\<lparr>interrupt_status := 0, queues := map (\<lambda>_. queue_default) (queues m)\<rparr>"

definition set_low :: "u64 \<Rightarrow> u32 \<Rightarrow> u64" where
  "set_low x v = (x AND NOT 0xffffffff) OR ucast v"

definition set_high :: "u64 \<Rightarrow> u32 \<Rightarrow> u64" where
  "set_high x v = (x AND 0xffffffff) OR push_bit 32 (ucast v)"

definition mmio_write ::
  "'d virtio_ops \<Rightarrow> 'd virtio_mmio \<Rightarrow> guest_ram \<Rightarrow> u64 \<Rightarrow> u64 \<Rightarrow> 'd virtio_mmio \<times> guest_ram" where
  "mmio_write ops m ram off value =
     (let v = ucast value :: u32; sel = queue_sel m in
      case mmio_reg_of off of
        DEVICE_FEATURES_SEL \<Rightarrow> (m\<lparr>device_features_sel := v\<rparr>, ram)
      | QUEUE_SEL \<Rightarrow> (m\<lparr>queue_sel := unat v\<rparr>, ram)
      | QUEUE_NUM \<Rightarrow> (with_queue m sel (\<lambda>q. q\<lparr>q_num := min v QUEUE_MAX\<rparr>), ram)
      | QUEUE_READY \<Rightarrow> (with_queue m sel (\<lambda>q. q\<lparr>q_ready := v\<rparr>), ram)
      | QUEUE_NOTIFY \<Rightarrow> process ops m ram (unat v)
      | INTERRUPT_ACK \<Rightarrow>
          (let m' = m\<lparr>interrupt_status := interrupt_status m AND NOT v\<rparr>
           in (if v AND 2 \<noteq> 0 then m'\<lparr>dev := op_ack_config ops (dev m')\<rparr> else m', ram))
      | STATUS \<Rightarrow>
          (let m' = m\<lparr>status := v\<rparr> in (if v = 0 then reset m' else m', ram))
      | QUEUE_DESC_LOW \<Rightarrow> (with_queue m sel (\<lambda>q. q\<lparr>q_desc := set_low (q_desc q) v\<rparr>), ram)
      | QUEUE_DESC_HIGH \<Rightarrow> (with_queue m sel (\<lambda>q. q\<lparr>q_desc := set_high (q_desc q) v\<rparr>), ram)
      | QUEUE_DRIVER_LOW \<Rightarrow> (with_queue m sel (\<lambda>q. q\<lparr>q_avail := set_low (q_avail q) v\<rparr>), ram)
      | QUEUE_DRIVER_HIGH \<Rightarrow> (with_queue m sel (\<lambda>q. q\<lparr>q_avail := set_high (q_avail q) v\<rparr>), ram)
      | QUEUE_DEVICE_LOW \<Rightarrow> (with_queue m sel (\<lambda>q. q\<lparr>q_used := set_low (q_used q) v\<rparr>), ram)
      | QUEUE_DEVICE_HIGH \<Rightarrow> (with_queue m sel (\<lambda>q. q\<lparr>q_used := set_high (q_used q) v\<rparr>), ram)
      | _ \<Rightarrow> (m, ram))"


section \<open>Delivering host payloads\<close>

text \<open>The \<open>while let\<close> loop of \<open>pump_rx\<close>.  It runs until the guest has no posted buffer or the
  device has no payload, and neither is bounded by the transport, so it is a partial function:
  \<open>None\<close> is a loop that does not end.\<close>

partial_function (option) pump_loop ::
  "'d virtio_ops \<Rightarrow> nat \<Rightarrow> 'd virtio_mmio \<Rightarrow> guest_ram \<Rightarrow> bool \<Rightarrow> ('d virtio_mmio \<times> guest_ram \<times> bool) option"
  where
  "pump_loop ops rxq m ram any =
     (if \<not> rxq < length (queues m) then Some (m, ram, any)
      else case next_rx_capacity ram (queues m ! rxq) of
        None \<Rightarrow> Some (m, ram, any)
      | Some cap \<Rightarrow>
          (case op_poll_rx ops (dev m) cap of
             (d', None) \<Rightarrow> Some (m\<lparr>dev := d'\<rparr>, ram, any)
           | (d', Some data) \<Rightarrow>
               (case inject_one ram (queues m ! rxq) data of
                  (injected, ram', q') \<Rightarrow>
                    if injected
                    then pump_loop ops rxq (m\<lparr>dev := d', queues := (queues m)[rxq := q']\<rparr>) ram' True
                    else Some (m\<lparr>dev := d', pending_rx := Some data\<rparr>, ram', any))))"

declare pump_loop.simps [code]

definition finish_pump ::
  "'d virtio_mmio \<times> guest_ram \<times> bool \<Rightarrow> bool \<times> 'd virtio_mmio \<times> guest_ram" where
  "finish_pump r =
     (case r of (m, ram, any) \<Rightarrow>
        (any, if any then m\<lparr>interrupt_status := interrupt_status m OR 1\<rparr> else m, ram))"

definition pump_rx ::
  "'d virtio_ops \<Rightarrow> 'd virtio_mmio \<Rightarrow> guest_ram \<Rightarrow> (bool \<times> 'd virtio_mmio \<times> guest_ram) option" where
  "pump_rx ops m ram =
     (if \<not> attached m then Some (False, m, ram)
      else case op_rx_queue ops of
        None \<Rightarrow> Some (False, m, ram)
      | Some rxq \<Rightarrow>
          (case pending_rx m of
             None \<Rightarrow> map_option finish_pump (pump_loop ops rxq m ram False)
           | Some data \<Rightarrow>
               if \<not> rxq < length (queues m) then Some (False, m\<lparr>pending_rx := None\<rparr>, ram)
               else
                 (case inject_one ram (queues m ! rxq) data of
                    (injected, ram', q') \<Rightarrow>
                      if injected
                      then map_option finish_pump
                             (pump_loop ops rxq
                                (m\<lparr>pending_rx := None, queues := (queues m)[rxq := q']\<rparr>) ram' True)
                      else Some (False, m, ram'))))"

end
