(* ===== verification/Virtio_Queue.thy ===== *)
theory Virtio_Queue
  imports Virtio
begin

text \<open>
  Laws of the virtqueue walkers of \<open>virtio.rs\<close>: what \<open>collect_chain\<close> returns for an arbitrary,
  possibly hostile, descriptor table; what \<open>push_used\<close> publishes; and that \<open>inject_one\<close> lays a
  payload out over the posted buffers byte for byte.
\<close>

section \<open>Descriptor chains\<close>

text \<open>Reference semantics of one descriptor: the buffer it denotes and its successor.\<close>

definition desc_buf :: "guest_ram \<Rightarrow> u64 \<Rightarrow> u16 \<Rightarrow> buf" where
  "desc_buf ram desc i =
     (let d = desc + 16 * ucast i;
          a = read_u64 ram d;
          l = min (read_u32 ram (d + 8)) MAX_DESC_LEN
      in \<lparr>addr = a, len = (if in_range ram a (unat l) then l else 0),
          writable = (read_u16 ram (d + 12) AND VIRTQ_DESC_F_WRITE \<noteq> 0)\<rparr>)"

definition desc_next :: "guest_ram \<Rightarrow> u64 \<Rightarrow> u16 \<Rightarrow> u16 option" where
  "desc_next ram desc i =
     (if read_u16 ram (desc + 16 * ucast i + 12) AND VIRTQ_DESC_F_NEXT = 0 then None
      else Some (read_u16 ram (desc + 16 * ucast i + 14)))"

text \<open>\<open>desc_chain ram desc qsz n i is\<close>: following \<open>next\<close> links from \<open>i\<close> for at most \<open>n\<close>
  descriptors visits exactly the table indices \<open>is\<close>.\<close>

inductive desc_chain :: "guest_ram \<Rightarrow> u64 \<Rightarrow> u16 \<Rightarrow> nat \<Rightarrow> u16 \<Rightarrow> u16 list \<Rightarrow> bool"
  for ram desc qsz where
  exhausted: "desc_chain ram desc qsz 0 i []"
| outside: "qsz \<le> i \<Longrightarrow> desc_chain ram desc qsz n i []"
| final: "\<lbrakk>i < qsz; desc_next ram desc i = None\<rbrakk> \<Longrightarrow> desc_chain ram desc qsz (Suc n) i [i]"
| link: "\<lbrakk>i < qsz; desc_next ram desc i = Some j; desc_chain ram desc qsz n j is\<rbrakk> \<Longrightarrow>
           desc_chain ram desc qsz (Suc n) i (i # is)"

lemma collect_from_Suc:
  "collect_from (Suc n) ram desc i qsz =
     (if qsz \<le> i then []
      else desc_buf ram desc i #
        (case desc_next ram desc i of None \<Rightarrow> [] | Some j \<Rightarrow> collect_from n ram desc j qsz))"
  by (simp add: Let_def desc_buf_def desc_next_def add.assoc)

declare collect_from.simps(2) [simp del]

lemma collect_from_chain:
  "\<exists>is. desc_chain ram desc qsz n i is \<and> collect_from n ram desc i qsz = map (desc_buf ram desc) is"
proof (induction n arbitrary: i)
  case 0
  show ?case by (intro exI [of _ "[]"]) (simp add: desc_chain.exhausted)
next
  case (Suc n)
  consider "qsz \<le> i" | "i < qsz" "desc_next ram desc i = None"
    | j where "i < qsz" "desc_next ram desc i = Some j" by fastforce
  then show ?case
  proof cases
    case 1
    then show ?thesis
      by (intro exI [of _ "[]"]) (simp add: collect_from_Suc desc_chain.outside)
  next
    case 2
    then show ?thesis
      by (intro exI [of _ "[i]"]) (simp add: collect_from_Suc desc_chain.final)
  next
    case 3
    obtain "is" where "desc_chain ram desc qsz n j is"
      "collect_from n ram desc j qsz = map (desc_buf ram desc) is" using Suc.IH by blast
    with 3 show ?thesis
      by (intro exI [of _ "i # is"]) (simp add: collect_from_Suc desc_chain.link)
  qed
qed

lemma desc_chain_bounds:
  "desc_chain ram desc qsz n i is \<Longrightarrow> length is \<le> n \<and> (\<forall>j\<in>set is. j < qsz)"
  by (induction rule: desc_chain.induct) auto

definition buf_ok :: "guest_ram \<Rightarrow> buf \<Rightarrow> bool" where
  "buf_ok ram b \<longleftrightarrow> len b \<le> MAX_DESC_LEN \<and> (len b \<noteq> 0 \<longrightarrow> in_range ram (addr b) (unat (len b)))"

lemma desc_buf_ok: "buf_ok ram (desc_buf ram desc i)"
  by (simp add: buf_ok_def desc_buf_def Let_def)

lemma collect_chain_ok: "b \<in> set (collect_chain ram desc head qsz) \<Longrightarrow> buf_ok ram b"
  unfolding collect_chain_def
  using collect_from_chain [of ram desc qsz "unat qsz" head] by (auto simp: desc_buf_ok)

lemma collect_chain_length: "length (collect_chain ram desc head qsz) \<le> unat qsz"
proof -
  obtain "is" where "desc_chain ram desc qsz (unat qsz) head is"
    "collect_from (unat qsz) ram desc head qsz = map (desc_buf ram desc) is"
    using collect_from_chain by blast
  then show ?thesis using desc_chain_bounds by (auto simp: collect_chain_def)
qed

definition buf_area :: "buf \<Rightarrow> nat set" where
  "buf_area b = gpa_range (addr b) (unat (len b))"

text \<open>What a device may write of one buffer (\<open>foot\<close>), lifted to a chain.  The transport itself
  writes exactly the device-writable buffers.\<close>

definition chain_area :: "(buf \<Rightarrow> nat set) \<Rightarrow> buf list \<Rightarrow> nat set" where
  "chain_area foot bufs = (\<Union>b \<in> set bufs. foot b)"

definition writable_foot :: "buf \<Rightarrow> nat set" where
  "writable_foot b = (if writable b then buf_area b else {})"

abbreviation writable_area :: "buf list \<Rightarrow> nat set" where
  "writable_area \<equiv> chain_area writable_foot"

lemma writable_area_filter: "writable_area bufs = (\<Union>b \<in> set (filter writable bufs). buf_area b)"
  by (auto simp: chain_area_def writable_foot_def split: if_splits)


section \<open>The used ring\<close>

definition used_area :: "u64 \<Rightarrow> u16 \<Rightarrow> nat set" where
  "used_area used qsz =
     gpa_range (used + 2) 2 \<union>
     (\<Union>k \<in> {k. k < qsz}. gpa_range (used + (4 + 8 * ucast k)) 4
                    \<union> gpa_range (used + (4 + 8 * ucast k) + 4) 4)"

lemma u16_mod_less: "qsz \<noteq> 0 \<Longrightarrow> i mod qsz < qsz" for qsz :: u16
  by (simp add: word_mod_less_divisor word_greater_zero_iff)

lemma push_used_frame [frame_intros]:
  "changes_only (used_area used qsz) ram (push_used ram used ident l qsz)"
proof (cases "qsz = 0")
  case False
  define k where "k = read_u16 ram (used + 2) mod qsz"
  have k: "k < qsz" unfolding k_def by (rule u16_mod_less [OF False])
  then have sub: "gpa_range (used + (4 + 8 * ucast k)) 4 \<subseteq> used_area used qsz"
    "gpa_range (used + (4 + 8 * ucast k) + 4) 4 \<subseteq> used_area used qsz"
    "gpa_range (used + 2) 2 \<subseteq> used_area used qsz"
    unfolding used_area_def by blast+
  show ?thesis
    unfolding push_used_def Let_def if_not_P [OF False] k_def [symmetric]
    by (rule changes_only_step [OF changes_only_step
          [OF changes_only_write_u32 [OF sub(1)] changes_only_write_u32 [OF sub(2)]]
          changes_only_write_u16 [OF sub(3)]])
qed (simp add: push_used_def)

lemma used_elem_addr:
  fixes k :: u16 and used :: u64
  shows "used + (4 + 8 * ucast k) = used + of_nat (4 + 8 * unat k)"
    "used + (4 + 8 * ucast k) + 4 = used + of_nat (8 + 8 * unat k)"
  by (simp_all add: algebra_simps)

text \<open>One used-ring publication: the element the index points at holds the head and the length,
  and the index moved on by one.\<close>

lemma push_used_publishes:
  fixes used :: u64
  assumes ok: "ram_ok ram" and ring: "in_range ram used (4 + 8 * unat qsz)" and q: "qsz \<noteq> 0"
  defines "idx \<equiv> read_u16 ram (used + 2)"
  defines "elem \<equiv> used + (4 + 8 * ucast (idx mod qsz))"
  shows "read_u16 (push_used ram used ident l qsz) (used + 2) = idx + 1" (is ?idx)
    and "read_u32 (push_used ram used ident l qsz) elem = ident" (is ?id)
    and "read_u32 (push_used ram used ident l qsz) (elem + 4) = l" (is ?len)
proof -
  define k where "k = unat (idx mod qsz)"
  have k: "k < unat qsz"
    unfolding k_def using u16_mod_less [OF q, of idx] by (simp add: word_less_nat_alt)
  have e: "elem = used + of_nat (4 + 8 * k)" "elem + 4 = used + of_nat (8 + 8 * k)"
    unfolding elem_def k_def by (rule used_elem_addr)+
  have two: "used + 2 = used + of_nat 2" by simp
  have u: "unat (used + 2) = unat used + 2" "unat elem = unat used + (4 + 8 * k)"
    "unat (elem + 4) = unat used + (8 + 8 * k)"
    by (subst two e, rule in_range_no_wrap [OF ok ring], use k in simp)+
  have r: "in_range ram (used + 2) 2" "in_range ram elem 4" "in_range ram (elem + 4) 4"
    by (subst two e, rule in_range_sub [OF ok ring], use k in simp, use k in simp)+
  define ram1 where "ram1 = write_u32 ram elem ident"
  define ram2 where "ram2 = write_u32 ram1 (elem + 4) l"
  have p: "push_used ram used ident l qsz = write_u16 ram2 (used + 2) (idx + 1)"
    unfolding push_used_def ram1_def ram2_def elem_def idx_def using q by (simp add: Let_def)
  have fr: "changes_only (gpa_range (elem + 4) 4) ram1 ram2"
    "changes_only (gpa_range (used + 2) 2) ram2 (write_u16 ram2 (used + 2) (idx + 1))"
    unfolding ram2_def by (simp_all add: frame_intros)
  have r': "in_range ram1 (elem + 4) 4" "in_range ram2 (used + 2) 2"
    using r(1,3) unfolding ram1_def ram2_def write_u32_def by simp_all
  have d: "gpa_range (elem + 4) 4 \<inter> gpa_range elem 4 = {}"
    "gpa_range (used + 2) 2 \<inter> gpa_range elem 4 = {}"
    "gpa_range (used + 2) 2 \<inter> gpa_range (elem + 4) 4 = {}"
    unfolding gpa_range_def u by auto
  show ?idx unfolding p by (rule read_u16_write_u16 [OF r'(2)])
  have "read_u32 ram2 (elem + 4) = l" unfolding ram2_def by (rule read_u32_write_u32 [OF r'(1)])
  then show ?len unfolding p using read_u32_cong [OF changes_only_bytes [OF fr(2) d(3)]] by simp
  have "read_u32 ram1 elem = ident" unfolding ram1_def by (rule read_u32_write_u32 [OF r(2)])
  then show ?id
    unfolding p using read_u32_cong [OF changes_only_bytes [OF fr(2) d(2)]]
      read_u32_cong [OF changes_only_bytes [OF fr(1) d(1)]] by simp
qed


section \<open>Laying a payload out over a chain\<close>

definition gather :: "guest_ram \<Rightarrow> buf list \<Rightarrow> bytes" where
  "gather ram bufs = concat (map (\<lambda>b. ram_bytes ram (addr b) (unat (len b))) bufs)"

definition bufs_capacity :: "buf list \<Rightarrow> nat" where
  "bufs_capacity bufs = sum_list (map (\<lambda>b. unat (len b)) bufs)"

definition bufs_disjoint :: "buf list \<Rightarrow> bool" where
  "bufs_disjoint bufs = sorted_wrt (\<lambda>b c. buf_area b \<inter> buf_area c = {}) bufs"

lemma length_gather [simp]: "length (gather ram bufs) = bufs_capacity bufs"
  by (simp add: gather_def bufs_capacity_def length_concat comp_def)

lemma gather_Cons: "gather ram (b # bs) = ram_bytes ram (addr b) (unat (len b)) @ gather ram bs"
  by (simp add: gather_def)

lemma gather_cong:
  assumes "changes_only A r r'" "\<And>b. b \<in> set bufs \<Longrightarrow> A \<inter> buf_area b = {}"
  shows "gather r' bufs = gather r bufs"
  unfolding gather_def
  by (intro arg_cong [where f = concat] map_cong refl changes_only_bytes [OF assms(1)])
    (use assms(2) in \<open>simp add: buf_area_def\<close>)

lemma buf_ok_changes: "changes_only A r r' \<Longrightarrow> buf_ok r' b = buf_ok r b"
  by (simp add: buf_ok_def changes_only_in_range)

lemma scatter_Cons:
  assumes "data \<noteq> []"
  defines "n \<equiv> \<lambda>b. min (unat (len b)) (length data)"
  defines "rest \<equiv> \<lambda>ram b bs. scatter (ram_put ram (addr b) (take (n b) data)) bs (drop (n b) data)"
  shows "scatter ram (b # bs) data = (fst (rest ram b bs), n b + snd (rest ram b bs))"
  using assms(1) unfolding n_def rest_def by (simp add: Let_def split: prod.split)

declare scatter.simps(2) [simp del]

lemma scatter_no_data [simp]: "scatter ram bufs [] = (ram, 0)"
  by (cases bufs) (simp_all add: scatter.simps)

lemma scatter_frame: "changes_only (\<Union>b\<in>set bufs. buf_area b) ram (fst (scatter ram bufs data))"
proof (induction ram bufs data rule: scatter.induct)
  case (2 ram b bs data)
  let ?n = "min (unat (len b)) (length data)"
  let ?r = "ram_put ram (addr b) (take ?n data)"
  have s: "changes_only (\<Union>b\<in>set (b # bs). buf_area b) ram ?r"
    by (rule changes_only_put) (auto simp: buf_area_def gpa_range_def)
  show ?case
  proof (cases "data = []")
    case False
    from 2 [OF False refl refl]
    have "changes_only (\<Union>b\<in>set (b # bs). buf_area b) ?r (fst (scatter ?r bs (drop ?n data)))"
      by (rule changes_only_mono) auto
    with s have "changes_only (\<Union>b\<in>set (b # bs). buf_area b) ram
        (fst (scatter ?r bs (drop ?n data)))" by (rule changes_only_step)
    with False show ?thesis by (simp add: scatter_Cons)
  qed simp
qed simp

lemma scatter_count: "snd (scatter ram bufs data) = min (bufs_capacity bufs) (length data)"
proof (induction ram bufs data rule: scatter.induct)
  case (2 ram b bs data)
  then show ?case
    by (cases "data = []") (auto simp: Let_def bufs_capacity_def scatter_Cons)
qed (simp add: bufs_capacity_def)

lemma scatter_gather:
  assumes "\<And>b. b \<in> set bufs \<Longrightarrow> buf_ok ram b" "bufs_disjoint bufs"
  shows "take (snd (scatter ram bufs data)) (gather (fst (scatter ram bufs data)) bufs)
           = take (snd (scatter ram bufs data)) data"
  using assms
proof (induction ram bufs data rule: scatter.induct)
  case (2 ram b bs data)
  show ?case
  proof (cases "data = []")
    case False
    define n where "n = min (unat (len b)) (length data)"
    define r where "r = ram_put ram (addr b) (take n data)"
    define r' where "r' = fst (scatter r bs (drop n data))"
    define w where "w = snd (scatter r bs (drop n data))"
    have sc: "scatter ram (b # bs) data = (r', n + w)"
      using False unfolding r'_def w_def r_def n_def by (simp add: scatter_Cons)
    have "changes_only UNIV ram r" unfolding r_def by (rule changes_only_put) simp
    then have ok: "\<And>c. c \<in> set (b # bs) \<Longrightarrow> buf_ok r c"
      using 2(2) buf_ok_changes by blast
    then have ih: "take w (gather r' bs) = take w (drop n data)"
      using 2(1) [OF False n_def r_def] 2(3) unfolding r'_def w_def by (simp add: bufs_disjoint_def)
    have "changes_only (\<Union>b\<in>set bs. buf_area b) r r'" unfolding r'_def by (rule scatter_frame)
    moreover have "(\<Union>b\<in>set bs. buf_area b) \<inter> gpa_range (addr b) (unat (len b)) = {}"
      using 2(3) unfolding bufs_disjoint_def buf_area_def by auto
    ultimately have b: "ram_bytes r' (addr b) (unat (len b)) = ram_bytes r (addr b) (unat (len b))"
      by (rule changes_only_bytes)
    have tn: "take n (ram_bytes r (addr b) (unat (len b))) = take n data"
    proof (cases "len b = 0")
      case False
      then have "in_range ram (addr b) (unat (len b))" using 2(2) [of b] by (simp add: buf_ok_def)
      from ram.take_rd_wr [OF this, of "take n data"] show ?thesis
        by (simp add: r_def n_def min.absorb1)
    qed (simp add: n_def)
    show ?thesis
    proof (cases "n = unat (len b)")
      case True
      then have "ram_bytes r (addr b) (unat (len b)) = take n data" using tn by simp
      then show ?thesis
        using True ih by (simp add: sc gather_Cons b take_add n_def)
    next
      case False
      then have "n = length data" "w = 0"
        unfolding w_def scatter_count by (auto simp: n_def min_def split: if_splits)
      moreover have "n \<le> unat (len b)" by (simp add: n_def)
      ultimately show ?thesis using tn by (simp add: sc gather_Cons b)
    qed
  qed simp
qed simp


section \<open>What the driver owns\<close>

text \<open>The addresses the walkers read: the descriptor table, the available index and the available
  ring.  \<open>rings_separate\<close> is the layout every conforming driver uses: neither the used ring nor anything the device
  writes (\<open>foot\<close>) overlaps them.\<close>

definition desc_area :: "u64 \<Rightarrow> u16 \<Rightarrow> nat set" where
  "desc_area desc i =
     gpa_range (desc + 16 * ucast i) 8 \<union> gpa_range (desc + 16 * ucast i + 8) 4 \<union>
     gpa_range (desc + 16 * ucast i + 12) 2 \<union> gpa_range (desc + 16 * ucast i + 14) 2"

definition driver_area :: "queue \<Rightarrow> nat set" where
  "driver_area q =
     gpa_range (q_avail q + 2) 2 \<union>
     (\<Union>i \<in> {i. i < ucast (q_num q)}. desc_area (q_desc q) i \<union> gpa_range (q_avail q + (4 + 2 * ucast i)) 2)"

definition rings_separate :: "(buf \<Rightarrow> nat set) \<Rightarrow> guest_ram \<Rightarrow> queue \<Rightarrow> bool" where
  "rings_separate foot ram q \<longleftrightarrow>
     used_area (q_used q) (ucast (q_num q)) \<inter> driver_area q = {} \<and>
     (\<forall>i < ucast (q_num q). foot (desc_buf ram (q_desc q) i) \<inter> driver_area q = {})"

lemma read_u64_cong: "ram_bytes r' a 8 = ram_bytes r a 8 \<Longrightarrow> read_u64 r' a = read_u64 r a"
  by (simp add: read_u64_def)

lemma desc_stable:
  assumes "changes_only A r r'" "A \<inter> desc_area desc i = {}"
  shows "desc_buf r' desc i = desc_buf r desc i" "desc_next r' desc i = desc_next r desc i"
proof -
  let ?d = "desc + 16 * ucast i"
  have "A \<inter> gpa_range ?d 8 = {}" "A \<inter> gpa_range (?d + 8) 4 = {}"
    "A \<inter> gpa_range (?d + 12) 2 = {}" "A \<inter> gpa_range (?d + 14) 2 = {}"
    using assms(2) unfolding desc_area_def by blast+
  note b = this [THEN changes_only_bytes [OF assms(1)]]
  note rd = read_u64_cong [OF b(1)] read_u32_cong [OF b(2)] read_u16_cong [OF b(3)]
    read_u16_cong [OF b(4)]
  show "desc_buf r' desc i = desc_buf r desc i"
    unfolding desc_buf_def Let_def rd changes_only_in_range [OF assms(1)] ..
  show "desc_next r' desc i = desc_next r desc i"
    unfolding desc_next_def rd ..
qed

lemma collect_from_stable:
  assumes "changes_only A r r'" "\<And>i. i < qsz \<Longrightarrow> A \<inter> desc_area desc i = {}"
  shows "collect_from n r' desc i qsz = collect_from n r desc i qsz"
proof (induction n arbitrary: i)
  case (Suc n)
  show ?case
    unfolding collect_from_Suc using desc_stable [OF assms(1) assms(2), of i] Suc.IH
    by (auto split: option.split)
qed simp

lemma qsz_nonzero:
  assumes "q_num q \<le> QUEUE_MAX" "q_num q \<noteq> 0"
  shows "unat (ucast (q_num q) :: u16) = unat (q_num q)" "(ucast (q_num q) :: u16) \<noteq> 0"
proof -
  show *: "unat (ucast (q_num q) :: u16) = unat (q_num q)"
    using assms(1) by (simp add: QUEUE_MAX_def word_le_nat_alt unsigned_ucast_eq take_bit_nat_eq_self_iff)
  show "(ucast (q_num q) :: u16) \<noteq> 0" using * assms(2) by (metis unat_eq_zero)
qed

lemma queue_stable:
  assumes "changes_only A r r'" "A \<inter> driver_area q = {}"
  shows "avail_idx r' q = avail_idx r q"
    and "q_num q \<le> QUEUE_MAX \<Longrightarrow> q_num q \<noteq> 0 \<Longrightarrow>
           next_head r' (q\<lparr>q_last_avail := l\<rparr>) = next_head r (q\<lparr>q_last_avail := l\<rparr>)"
    and "collect_chain r' (q_desc q) h (ucast (q_num q)) = collect_chain r (q_desc q) h (ucast (q_num q))"
proof -
  have "A \<inter> gpa_range (q_avail q + 2) 2 = {}" using assms(2) unfolding driver_area_def by blast
  then show "avail_idx r' q = avail_idx r q"
    unfolding avail_idx_def by (intro read_u16_cong changes_only_bytes [OF assms(1)])
  have sub: "A \<inter> desc_area (q_desc q) i = {}" "A \<inter> gpa_range (q_avail q + (4 + 2 * ucast i)) 2 = {}"
    if "i < ucast (q_num q)" for i
    using assms(2) that unfolding driver_area_def by blast+
  show "collect_chain r' (q_desc q) h (ucast (q_num q)) = collect_chain r (q_desc q) h (ucast (q_num q))"
    unfolding collect_chain_def by (rule collect_from_stable [OF assms(1)]) (rule sub)
  show "next_head r' (q\<lparr>q_last_avail := l\<rparr>) = next_head r (q\<lparr>q_last_avail := l\<rparr>)"
    if "q_num q \<le> QUEUE_MAX" "q_num q \<noteq> 0"
  proof -
    have "l mod ucast (q_num q) < ucast (q_num q)" by (rule u16_mod_less [OF qsz_nonzero(2) [OF that]])
    from sub(2) [OF this] show ?thesis
      unfolding next_head_def Let_def by (simp, intro read_u16_cong changes_only_bytes [OF assms(1)])
  qed
qed

lemma chain_area_separate:
  assumes "rings_separate foot ram q"
  shows "chain_area foot (collect_chain ram (q_desc q) h (ucast (q_num q))) \<inter> driver_area q = {}"
proof -
  obtain "is" where c: "desc_chain ram (q_desc q) (ucast (q_num q)) (unat (ucast (q_num q) :: u16)) h is"
    "collect_chain ram (q_desc q) h (ucast (q_num q)) = map (desc_buf ram (q_desc q)) is"
    using collect_from_chain unfolding collect_chain_def by blast
  with desc_chain_bounds [OF c(1)] assms show ?thesis
    unfolding chain_area_def rings_separate_def by auto
qed

lemma driver_area_last_avail [simp]: "driver_area (q\<lparr>q_last_avail := l\<rparr>) = driver_area q"
  by (simp add: driver_area_def)

lemma rings_separate_last_avail [simp]:
  "rings_separate foot ram (q\<lparr>q_last_avail := l\<rparr>) = rings_separate foot ram q"
  by (simp add: rings_separate_def)

lemma rings_separate_stable:
  assumes "changes_only A r r'" "A \<inter> driver_area q = {}" "rings_separate foot r q"
  shows "rings_separate foot r' q"
proof -
  have "desc_buf r' (q_desc q) i = desc_buf r (q_desc q) i" if "i < ucast (q_num q)" for i
  proof (rule desc_stable(1) [OF assms(1)])
    show "A \<inter> desc_area (q_desc q) i = {}" using assms(2) that unfolding driver_area_def by blast
  qed
  then show ?thesis using assms(3) by (simp add: rings_separate_def)
qed

end
