(* ===== verification/Virtio_Mmio.thy ===== *)
theory Virtio_Mmio
  imports Virtio_Queue
begin

text \<open>
  Laws of the virtio-mmio register machine.  The locale \<open>virtio_device\<close> is the contract the
  transport expects of the device behind it, \<open>confined_device\<close> adds that the device writes guest
  memory only through the buffers of the chain it was handed, within a declared footprint.  The lemmas of the
  locales are proved once; every device theory interprets them on its own operations.
\<close>

section \<open>The transport invariant\<close>

definition queue_ok :: "queue \<Rightarrow> bool" where
  "queue_ok q \<longleftrightarrow> q_num q \<le> QUEUE_MAX"

definition queues_ok :: "nat \<Rightarrow> queue list \<Rightarrow> bool" where
  "queues_ok n qs \<longleftrightarrow> length qs = max n 1 \<and> (\<forall>q \<in> set qs. queue_ok q)"

definition mmio_ok :: "'d virtio_ops \<Rightarrow> 'd virtio_mmio \<Rightarrow> bool" where
  "mmio_ok ops m = queues_ok (op_num_queues ops) (queues m)"

definition bufs_ok :: "guest_ram \<Rightarrow> buf list \<Rightarrow> bool" where
  "bufs_ok ram bufs \<longleftrightarrow> length bufs \<le> 256 \<and> (\<forall>b \<in> set bufs. buf_ok ram b)"

lemma queue_default_ok [simp]: "queue_ok queue_default"
  by (simp add: queue_ok_def queue_default_def)

lemma queue_ok_last_avail [simp]: "queue_ok (q\<lparr>q_last_avail := l\<rparr>) = queue_ok q"
  by (simp add: queue_ok_def)

lemma queue_ok_set [simp]:
  "queue_ok (q\<lparr>q_desc := x\<rparr>) = queue_ok q" "queue_ok (q\<lparr>q_avail := x\<rparr>) = queue_ok q"
  "queue_ok (q\<lparr>q_used := x\<rparr>) = queue_ok q" "queue_ok (q\<lparr>q_ready := r\<rparr>) = queue_ok q"
  "queue_ok (q\<lparr>q_num := min v QUEUE_MAX\<rparr>)"
  by (simp_all add: queue_ok_def)

lemma queue_of_words_ok [simp]: "queue_ok (queue_of_words v)"
  by (cases v) (simp add: queue_ok_def queue_of_words_def)

lemma qsz_le: "queue_ok q \<Longrightarrow> unat (ucast (q_num q) :: u16) \<le> 256"
  by (cases "q_num q = 0")
    (simp_all add: queue_ok_def qsz_nonzero(1), simp add: QUEUE_MAX_def word_le_nat_alt)

lemma collect_chain_bufs_ok:
  "queue_ok q \<Longrightarrow> bufs_ok ram (collect_chain ram (q_desc q) h (ucast (q_num q)))"
  using collect_chain_length [of ram "q_desc q" h "ucast (q_num q)"] qsz_le [of q]
  by (auto simp: bufs_ok_def collect_chain_ok)

lemma length_restore_queues [simp]: "length (restore_queues qs vs) = length qs"
  by (induction qs vs rule: restore_queues.induct) simp_all

lemma restore_queues_ok: "queues_ok n qs \<Longrightarrow> queues_ok n (restore_queues qs vs)"
proof -
  have "\<forall>q\<in>set qs. queue_ok q \<Longrightarrow> \<forall>q\<in>set (restore_queues qs vs). queue_ok q"
    by (induction qs vs rule: restore_queues.induct) auto
  then show "queues_ok n qs \<Longrightarrow> queues_ok n (restore_queues qs vs)" by (simp add: queues_ok_def)
qed

lemma queues_ok_update: "\<lbrakk>queues_ok n qs; queue_ok q\<rbrakk> \<Longrightarrow> queues_ok n (qs[i := q])"
  by (auto simp: queues_ok_def dest: set_update_subset_insert [THEN subsetD])

lemma queues_ok_nth: "\<lbrakk>queues_ok n qs; i < length qs\<rbrakk> \<Longrightarrow> queue_ok (qs ! i)"
  by (simp add: queues_ok_def)

lemma queues_ok_reset: "queues_ok n qs \<Longrightarrow> queues_ok n (map (\<lambda>_. queue_default) qs)"
  by (auto simp: queues_ok_def)

lemma queues_with_queue:
  "\<lbrakk>queues_ok n (queues m); \<And>q. queue_ok q \<Longrightarrow> queue_ok (f q)\<rbrakk> \<Longrightarrow> queues_ok n (queues (with_queue m sel f))"
  by (simp add: with_queue_def queues_ok_update queues_ok_nth)

lemma mmio_ok_new: "mmio_ok ops (virtio_new ops d)"
  by (simp add: mmio_ok_def queues_ok_def virtio_new_def)

lemma dev_virtio_new [simp]: "dev (virtio_new ops d) = d"
  by (simp add: virtio_new_def)

lemma mmio_ok_restore: "mmio_ok ops m \<Longrightarrow> mmio_ok ops (restore s m)"
  by (simp add: mmio_ok_def restore_def restore_queues_ok)

lemmas mmio_ok_simps = mmio_ok_def queues_ok_update queues_ok_reset queues_with_queue

lemma dev_with_queue [simp]: "dev (with_queue m sel f) = dev m"
  by (simp add: with_queue_def)

lemma dev_reset [simp]: "dev (reset m) = dev m"
  by (simp add: reset_def)


section \<open>Consumption of the available ring\<close>

text \<open>How many chains one notification serves: everything available, at most one ring's worth.\<close>

definition served :: "nat \<Rightarrow> u16 \<Rightarrow> u16 \<Rightarrow> nat" where
  "served budget aidx l = min budget (unat (aidx - l))"

lemma served_0 [simp]: "served 0 a l = 0" "served b a a = 0"
  by (simp_all add: served_def)

lemma served_Suc: "l \<noteq> a \<Longrightarrow> served (Suc b) a l = Suc (served b a (l + 1))"
  by (simp add: served_def word_distance_Suc)

lemma process_loop_queue:
  "process_loop ops qidx aidx budget d ram q p = (d', ram', q', p') \<Longrightarrow>
     q' = q\<lparr>q_last_avail := q_last_avail q + of_nat (served budget aidx (q_last_avail q))\<rparr> \<and>
     p' = (p \<or> 0 < served budget aidx (q_last_avail q))"
proof (induction budget arbitrary: d ram q p)
  case (Suc b)
  show ?case
  proof (cases "q_last_avail q = aidx")
    case False
    with Suc.prems obtain d1 ram1 p1 where
      "process_loop ops qidx aidx b d1 ram1 (q\<lparr>q_last_avail := q_last_avail q + 1\<rparr>) True = (d', ram', q', p')"
      by (auto simp: Let_def split: prod.splits)
    from Suc.IH [OF this] False show ?thesis by (simp add: served_Suc algebra_simps)
  qed (use Suc.prems in simp)
qed simp

text \<open>The chains one notification hands to the device, in order.\<close>

fun process_trace ::
  "'d virtio_ops \<Rightarrow> nat \<Rightarrow> u16 \<Rightarrow> nat \<Rightarrow> 'd \<Rightarrow> guest_ram \<Rightarrow> queue \<Rightarrow> buf list list" where
  "process_trace ops qidx aidx 0 d ram q = []"
| "process_trace ops qidx aidx (Suc budget) d ram q =
     (if q_last_avail q = aidx then []
      else
        let qsz = ucast (q_num q);
            head = next_head ram q;
            bufs = collect_chain ram (q_desc q) head qsz
        in case op_handle ops d qidx ram bufs of
             (d', ram', written) \<Rightarrow>
               bufs # process_trace ops qidx aidx budget d'
                 (push_used ram' (q_used q) (ucast head) written qsz)
                 (q\<lparr>q_last_avail := q_last_avail q + 1\<rparr>))"

lemma process_trace_length:
  "length (process_trace ops qidx aidx budget d ram q) = served budget aidx (q_last_avail q)"
proof (induction budget arbitrary: d ram q)
  case (Suc b)
  then show ?case
    by (cases "q_last_avail q = aidx") (simp_all add: Let_def served_Suc split: prod.split)
qed simp


section \<open>The receive loop\<close>

lemma pump_loop_induct [consumes 1, case_names stop no_payload delivered refused]:
  assumes "pump_loop ops rxq m ram any = Some r"
    and stop: "\<And>m ram any. P m ram any (m, ram, any)"
    and no_payload: "\<And>m ram any cap d'. \<lbrakk>rxq < length (queues m);
        next_rx_capacity ram (queues m ! rxq) = Some cap; op_poll_rx ops (dev m) cap = (d', None)\<rbrakk> \<Longrightarrow>
        P m ram any (m\<lparr>dev := d'\<rparr>, ram, any)"
    and delivered: "\<And>m ram any cap d' data ram' q' r. \<lbrakk>rxq < length (queues m);
        next_rx_capacity ram (queues m ! rxq) = Some cap; op_poll_rx ops (dev m) cap = (d', Some data);
        inject_one ram (queues m ! rxq) data = (True, ram', q');
        P (m\<lparr>dev := d', queues := (queues m)[rxq := q']\<rparr>) ram' True r\<rbrakk> \<Longrightarrow> P m ram any r"
    and refused: "\<And>m ram any cap d' data ram' q'. \<lbrakk>rxq < length (queues m);
        next_rx_capacity ram (queues m ! rxq) = Some cap; op_poll_rx ops (dev m) cap = (d', Some data);
        inject_one ram (queues m ! rxq) data = (False, ram', q')\<rbrakk> \<Longrightarrow>
        P m ram any (m\<lparr>dev := d', pending_rx := Some data\<rparr>, ram', any)"
  shows "P m ram any r"
  using pump_loop.raw_induct [of "\<lambda>ops' rxq' m ram any r. ops' = ops \<longrightarrow> rxq' = rxq \<longrightarrow> P m ram any r",
      OF _ assms(1)]
  by (rule mp [THEN mp]) (auto split: if_splits option.splits prod.splits
      intro: stop no_payload delivered refused)

lemma inject_one_facts:
  assumes "inject_one ram q data = (b, ram', q')"
  shows "changes_only UNIV ram ram'" "queue_ok q' = queue_ok q"
proof -
  let ?bufs = "filter writable (collect_chain ram (q_desc q) (next_head ram q) (ucast (q_num q)))"
  obtain r1 off where s: "scatter ram ?bufs data = (r1, off)" by fastforce
  have "changes_only UNIV ram r1"
    using changes_only_mono [OF scatter_frame [of ?bufs ram data]] s by simp
  moreover have "changes_only UNIV r1 (push_used r1 u i l z)" for u i l z
    by (rule changes_only_mono [OF push_used_frame]) simp
  ultimately show "changes_only UNIV ram ram'" "queue_ok q' = queue_ok q"
    using assms s by (auto simp: inject_one_def Let_def split: if_splits intro: changes_only_step)
qed


section \<open>The device contract\<close>

locale virtio_device =
  fixes ops :: "'d virtio_ops" and dinv :: "'d \<Rightarrow> bool"
  assumes handle_inv: "\<lbrakk>dinv d; bufs_ok ram bufs\<rbrakk> \<Longrightarrow> dinv (fst (op_handle ops d qidx ram bufs))"
    and handle_shape: "changes_only UNIV ram (fst (snd (op_handle ops d qidx ram bufs)))"
    and ack_inv: "dinv d \<Longrightarrow> dinv (op_ack_config ops d)"
    and poll_inv: "dinv d \<Longrightarrow> dinv (fst (op_poll_rx ops d cap))"
    and throttle_inv: "dinv d \<Longrightarrow> dinv (fst (op_take_throttle ops d))"
begin

lemma process_loop_inv:
  "\<lbrakk>process_loop ops qidx aidx budget d ram q p = (d', ram', q', p'); dinv d; queue_ok q\<rbrakk> \<Longrightarrow>
     dinv d' \<and> changes_only UNIV ram ram'"
proof (induction budget arbitrary: d ram q p)
  case (Suc b)
  show ?case
  proof (cases "q_last_avail q = aidx")
    case False
    let ?bufs = "collect_chain ram (q_desc q) (next_head ram q) (ucast (q_num q))"
    obtain d1 ram1 w where h: "op_handle ops d qidx ram ?bufs = (d1, ram1, w)"
      by (cases "op_handle ops d qidx ram ?bufs")
    let ?ram2 = "push_used ram1 (q_used q) (ucast (next_head ram q)) w (ucast (q_num q))"
    have d1: "dinv d1"
      using handle_inv [OF Suc.prems(2) collect_chain_bufs_ok [OF Suc.prems(3)]] h by (metis fst_conv)
    have "changes_only UNIV ram ram1" using handle_shape [of ram d qidx ?bufs] h by simp
    moreover have "changes_only UNIV ram1 ?ram2"
      by (rule changes_only_mono [OF push_used_frame]) simp
    ultimately have f: "changes_only UNIV ram ?ram2" by (rule changes_only_step)
    have "process_loop ops qidx aidx b d1 ?ram2 (q\<lparr>q_last_avail := q_last_avail q + 1\<rparr>) True = (d', ram', q', p')"
      using Suc.prems(1) False h by (simp add: Let_def)
    from Suc.IH [OF this d1] Suc.prems(3) f show ?thesis by (auto intro: changes_only_step)
  qed (use Suc.prems in simp)
qed simp

lemma process_inv:
  assumes "mmio_ok ops m" "dinv (dev m)"
  shows "mmio_ok ops (fst (process ops m ram qidx)) \<and> dinv (dev (fst (process ops m ram qidx))) \<and>
         changes_only UNIV ram (snd (process ops m ram qidx))"
proof -
  let ?q = "queues m ! qidx"
  obtain d' ram' q' p' where l: "process_loop ops qidx (avail_idx ram ?q)
      (unat (ucast (q_num ?q) :: u16)) (dev m) ram ?q False = (d', ram', q', p')"
    by (metis prod_cases4)
  show ?thesis
  proof (cases "attached m \<and> \<not> (op_rx_queue ops = Some qidx \<or> op_event_queue ops = Some qidx) \<and>
      qidx < length (queues m) \<and> \<not> (q_ready ?q = 0 \<or> q_num ?q = 0)")
    case True
    then have "queue_ok ?q" using assms(1) by (simp add: mmio_ok_def queues_ok_nth)
    with process_loop_inv [OF l assms(2)] True assms(1) show ?thesis
      unfolding process_def Let_def l by (simp add: mmio_ok_simps)
  next
    case False
    then have "process ops m ram qidx = (m, ram)" by (auto simp: process_def Let_def)
    with assms show ?thesis by simp
  qed
qed

lemma mmio_write_inv:
  assumes "mmio_ok ops m" "dinv (dev m)"
  shows "mmio_ok ops (fst (mmio_write ops m ram off v)) \<and>
         dinv (dev (fst (mmio_write ops m ram off v))) \<and>
         changes_only UNIV ram (snd (mmio_write ops m ram off v))"
proof (cases "mmio_reg_of off")
  case QUEUE_NOTIFY
  then show ?thesis using process_inv [OF assms] by (simp add: mmio_write_def Let_def)
qed (use assms in \<open>simp_all add: mmio_write_def Let_def mmio_ok_simps reset_def ack_inv\<close>)

lemma pump_loop_inv:
  "pump_loop ops rxq m ram any = Some r \<Longrightarrow> mmio_ok ops m \<Longrightarrow> dinv (dev m) \<Longrightarrow>
     mmio_ok ops (fst r) \<and> dinv (dev (fst r)) \<and> changes_only UNIV ram (fst (snd r))"
proof (induction rule: pump_loop_induct)
  case (no_payload m ram any cap d')
  then show ?case using poll_inv [of "dev m" cap] by (simp add: mmio_ok_def)
next
  case (delivered m ram any cap d' data ram' q' r)
  have "queue_ok q'"
    using delivered(1,6) inject_one_facts(2) [OF delivered(4)] by (simp add: mmio_ok_def queues_ok_nth)
  with delivered poll_inv [of "dev m" cap] show ?case
    using inject_one_facts(1) [OF delivered(4)] by (auto simp: mmio_ok_simps intro: changes_only_step)
next
  case (refused m ram any cap d' data ram' q')
  then show ?case
    using poll_inv [of "dev m" cap] inject_one_facts(1) [OF refused(4)] by (simp add: mmio_ok_def)
qed simp

lemma pump_rx_inv:
  assumes "pump_rx ops m ram = Some (b, m', ram')" "mmio_ok ops m" "dinv (dev m)"
  shows "mmio_ok ops m' \<and> dinv (dev m') \<and> changes_only UNIV ram ram'"
proof -
  have fin: "mmio_ok ops m' \<and> dinv (dev m') \<and> changes_only UNIV ram0 ram'"
    if "map_option finish_pump (pump_loop ops rxq m0 ram0 any) = Some (b, m', ram')"
      "mmio_ok ops m0" "dinv (dev m0)" for rxq m0 ram0 any
  proof -
    from that(1) obtain r where r: "pump_loop ops rxq m0 ram0 any = Some r"
      "finish_pump r = (b, m', ram')" by auto
    from pump_loop_inv [OF r(1) that(2,3)] r(2) show ?thesis
      by (auto simp: finish_pump_def mmio_ok_def split: prod.splits if_splits)
  qed
  consider "\<not> attached m \<or> op_rx_queue ops = None" | rxq where "attached m" "op_rx_queue ops = Some rxq"
    by blast
  then show ?thesis
  proof cases
    case 1
    then have "pump_rx ops m ram = Some (False, m, ram)" by (auto simp: pump_rx_def)
    with assms show ?thesis by simp
  next
    case (2 rxq)
    show ?thesis
    proof (cases "pending_rx m")
      case None
      with assms 2 fin show ?thesis by (simp add: pump_rx_def)
    next
      case (Some data)
      show ?thesis
      proof (cases "rxq < length (queues m)")
        case False
        with assms 2 Some show ?thesis by (auto simp: pump_rx_def mmio_ok_def)
      next
        case True
        obtain inj ram1 q1 where i: "inject_one ram (queues m ! rxq) data = (inj, ram1, q1)"
          by (metis prod_cases3)
        note f = inject_one_facts [OF i]
        have "queue_ok q1" using f(2) True assms(2) by (simp add: mmio_ok_def queues_ok_nth)
        then have "mmio_ok ops (m\<lparr>pending_rx := None, queues := (queues m)[rxq := q1]\<rparr>)"
          using assms(2) by (simp add: mmio_ok_simps)
        note upd = this
        show ?thesis
        proof (cases inj)
          case True
          then have "map_option finish_pump (pump_loop ops rxq
              (m\<lparr>pending_rx := None, queues := (queues m)[rxq := q1]\<rparr>) ram1 True) = Some (b, m', ram')"
            using assms(1) 2 Some \<open>rxq < length (queues m)\<close> i by (simp add: pump_rx_def)
          from fin [OF this upd] assms(3) f(1) show ?thesis by (auto intro: changes_only_step)
        next
          case False
          with assms 2 Some \<open>rxq < length (queues m)\<close> i f(1) show ?thesis by (simp add: pump_rx_def)
        qed
      qed
    qed
  qed
qed

end

locale confined_device = virtio_device ops dinv
  for ops :: "'d virtio_ops" and dinv :: "'d \<Rightarrow> bool" +
  fixes foot :: "buf \<Rightarrow> nat set"
  assumes handle_confined: "\<lbrakk>dinv d; bufs_ok ram bufs\<rbrakk> \<Longrightarrow>
      changes_only (chain_area foot bufs) ram (fst (snd (op_handle ops d qidx ram bufs)))"
begin

lemma process_loop_step:
  fixes ram :: guest_ram
  assumes "q_last_avail q \<noteq> aidx" "dinv d" "queue_ok q"
  defines "bufs \<equiv> collect_chain ram (q_desc q) (next_head ram q) (ucast (q_num q))"
  obtains d1 ram1 where "dinv d1"
    "changes_only (chain_area foot bufs \<union> used_area (q_used q) (ucast (q_num q))) ram ram1"
    "\<And>b p. process_loop ops qidx aidx (Suc b) d ram q p =
       process_loop ops qidx aidx b d1 ram1 (q\<lparr>q_last_avail := q_last_avail q + 1\<rparr>) True"
    "\<And>b. process_trace ops qidx aidx (Suc b) d ram q =
       bufs # process_trace ops qidx aidx b d1 ram1 (q\<lparr>q_last_avail := q_last_avail q + 1\<rparr>)"
proof -
  obtain d1 ram0 w where h: "op_handle ops d qidx ram bufs = (d1, ram0, w)"
    by (cases "op_handle ops d qidx ram bufs")
  let ?ram1 = "push_used ram0 (q_used q) (ucast (next_head ram q)) w (ucast (q_num q))"
  have ok: "bufs_ok ram bufs" unfolding bufs_def by (rule collect_chain_bufs_ok [OF assms(3)])
  have "changes_only (chain_area foot bufs) ram ram0"
    using handle_confined [OF assms(2) ok, of qidx] h by simp
  then have f: "changes_only (chain_area foot bufs \<union> used_area (q_used q) (ucast (q_num q))) ram ?ram1"
    by (rule changes_only_trans) (rule push_used_frame)
  have "dinv d1" using handle_inv [OF assms(2) ok, of qidx] h by simp
  then show thesis
    using that f assms(1) h unfolding bufs_def by (simp add: Let_def)
qed

lemma process_loop_confined:
  "\<lbrakk>process_loop ops qidx aidx budget d ram q p = (d', ram', q', p'); dinv d; queue_ok q\<rbrakk> \<Longrightarrow>
     changes_only (used_area (q_used q) (ucast (q_num q)) \<union>
       (\<Union>bufs \<in> set (process_trace ops qidx aidx budget d ram q). chain_area foot bufs)) ram ram'"
proof (induction budget arbitrary: d ram q p)
  case (Suc b)
  show ?case
  proof (cases "q_last_avail q = aidx")
    case False
    obtain d1 ram1 where s: "dinv d1" "changes_only (chain_area foot (collect_chain ram (q_desc q)
        (next_head ram q) (ucast (q_num q))) \<union> used_area (q_used q) (ucast (q_num q))) ram ram1"
      "\<And>b p. process_loop ops qidx aidx (Suc b) d ram q p =
         process_loop ops qidx aidx b d1 ram1 (q\<lparr>q_last_avail := q_last_avail q + 1\<rparr>) True"
      "\<And>b. process_trace ops qidx aidx (Suc b) d ram q =
         collect_chain ram (q_desc q) (next_head ram q) (ucast (q_num q)) #
         process_trace ops qidx aidx b d1 ram1 (q\<lparr>q_last_avail := q_last_avail q + 1\<rparr>)"
      by (rule process_loop_step [OF False Suc.prems(2,3), where ram = ram and qidx = qidx]) (rule that)
    from Suc.IH [OF Suc.prems(1) [unfolded s(3)] s(1)] Suc.prems(3)
    have "changes_only (used_area (q_used q) (ucast (q_num q)) \<union>
        (\<Union>bufs \<in> set (process_trace ops qidx aidx b d1 ram1 (q\<lparr>q_last_avail := q_last_avail q + 1\<rparr>)).
           chain_area foot bufs)) ram1 ram'" by simp
    from changes_only_trans [OF s(2) this] show ?thesis
      unfolding s(4) by (rule changes_only_mono) auto
  qed (use Suc.prems in simp)
qed simp

text \<open>With a conforming ring layout the walk is stable: nothing the device writes while serving a
  notification changes which chains are served, they are the entries of the available ring at
  the moment of the notification.\<close>

lemma process_trace_separate:
  "\<lbrakk>dinv d; queue_ok q; q_num q \<noteq> 0; rings_separate foot ram q\<rbrakk> \<Longrightarrow>
     process_trace ops qidx aidx budget d ram q =
       map (\<lambda>k. collect_chain ram (q_desc q)
              (next_head ram (q\<lparr>q_last_avail := q_last_avail q + of_nat k\<rparr>)) (ucast (q_num q)))
         [0..<served budget aidx (q_last_avail q)]"
proof (induction budget arbitrary: d ram q)
  case (Suc b)
  show ?case
  proof (cases "q_last_avail q = aidx")
    case False
    let ?bufs = "collect_chain ram (q_desc q) (next_head ram q) (ucast (q_num q))"
    let ?A = "chain_area foot ?bufs \<union> used_area (q_used q) (ucast (q_num q))"
    let ?q = "q\<lparr>q_last_avail := q_last_avail q + 1\<rparr>"
    obtain d1 ram1 where s: "dinv d1" "changes_only ?A ram ram1"
      "\<And>b p. process_loop ops qidx aidx (Suc b) d ram q p = process_loop ops qidx aidx b d1 ram1 ?q True"
      "\<And>b. process_trace ops qidx aidx (Suc b) d ram q = ?bufs # process_trace ops qidx aidx b d1 ram1 ?q"
      by (rule process_loop_step [OF False Suc.prems(1,2), where ram = ram and qidx = qidx]) (rule that)
    have dis: "?A \<inter> driver_area q = {}"
      using chain_area_separate [OF Suc.prems(4)] Suc.prems(4) unfolding rings_separate_def by blast
    have "rings_separate foot ram1 ?q"
      using rings_separate_stable [OF s(2) dis Suc.prems(4)] by simp
    from Suc.IH [OF s(1) _ _ this] Suc.prems(2,3)
    have "process_trace ops qidx aidx b d1 ram1 ?q =
      map (\<lambda>k. collect_chain ram1 (q_desc q)
              (next_head ram1 (q\<lparr>q_last_avail := q_last_avail q + of_nat (Suc k)\<rparr>)) (ucast (q_num q)))
         [0..<served b aidx (q_last_avail q + 1)]" by (simp add: algebra_simps)
    then show ?thesis
      using Suc.prems(2,3) False queue_stable [OF s(2) dis]
      unfolding s(4) served_Suc [OF False] upt_conv_Cons_map
      by (simp add: queue_ok_def comp_def)
  qed simp
qed simp

end


section \<open>The receive loop ends\<close>

lemma next_rx_capacity_posted:
  "next_rx_capacity ram q = Some cap \<Longrightarrow> q_ready q \<noteq> 0 \<and> q_num q \<noteq> 0 \<and> q_last_avail q \<noteq> avail_idx ram q"
  by (simp add: next_rx_capacity_def split: if_splits)

lemma inject_one_posted:
  assumes "q_ready q \<noteq> 0 \<and> q_num q \<noteq> 0 \<and> q_last_avail q \<noteq> avail_idx ram q"
  obtains ram' where "inject_one ram q data = (True, ram', q\<lparr>q_last_avail := q_last_avail q + 1\<rparr>)"
    "changes_only (writable_area (collect_chain ram (q_desc q) (next_head ram q) (ucast (q_num q)))
       \<union> used_area (q_used q) (ucast (q_num q))) ram ram'"
proof -
  let ?bufs = "filter writable (collect_chain ram (q_desc q) (next_head ram q) (ucast (q_num q)))"
  obtain r1 off where s: "scatter ram ?bufs data = (r1, off)" by fastforce
  have "changes_only (writable_area (collect_chain ram (q_desc q) (next_head ram q) (ucast (q_num q)))) ram r1"
    using scatter_frame [of ?bufs ram data] s by (simp add: writable_area_filter)
  from changes_only_trans [OF this push_used_frame] that assms s
  show thesis by (simp add: inject_one_def Let_def)
qed

text \<open>The number of chains the guest has posted and the device has not consumed.\<close>

definition backlog :: "guest_ram \<Rightarrow> queue \<Rightarrow> nat" where
  "backlog ram q = unat (avail_idx ram q - q_last_avail q)"

lemma inject_one_backlog:
  assumes post: "q_ready q \<noteq> 0 \<and> q_num q \<noteq> 0 \<and> q_last_avail q \<noteq> avail_idx ram q"
    and sep: "rings_separate writable_foot ram q"
  obtains ram' where "inject_one ram q data = (True, ram', q\<lparr>q_last_avail := q_last_avail q + 1\<rparr>)"
    "rings_separate writable_foot ram' (q\<lparr>q_last_avail := q_last_avail q + 1\<rparr>)"
    "backlog ram q = Suc (backlog ram' (q\<lparr>q_last_avail := q_last_avail q + 1\<rparr>))"
proof -
  let ?A = "writable_area (collect_chain ram (q_desc q) (next_head ram q) (ucast (q_num q)))
       \<union> used_area (q_used q) (ucast (q_num q))"
  obtain ram' where i: "inject_one ram q data = (True, ram', q\<lparr>q_last_avail := q_last_avail q + 1\<rparr>)"
    "changes_only ?A ram ram'"
    using inject_one_posted [OF post] by blast
  have dis: "?A \<inter> driver_area q = {}"
    using chain_area_separate [OF sep] sep unfolding rings_separate_def by blast
  show thesis
  proof (rule that [OF i(1)])
    show "rings_separate writable_foot ram' (q\<lparr>q_last_avail := q_last_avail q + 1\<rparr>)"
      using rings_separate_stable [OF i(2) dis sep] by simp
    show "backlog ram q = Suc (backlog ram' (q\<lparr>q_last_avail := q_last_avail q + 1\<rparr>))"
      using post queue_stable(1) [OF i(2) dis] word_distance_Suc [of "q_last_avail q" "avail_idx ram q"]
      by (simp add: avail_idx_def backlog_def)
  qed
qed

lemma pump_loop_bounded:
  assumes "rxq < length (queues m)" "rings_separate writable_foot ram (queues m ! rxq)"
  shows "\<exists>m' ram' any' k. pump_loop ops rxq m ram any = Some (m', ram', any') \<and>
    k \<le> backlog ram (queues m ! rxq) \<and> any' = (any \<or> 0 < k) \<and> interrupt_status m' = interrupt_status m \<and>
    queues m' = (queues m)[rxq := (queues m ! rxq)\<lparr>q_last_avail := q_last_avail (queues m ! rxq) + of_nat k\<rparr>]"
  using assms
proof (induction "backlog ram (queues m ! rxq)" arbitrary: m ram any rule: less_induct)
  case less
  let ?q = "queues m ! rxq"
  consider "next_rx_capacity ram ?q = None"
    | cap d' where "next_rx_capacity ram ?q = Some cap" "op_poll_rx ops (dev m) cap = (d', None)"
    | cap d' data where "next_rx_capacity ram ?q = Some cap" "op_poll_rx ops (dev m) cap = (d', Some data)"
    by (metis option.exhaust prod.exhaust)
  then show ?case
  proof cases
    case 1
    then show ?thesis by (subst pump_loop.simps) (simp add: less.prems exI [of _ 0])
  next
    case (2 cap d')
    then show ?thesis by (subst pump_loop.simps) (simp add: less.prems exI [of _ 0])
  next
    case (3 cap d' data)
    let ?q' = "?q\<lparr>q_last_avail := q_last_avail ?q + 1\<rparr>"
    obtain ram' where i: "inject_one ram ?q data = (True, ram', ?q')" "rings_separate writable_foot ram' ?q'"
      "backlog ram ?q = Suc (backlog ram' ?q')"
      by (rule inject_one_backlog [OF next_rx_capacity_posted [OF 3(1)] less.prems(2)]) (rule that)
    let ?m = "m\<lparr>dev := d', queues := (queues m)[rxq := ?q']\<rparr>"
    have "backlog ram' (queues ?m ! rxq) < backlog ram ?q" using i(3) less.prems(1) by simp
    from less.hyps [OF this, of True] i(2) less.prems(1) obtain m' ram'' any' k where
      "pump_loop ops rxq ?m ram' True = Some (m', ram'', any')" "k \<le> backlog ram' ?q'" "any'"
      "interrupt_status m' = interrupt_status m"
      "queues m' = (queues m)[rxq := ?q\<lparr>q_last_avail := q_last_avail ?q + 1 + of_nat k\<rparr>]"
      by auto
    with 3 i less.prems(1) show ?thesis
      by (intro exI [of _ m'] exI [of _ ram''] exI [of _ True] exI [of _ "Suc k"])
        (subst pump_loop.simps, simp add: algebra_simps)
  qed
qed


section \<open>Snapshot round trip\<close>

lemma queue_of_words_words: "queue_ok q \<Longrightarrow> queue_of_words (queue_words q) = q"
  by (cases q) (simp add: queue_of_words_def queue_words_def queue_ok_def min_def)

lemma restore_queues_map:
  "\<lbrakk>length qs = length qs'; \<forall>q\<in>set qs. queue_ok q\<rbrakk> \<Longrightarrow> restore_queues qs' (map queue_words qs) = qs"
  by (induction qs qs' rule: list_induct2) (simp_all add: queue_of_words_words)

lemma restore_capture:
  assumes "mmio_ok ops m" "mmio_ok ops t"
  shows "restore (capture m) t =
    t\<lparr>status := status m, interrupt_status := interrupt_status m, queues := queues m\<rparr>"
  using assms by (simp add: restore_def capture_def mmio_ok_def queues_ok_def restore_queues_map)

interpretation virtio_snap: snapshot_part capture restore "mmio_ok ops" for ops :: "'d virtio_ops"
  by unfold_locales (simp_all add: restore_capture, simp_all add: capture_def mmio_ok_def)


section \<open>The transport as a state machine\<close>

text \<open>Everything that can happen to a virtio device between its construction and the end of the
  VM: the guest writes a register or stores to RAM, the run loop pumps the receive queue or
  drains the throttle, a snapshot is restored.\<close>

inductive mmio_step :: "'d virtio_ops \<Rightarrow> 'd virtio_mmio \<times> guest_ram \<Rightarrow> 'd virtio_mmio \<times> guest_ram \<Rightarrow> bool"
  for ops where
  reg_write: "mmio_step ops (m, ram) (mmio_write ops m ram off v)"
| rx: "pump_rx ops m ram = Some (b, m', ram') \<Longrightarrow> mmio_step ops (m, ram) (m', ram')"
| drain: "take_throttle ops m = (m', t) \<Longrightarrow> mmio_step ops (m, ram) (m', ram)"
| restored: "mmio_step ops (m, ram) (restore s m, ram)"
| attached: "mmio_step ops (m, ram) (attach m, ram)"
| guest_store: "changes_only UNIV ram ram' \<Longrightarrow> mmio_step ops (m, ram) (m, ram')"

context virtio_device
begin

lemma mmio_step_inv:
  assumes "mmio_step ops (m, ram) (m', ram')" "mmio_ok ops m" "dinv (dev m)"
  shows "mmio_ok ops m' \<and> dinv (dev m') \<and> changes_only UNIV ram ram'"
  using assms(1)
proof cases
  case (reg_write off v)
  then show ?thesis using mmio_write_inv [OF assms(2,3), of ram off v] by (metis fst_conv snd_conv)
next
  case (rx b)
  then show ?thesis using pump_rx_inv [OF _ assms(2,3)] by blast
next
  case (drain t)
  then show ?thesis
    using assms(2,3) throttle_inv [OF assms(3)]
    by (auto simp: take_throttle_def mmio_ok_def split: prod.splits)
qed (use assms(2,3) in \<open>simp_all add: mmio_ok_restore attach_def, simp_all add: mmio_ok_def restore_def\<close>)

lemma mmio_reachable_inv:
  assumes "(mmio_step ops)\<^sup>*\<^sup>* (virtio_new ops d, ram) s" "dinv d"
  shows "mmio_ok ops (fst s) \<and> dinv (dev (fst s)) \<and> changes_only UNIV ram (snd s)"
  using assms(1)
proof (induction rule: rtranclp_induct)
  case base
  then show ?case using assms(2) by (simp add: mmio_ok_new)
next
  case (step s t)
  then show ?case
    using mmio_step_inv [of "fst s" "snd s" "fst t" "snd t"] by (auto intro: changes_only_step)
qed

end

end
