(* ===== verification/Demo_Ring.thy ===== *)
theory Demo_Ring
  imports Virtio_Mmio
begin

text \<open>
  A concrete virtqueue on which the properties of the transport and of the devices are
  exercised: a RAM region of 112 bytes at \<open>RAM_BASE\<close> with a two-entry descriptor table, one
  available chain holding one device-writable buffer of eight bytes, and an empty used ring.
\<close>

definition demo_mem :: bytes where
  "demo_mem = [0x60, 0, 0, 0x40, 0, 0, 0, 0, 8, 0, 0, 0, 2, 0, 0, 0,
               0, 0, 0, 0, 0, 0, 0, 0, 0, 0, 0, 0, 0, 0, 0, 0,
               0, 0, 1, 0, 0, 0, 0, 0, 0, 0, 0, 0, 0, 0, 0, 0,
               0, 0, 0, 0, 0, 0, 0, 0, 0, 0, 0, 0, 0, 0, 0, 0,
               0, 0, 0, 0, 0, 0, 0, 0, 0, 0, 0, 0, 0, 0, 0, 0,
               0, 0, 0, 0, 0, 0, 0, 0, 0, 0, 0, 0, 0, 0, 0, 0,
               0, 0, 0, 0, 0, 0, 0, 0, 0, 0, 0, 0, 0, 0, 0, 0]"

definition demo_ram :: guest_ram where
  "demo_ram = \<lparr>base = 0x40000000, mem = demo_mem\<rparr>"

definition demo_queue :: queue where
  "demo_queue = \<lparr>q_num = 2, q_ready = 1, q_desc = 0x40000000, q_avail = 0x40000020,
     q_used = 0x40000030, q_last_avail = 0\<rparr>"

definition demo_mmio :: "'d \<Rightarrow> nat \<Rightarrow> 'd virtio_mmio" where
  "demo_mmio d n =
     \<lparr>dev = d, attached = True, device_features_sel = 0, status = 15, queue_sel = 0,
      queues = replicate n demo_queue, interrupt_status = 0, pending_rx = None\<rparr>"

lemma length_demo_mem [simp]: "length demo_mem = 112"
  by (simp add: demo_mem_def)

lemma demo_ram_sel [simp]: "base demo_ram = 0x40000000" "mem demo_ram = demo_mem"
  by (simp_all add: demo_ram_def)

lemma demo_queue_sel [simp]:
  "q_num demo_queue = 2" "q_ready demo_queue = 1" "q_desc demo_queue = 0x40000000"
  "q_avail demo_queue = 0x40000020" "q_used demo_queue = 0x40000030" "q_last_avail demo_queue = 0"
  by (simp_all add: demo_queue_def)

lemma demo_mmio_sel [simp]:
  "dev (demo_mmio d n) = d" "attached (demo_mmio d n)" "queues (demo_mmio d n) = replicate n demo_queue"
  "pending_rx (demo_mmio d n) = None" "interrupt_status (demo_mmio d n) = 0"
  by (simp_all add: demo_mmio_def)

lemma demo_reads [simp]:
  "read_u64 demo_ram 0x40000000 = 0x40000060" "read_u32 demo_ram 0x40000008 = 8"
  "read_u16 demo_ram 0x4000000c = 2" "read_u16 demo_ram 0x4000000e = 0"
  "read_u64 demo_ram 0x40000010 = 0" "read_u32 demo_ram 0x40000018 = 0"
  "read_u16 demo_ram 0x4000001c = 0" "read_u16 demo_ram 0x4000001e = 0"
  "read_u16 demo_ram 0x40000022 = 1" "read_u16 demo_ram 0x40000024 = 0"
  "read_u16 demo_ram 0x40000032 = 0"
  by (simp add: ram_eval, simp add: demo_mem_def bslice_def)+

lemma demo_ranges [simp]:
  "in_range demo_ram 0x40000060 8" "in_range demo_ram 0x40000030 20" "\<not> in_range demo_ram 0 0"
  by (simp_all add: in_range_def offset_def checked_sub_def)

lemma demo_ram_ok [simp]: "ram_ok demo_ram"
  by (simp add: ram_ok_def)

lemma demo_queue_ok [simp]: "queue_ok demo_queue"
  by (simp add: queue_ok_def QUEUE_MAX_def)

lemma demo_mmio_ok: "1 \<le> n \<Longrightarrow> op_num_queues ops = n \<Longrightarrow> mmio_ok ops (demo_mmio d n)"
  by (auto simp: mmio_ok_def queues_ok_def)

lemma demo_avail [simp]: "avail_idx demo_ram demo_queue = 1" "next_head demo_ram demo_queue = 0"
  by (simp_all add: avail_idx_def next_head_def)

lemma demo_descs [simp]:
  "desc_buf demo_ram 0x40000000 0 = \<lparr>addr = 0x40000060, len = 8, writable = True\<rparr>"
  "desc_buf demo_ram 0x40000000 1 = \<lparr>addr = 0, len = 0, writable = False\<rparr>"
  "desc_next demo_ram 0x40000000 0 = None"
  by (simp_all add: desc_buf_def desc_next_def Let_def VIRTQ_DESC_F_WRITE_def VIRTQ_DESC_F_NEXT_def
      MAX_DESC_LEN_def)

lemma demo_chain [simp]:
  "collect_chain demo_ram 0x40000000 0 2 = [\<lparr>addr = 0x40000060, len = 8, writable = True\<rparr>]"
proof -
  have "unat (2 :: u16) = Suc (Suc 0)" by simp
  then show ?thesis unfolding collect_chain_def by (simp only: collect_from_Suc) simp
qed

lemma u16_less_2: "{i :: u16. i < 2} = {0, 1}"
  by (auto simp: word_less_nat_alt word_unat_eq_iff)

lemma demo_areas:
  "used_area 0x40000030 2 \<subseteq> {0x40000030..<0x40000044}"
  "driver_area demo_queue \<subseteq> {0x40000000..<0x40000028}"
  unfolding used_area_def driver_area_def desc_area_def
  by (simp_all add: u16_less_2 gpa_range_def)

lemma demo_separate: "rings_separate writable_foot demo_ram demo_queue"
proof -
  have "buf_area (desc_buf demo_ram 0x40000000 0) = {0x40000060..<0x40000068}"
    by (simp add: buf_area_def gpa_range_def)
  moreover have "i = 0 \<or> i = 1" if "i < 2" for i :: u16 using that u16_less_2 by auto
  ultimately show ?thesis
    using demo_areas by (fastforce simp: rings_separate_def writable_foot_def)
qed

end
