(* ===== verification/Rng_Balloon.thy ===== *)
theory Rng_Balloon
  imports Virtio_Mmio
begin

text \<open>
  The two small devices of \<open>amber-core/src/virtio.rs\<close>: virtio-entropy, whose source
  \<open>/dev/urandom\<close> is a stream of bytes with reads that may fail, and virtio-balloon, whose
  \<open>madvise\<close> lets the host drop pages: a dropped byte reads as zero afterwards, a kept one is
  unchanged, and which is which is the host's choice (the argument \<open>drops\<close>).
\<close>

section \<open>Entropy\<close>

record rng_device =
  rng_pos :: nat
  rng_calls :: nat

definition rng_read_exact ::
  "(nat \<Rightarrow> u8) \<Rightarrow> (nat \<Rightarrow> bool) \<Rightarrow> rng_device \<Rightarrow> nat \<Rightarrow> rng_device \<times> bytes option" where
  "rng_read_exact entropy fails d n =
     (if fails (rng_calls d) then (d\<lparr>rng_calls := Suc (rng_calls d)\<rparr>, None)
      else (d\<lparr>rng_pos := rng_pos d + n, rng_calls := Suc (rng_calls d)\<rparr>,
            Some (map entropy [rng_pos d..<rng_pos d + n])))"

fun rng_fill ::
  "(nat \<Rightarrow> u8) \<Rightarrow> (nat \<Rightarrow> bool) \<Rightarrow> rng_device \<Rightarrow> guest_ram \<Rightarrow> buf list \<Rightarrow> u32 \<Rightarrow> rng_device \<times> guest_ram \<times> u32" where
  "rng_fill entropy fails d ram [] written = (d, ram, written)"
| "rng_fill entropy fails d ram (b # bs) written =
     (case rng_read_exact entropy fails d (unat (len b)) of
        (d', None) \<Rightarrow> rng_fill entropy fails d' ram bs written
      | (d', Some data) \<Rightarrow> rng_fill entropy fails d' (ram_put ram (addr b) data) bs (written + len b))"

definition rng_handle ::
  "(nat \<Rightarrow> u8) \<Rightarrow> (nat \<Rightarrow> bool) \<Rightarrow> rng_device \<Rightarrow> nat \<Rightarrow> guest_ram \<Rightarrow> buf list \<Rightarrow> rng_device \<times> guest_ram \<times> u32" where
  "rng_handle entropy fails d queue ram bufs = rng_fill entropy fails d ram (filter writable bufs) 0"

definition rng_ops :: "(nat \<Rightarrow> u8) \<Rightarrow> (nat \<Rightarrow> bool) \<Rightarrow> rng_device virtio_ops" where
  "rng_ops entropy fails = virtio_default_ops 4 (rng_handle entropy fails)"

lemma rng_fill_frame:
  "changes_only (\<Union>b\<in>set bs. buf_area b) ram (fst (snd (rng_fill entropy fails d ram bs w)))"
proof (induction entropy fails d ram bs w rule: rng_fill.induct)
  case (2 entropy fails d ram b bs w)
  obtain d' r where r: "rng_read_exact entropy fails d (unat (len b)) = (d', r)" by fastforce
  show ?case
  proof (cases r)
    case None
    then have "changes_only (\<Union>b\<in>set bs. buf_area b) ram (fst (snd (rng_fill entropy fails d' ram bs w)))"
      using 2(1) r by simp
    then show ?thesis using r None by (auto elim: changes_only_mono)
  next
    case (Some data)
    then have l: "length data = unat (len b)" using r by (auto simp: rng_read_exact_def split: if_splits)
    let ?r = "ram_put ram (addr b) data"
    have "changes_only (buf_area b) ram ?r" by (rule changes_only_put) (simp add: buf_area_def l)
    moreover have "changes_only (\<Union>b\<in>set bs. buf_area b) ?r
        (fst (snd (rng_fill entropy fails d' ?r bs (w + len b))))" using 2(2) r Some by simp
    ultimately show ?thesis using r Some by (auto dest: changes_only_trans)
  qed
qed simp

lemma rng_handle_confined:
  "changes_only (writable_area bufs) ram (fst (snd (rng_handle entropy fails d queue ram bufs)))"
  unfolding rng_handle_def writable_area_filter by (rule rng_fill_frame)

lemma rng_ops_simps [simp]:
  "op_handle (rng_ops e f) = rng_handle e f" "op_ack_config (rng_ops e f) = (\<lambda>d. d)"
  "op_poll_rx (rng_ops e f) = (\<lambda>d _. (d, None))" "op_take_throttle (rng_ops e f) = (\<lambda>d. (d, None))"
  "op_num_queues (rng_ops e f) = 1" "op_rx_queue (rng_ops e f) = None" "op_event_queue (rng_ops e f) = None"
  by (simp_all add: rng_ops_def virtio_default_ops_def)

interpretation rng: confined_device "rng_ops entropy fails" "\<lambda>_. True" writable_foot for entropy fails
proof unfold_locales
  show "changes_only UNIV ram (fst (snd (op_handle (rng_ops entropy fails) d qidx ram bufs)))"
    for ram d qidx bufs
    unfolding rng_ops_simps by (rule changes_only_mono [OF rng_handle_confined]) simp
qed (simp_all add: rng_handle_confined)


section \<open>Balloon\<close>

record balloon_device =
  target_pages :: u64
  config_dirty :: bool

definition F_REPORTING :: u32 where "F_REPORTING = push_bit 5 1"
definition INFLATE_VQ :: nat where "INFLATE_VQ = 0"
definition REPORTING_VQ :: nat where "REPORTING_VQ = 2"
definition BALLOON_PAGE :: u64 where "BALLOON_PAGE = 4096"

definition host_madvise :: "(nat \<Rightarrow> bool) \<Rightarrow> guest_ram \<Rightarrow> nat \<Rightarrow> nat \<Rightarrow> guest_ram" where
  "host_madvise drops ram off n =
     ram\<lparr>mem := map (\<lambda>i. if off \<le> i \<and> i < off + n \<and> drops i then 0 else mem ram ! i)
                   [0..<length (mem ram)]\<rparr>"

definition madvise :: "(nat \<Rightarrow> bool) \<Rightarrow> guest_ram \<Rightarrow> u64 \<Rightarrow> nat \<Rightarrow> guest_ram" where
  "madvise drops ram gpa n =
     (case host_ptr_at ram gpa n of None \<Rightarrow> ram | Some p \<Rightarrow> host_madvise drops ram p n)"

text \<open>The inner loop over the page-frame numbers of one buffer, then the loop over buffers.\<close>

fun inflate_pfns :: "(nat \<Rightarrow> bool) \<Rightarrow> guest_ram \<Rightarrow> u64 \<Rightarrow> nat list \<Rightarrow> guest_ram" where
  "inflate_pfns drops ram a [] = ram"
| "inflate_pfns drops ram a (i # is) =
     (let pfn = ucast (read_u32 ram (a + 4 * of_nat i)) :: u64
      in inflate_pfns drops (madvise drops ram (pfn * BALLOON_PAGE) (unat BALLOON_PAGE)) a is)"

definition inflate :: "(nat \<Rightarrow> bool) \<Rightarrow> guest_ram \<Rightarrow> buf \<Rightarrow> guest_ram" where
  "inflate drops ram b = inflate_pfns drops ram (addr b) [0..<unat (len b) div 4]"

definition balloon_handle ::
  "(nat \<Rightarrow> bool) \<Rightarrow> balloon_device \<Rightarrow> nat \<Rightarrow> guest_ram \<Rightarrow> buf list \<Rightarrow> balloon_device \<times> guest_ram \<times> u32" where
  "balloon_handle drops d queue ram bufs =
     (if queue = INFLATE_VQ then (d, foldl (inflate drops) ram bufs, 0)
      else if queue = REPORTING_VQ
      then (d, foldl (\<lambda>r b. madvise drops r (addr b) (unat (len b))) ram bufs, 0)
      else (d, ram, 0))"

definition balloon_ops :: "(nat \<Rightarrow> bool) \<Rightarrow> balloon_device virtio_ops" where
  "balloon_ops drops = (virtio_default_ops 5 (balloon_handle drops))
     \<lparr>op_device_features := (\<lambda>d sel. if sel = 0 then F_REPORTING else 0),
      op_num_queues := 3,
      op_config := (\<lambda>d off. if off = 0 then ucast (target_pages d) else 0),
      op_config_changed := config_dirty,
      op_ack_config := (\<lambda>d. d\<lparr>config_dirty := False\<rparr>)\<rparr>"

lemma host_madvise_frame:
  "changes_only {unat (base ram) + off ..< unat (base ram) + off + n} ram (host_madvise drops ram off n)"
  by (auto simp: changes_only_def host_madvise_def ram_map_def)

lemma madvise_frame: "changes_only (gpa_range gpa n) ram (madvise drops ram gpa n)"
proof (cases "host_ptr_at ram gpa n")
  case (Some p)
  then have p: "unat (base ram) + p = unat gpa"
    by (auto simp: host_ptr_at_def offset_Some_iff)
  show ?thesis
    using host_madvise_frame [of ram p n drops] Some by (simp add: madvise_def gpa_range_def p)
qed (simp add: madvise_def)

lemma inflate_shape: "changes_only UNIV ram (inflate_pfns drops ram a is)"
proof (induction drops ram a "is" rule: inflate_pfns.induct)
  case (2 drops ram a i "is")
  have "changes_only UNIV ram (madvise drops ram p n)" for p n
    by (rule changes_only_mono [OF madvise_frame]) simp
  with 2 show ?case by (auto simp: Let_def intro: changes_only_step)
qed simp

lemma changes_only_foldl:
  assumes "\<And>r b. b \<in> set bs \<Longrightarrow> changes_only A r (f r b)"
  shows "changes_only A r (foldl f r bs)"
  using assms by (induction bs arbitrary: r) (auto intro: changes_only_step)

lemma balloon_reporting_frame:
  "changes_only (\<Union>b\<in>set bufs. buf_area b) ram
     (foldl (\<lambda>r b. madvise drops r (addr b) (unat (len b))) ram bufs)"
  by (rule changes_only_foldl) (auto simp: buf_area_def intro: changes_only_mono [OF madvise_frame])

lemma balloon_handle_shape: "changes_only UNIV ram (fst (snd (balloon_handle drops d queue ram bufs)))"
proof -
  have "changes_only UNIV ram (foldl (inflate drops) ram bufs)"
    by (rule changes_only_foldl) (simp add: inflate_def inflate_shape)
  moreover have "changes_only UNIV ram (foldl (\<lambda>r b. madvise drops r (addr b) (unat (len b))) ram bufs)"
    by (rule changes_only_mono [OF balloon_reporting_frame]) simp
  ultimately show ?thesis by (simp add: balloon_handle_def)
qed

lemma balloon_ops_simps [simp]:
  "op_handle (balloon_ops drops) = balloon_handle drops"
  "op_poll_rx (balloon_ops drops) = (\<lambda>d _. (d, None))"
  "op_take_throttle (balloon_ops drops) = (\<lambda>d. (d, None))"
  "op_num_queues (balloon_ops drops) = 3"
  "op_ack_config (balloon_ops drops) = (\<lambda>d. d\<lparr>config_dirty := False\<rparr>)"
  "op_config_changed (balloon_ops drops) = config_dirty"
  "op_rx_queue (balloon_ops drops) = None" "op_event_queue (balloon_ops drops) = None"
  by (simp_all add: balloon_ops_def virtio_default_ops_def)

interpretation balloon: virtio_device "balloon_ops drops" "\<lambda>_. True" for drops
  by unfold_locales (simp_all add: balloon_handle_shape)

end
