(* ===== verification/Virtio_Props.thy ===== *)
theory Virtio_Props
  imports Demo_Ring Rng_Balloon
begin

text \<open>
  The properties of guest RAM and of the virtio-mmio transport, each with a witness on the
  concrete ring of \<open>Demo_Ring\<close>.
\<close>

section \<open>Guest RAM\<close>

text \<open>Guest RAM is a partial map from guest-physical addresses to bytes: a write that lies
  inside the region updates exactly its own addresses, a write that does not is refused and
  changes nothing, and a read that lies inside returns the mapped bytes.\<close>

theorem guest_ram_refines_map:
  "(fst (ram_write ram a bs) \<longleftrightarrow> in_range ram a (length bs)) \<and>
   ram_map (snd (ram_write ram a bs)) =
     (\<lambda>i. if in_range ram a (length bs) \<and> i \<in> gpa_range a (length bs) then Some (bs ! (i - unat a))
          else ram_map ram i) \<and>
   map Some (snd (ram_read ram b (replicate n 0))) =
     (if in_range ram b n then map (ram_map ram) [unat b..<unat b + n] else replicate n (Some 0))"
proof (intro conjI)
  show "fst (ram_write ram a bs) \<longleftrightarrow> in_range ram a (length bs)" by simp
  show "ram_map (snd (ram_write ram a bs)) =
     (\<lambda>i. if in_range ram a (length bs) \<and> i \<in> gpa_range a (length bs) then Some (bs ! (i - unat a))
          else ram_map ram i)"
    by (rule ext, cases "in_range ram a (length bs)") (simp_all add: ram.wr_view ram.wr_rejected)
  show "map Some (snd (ram_read ram b (replicate n 0))) =
     (if in_range ram b n then map (ram_map ram) [unat b..<unat b + n] else replicate n (Some 0))"
  proof (cases "in_range ram b n")
    case True
    show ?thesis
      by (rule nth_equalityI) (use True in \<open>simp_all add: ram.rd_view [OF True]\<close>)
  next
    case False
    then show ?thesis by (simp add: ram.rd_rejected)
  qed
qed


section \<open>Descriptor chains\<close>

text \<open>Whatever the guest put in the descriptor table, the walk visits only table indices below
  the queue size, at most one queue's worth of descriptors even when the links form a cycle, and
  returns exactly the buffers of the descriptors visited; every buffer is at most 16 MiB long and
  lies in guest RAM or is empty.\<close>

theorem collect_chain_sound:
  "\<exists>is. desc_chain ram desc qsz (unat qsz) head is \<and>
        collect_chain ram desc head qsz = map (desc_buf ram desc) is \<and>
        length is \<le> unat qsz \<and> set is \<subseteq> {i. i < qsz} \<and>
        list_all (buf_ok ram) (collect_chain ram desc head qsz)"
proof -
  obtain "is" where c: "desc_chain ram desc qsz (unat qsz) head is"
    "collect_chain ram desc head qsz = map (desc_buf ram desc) is"
    using collect_from_chain unfolding collect_chain_def by blast
  with desc_chain_bounds [OF c(1)] show ?thesis
    by (intro exI [of _ "is"]) (auto simp: list_all_iff desc_buf_ok)
qed


section \<open>Delivering a payload\<close>

text \<open>C27. A payload that fits the posted receive buffer is delivered whole: the bytes of the chain's
  device-writable buffers, read in order, start with the payload, the used ring element at the
  old used index names the chain's head and the payload's length, the used index moved on by one
  and the queue consumed one entry.\<close>

theorem inject_one_delivers:
  fixes q :: queue
  defines "qsz \<equiv> ucast (q_num q) :: u16"
  defines "bufs ram \<equiv> filter writable (collect_chain ram (q_desc q) (next_head ram q) (ucast (q_num q)))"
  defines "elem ram \<equiv> q_used q + (4 + 8 * ucast (read_u16 ram (q_used q + 2) mod (ucast (q_num q) :: u16)))"
  assumes ram: "ram_ok ram" and q: "queue_ok q" and cap: "next_rx_capacity ram q = Some cap"
    and fits: "length data \<le> cap" "length data < 2 ^ 32"
    and used: "in_range ram (q_used q) (4 + 8 * unat qsz)"
    and sep: "bufs_disjoint (bufs ram)"
      "(\<Union>b \<in> set (bufs ram). buf_area b) \<inter> used_area (q_used q) qsz = {}"
      "(\<Union>b \<in> set (bufs ram). buf_area b) \<inter> gpa_range (q_used q + 2) 2 = {}"
  shows "\<exists>ram'. inject_one ram q data = (True, ram', q\<lparr>q_last_avail := q_last_avail q + 1\<rparr>) \<and>
     take (length data) (gather ram' (bufs ram)) = data \<and>
     read_u32 ram' (elem ram) = ucast (next_head ram q) \<and>
     read_u32 ram' (elem ram + 4) = of_nat (length data) \<and>
     read_u16 ram' (q_used q + 2) = read_u16 ram (q_used q + 2) + 1"
proof -
  note posted = next_rx_capacity_posted [OF cap]
  have qsz: "qsz \<noteq> 0" using q posted unfolding qsz_def queue_ok_def by (intro qsz_nonzero(2)) simp_all
  define r1 where "r1 = fst (scatter ram (bufs ram) data)"
  have capacity: "cap = bufs_capacity (bufs ram)"
    using cap posted by (simp add: next_rx_capacity_def bufs_capacity_def bufs_def)
  have off: "snd (scatter ram (bufs ram) data) = length data"
    using fits(1) by (simp add: scatter_count capacity)
  have fr: "changes_only (\<Union>b \<in> set (bufs ram). buf_area b) ram r1"
    unfolding r1_def by (rule scatter_frame)
  have idx: "read_u16 r1 (q_used q + 2) = read_u16 ram (q_used q + 2)"
    by (rule read_u16_cong, rule changes_only_bytes [OF fr sep(3)])
  let ?r2 = "push_used r1 (q_used q) (ucast (next_head ram q)) (of_nat (length data)) qsz"
  have inj: "inject_one ram q data = (True, ?r2, q\<lparr>q_last_avail := q_last_avail q + 1\<rparr>)"
    using posted off unfolding inject_one_def Let_def bufs_def [symmetric] qsz_def r1_def
    by (simp add: split_beta)
  have rok: "ram_ok r1" "in_range r1 (q_used q) (4 + 8 * unat qsz)"
    using ram used changes_only_ram_ok [OF fr] changes_only_in_range [OF fr] by simp_all
  note pub = push_used_publishes [OF rok qsz, of "ucast (next_head ram q)" "of_nat (length data)",
      unfolded idx, folded qsz_def]
  have ok: "\<And>b. b \<in> set (bufs ram) \<Longrightarrow> buf_ok ram b" by (auto simp: bufs_def intro: collect_chain_ok)
  have "gather ?r2 (bufs ram) = gather r1 (bufs ram)"
    by (rule gather_cong [OF push_used_frame]) (use sep(2) in auto)
  then have "take (length data) (gather ?r2 (bufs ram)) = data"
    using scatter_gather [OF ok sep(1), of data] off unfolding r1_def by simp
  with inj pub show ?thesis unfolding elem_def qsz_def [symmetric] by blast
qed

theorem inject_one_delivers_witness:
  "\<exists>ram'. inject_one demo_ram demo_queue [1, 2, 3] = (True, ram', demo_queue\<lparr>q_last_avail := 1\<rparr>) \<and>
     take 3 (gather ram' [\<lparr>addr = 0x40000060, len = 8, writable = True\<rparr>]) = [1, 2, 3]"
proof -
  have cap: "next_rx_capacity demo_ram demo_queue = Some 8" by (simp add: next_rx_capacity_def)
  have area: "buf_area \<lparr>addr = 0x40000060, len = 8, writable = True\<rparr> = {0x40000060..<0x40000068}"
    by (simp add: buf_area_def gpa_range_def)
  have apart: "{0x40000060..<0x40000068} \<inter> used_area 0x40000030 2 = {}" using demo_areas(1) by fastforce
  have sep: "bufs_disjoint (filter writable (collect_chain demo_ram (q_desc demo_queue)
        (next_head demo_ram demo_queue) (ucast (q_num demo_queue))))"
    "(\<Union>b \<in> set (filter writable (collect_chain demo_ram (q_desc demo_queue)
        (next_head demo_ram demo_queue) (ucast (q_num demo_queue)))). buf_area b)
      \<inter> used_area (q_used demo_queue) (ucast (q_num demo_queue)) = {}"
    "(\<Union>b \<in> set (filter writable (collect_chain demo_ram (q_desc demo_queue)
        (next_head demo_ram demo_queue) (ucast (q_num demo_queue)))). buf_area b)
      \<inter> gpa_range (q_used demo_queue + 2) 2 = {}"
    using apart by (simp_all add: bufs_disjoint_def area gpa_range_def)
  have "in_range demo_ram (q_used demo_queue) (4 + 8 * unat (ucast (q_num demo_queue) :: u16))" by simp
  from inject_one_delivers [OF demo_ram_ok demo_queue_ok cap _ _ this sep, of "[1, 2, 3]"]
  show ?thesis by (auto simp: numeral_3_eq_3)
qed


section \<open>Serving notifications\<close>

text \<open>A notification on a ready request queue serves every chain the guest made available, at
  most one ring's worth: the consumed index advances by exactly that number, the interrupt bit is
  raised exactly when something was served, and no other queue is touched.\<close>

theorem process_consumes:
  assumes "attached m" "op_rx_queue ops \<noteq> Some i" "op_event_queue ops \<noteq> Some i"
    and "i < length (queues m)" "q_ready (queues m ! i) \<noteq> 0" "q_num (queues m ! i) \<noteq> 0"
    and "queue_ok (queues m ! i)"
  shows "let q = queues m ! i; n = min (unat (q_num q)) (unat (avail_idx ram q - q_last_avail q));
             m' = fst (process ops m ram i)
         in queues m' = (queues m)[i := q\<lparr>q_last_avail := q_last_avail q + of_nat n\<rparr>] \<and>
            interrupt_status m' = (if n = 0 then interrupt_status m else interrupt_status m OR 1)"
proof -
  let ?q = "queues m ! i"
  have u: "unat (ucast (q_num ?q) :: u16) = unat (q_num ?q)"
    using assms(6,7) by (intro qsz_nonzero(1)) (simp_all add: queue_ok_def)
  obtain d' ram' q' p' where l: "process_loop ops i (avail_idx ram ?q)
      (unat (q_num ?q)) (dev m) ram ?q False = (d', ram', q', p')"
    by (metis prod_cases4)
  from process_loop_queue [OF l] assms(1-6) l show ?thesis
    by (simp add: process_def Let_def u served_def min_def)
qed

theorem process_consumes_witness:
  "queues (fst (process (rng_ops (\<lambda>_. 7) (\<lambda>_. False)) (demo_mmio \<lparr>rng_pos = 0, rng_calls = 0\<rparr> 1) demo_ram 0))
     = [demo_queue\<lparr>q_last_avail := 1\<rparr>]"
  using process_consumes [of "demo_mmio \<lparr>rng_pos = 0, rng_calls = 0\<rparr> 1" "rng_ops (\<lambda>_. 7) (\<lambda>_. False)" 0 demo_ram]
  by (simp add: Let_def)

text \<open>C28. Serving a notification writes guest memory only inside the used ring and inside the
  footprint of the chains that were handed to the device, for every device that keeps to its
  chain.\<close>

theorem process_confined:
  assumes dev: "confined_device ops dinv foot" and "mmio_ok ops m" "dinv (dev m)" and "i < length (queues m)"
  shows "let q = queues m ! i in
    changes_only (used_area (q_used q) (ucast (q_num q)) \<union>
      (\<Union>bufs \<in> set (process_trace ops i (avail_idx ram q) (unat (ucast (q_num q) :: u16)) (dev m) ram q).
         chain_area foot bufs)) ram (snd (process ops m ram i))"
proof -
  let ?q = "queues m ! i"
  obtain d' ram' q' p' where l: "process_loop ops i (avail_idx ram ?q)
      (unat (ucast (q_num ?q) :: u16)) (dev m) ram ?q False = (d', ram', q', p')"
    by (metis prod_cases4)
  have "queue_ok ?q" using assms(2,4) by (simp add: mmio_ok_def queues_ok_nth)
  from confined_device.process_loop_confined [OF dev l assms(3) this] show ?thesis
    by (simp add: process_def Let_def l)
qed

theorem process_confined_witness:
  "changes_only (used_area 0x40000030 2 \<union> {0x40000060..<0x40000068}) demo_ram
     (snd (process (rng_ops (\<lambda>_. 7) (\<lambda>_. False)) (demo_mmio \<lparr>rng_pos = 0, rng_calls = 0\<rparr> 1) demo_ram 0))"
proof -
  let ?ops = "rng_ops (\<lambda>_. 7) (\<lambda>_. False)" and ?d = "\<lparr>rng_pos = 0, rng_calls = 0\<rparr>"
  have "length (process_trace ?ops 0 1 (Suc (Suc 0)) ?d demo_ram demo_queue) = 1"
    by (simp add: process_trace_length served_def)
  then have t: "process_trace ?ops 0 1 (Suc (Suc 0)) ?d demo_ram demo_queue =
      [[\<lparr>addr = 0x40000060, len = 8, writable = True\<rparr>]]"
    by (simp add: Let_def length_Suc_conv split: prod.splits)
  have "chain_area writable_foot [\<lparr>addr = 0x40000060, len = 8, writable = True\<rparr>] = {0x40000060..<0x40000068}"
    by (simp add: chain_area_def writable_foot_def buf_area_def gpa_range_def)
  moreover have "mmio_ok ?ops (demo_mmio ?d 1)" by (rule demo_mmio_ok) (simp_all add: rng_ops_def virtio_default_ops_def)
  ultimately show ?thesis
    using process_confined [OF rng.confined_device_axioms, where m = "demo_mmio ?d 1" and i = 0 and ram = demo_ram,
        of "\<lambda>_. 7" "\<lambda>_. False"] t [folded numeral_2_eq_2]
    by (simp add: Let_def del: process_trace.simps)
qed




section \<open>The receive pump\<close>

text \<open>C30. When the driver keeps its rings apart, the receive pump always returns, after injecting at
  most as many payloads as the guest has posted chains: the receive queue's consumed index
  advances by the number injected, and the interrupt bit is raised and an injection reported
  exactly when that number is not zero.\<close>

theorem pump_rx_ends:
  assumes "attached m" "op_rx_queue ops = Some j" "j < length (queues m)"
    and "rings_separate writable_foot ram (queues m ! j)"
  shows "\<exists>m' ram' k. pump_rx ops m ram = Some (0 < k, m', ram') \<and> k \<le> backlog ram (queues m ! j) \<and>
    queues m' = (queues m)[j := (queues m ! j)\<lparr>q_last_avail := q_last_avail (queues m ! j) + of_nat k\<rparr>] \<and>
    interrupt_status m' = (if 0 < k then interrupt_status m OR 1 else interrupt_status m)"
proof (cases "pending_rx m")
  case None
  with pump_loop_bounded [OF assms(3,4), of ops False] assms show ?thesis
    by (fastforce simp: pump_rx_def finish_pump_def)
next
  case (Some data)
  let ?q = "queues m ! j"
  show ?thesis
  proof (cases "q_ready ?q \<noteq> 0 \<and> q_num ?q \<noteq> 0 \<and> q_last_avail ?q \<noteq> avail_idx ram ?q")
    case True
    let ?q' = "?q\<lparr>q_last_avail := q_last_avail ?q + 1\<rparr>"
    let ?m = "m\<lparr>pending_rx := None, queues := (queues m)[j := ?q']\<rparr>"
    obtain ram' where i: "inject_one ram ?q data = (True, ram', ?q')" "rings_separate writable_foot ram' ?q'"
      "backlog ram ?q = Suc (backlog ram' ?q')"
      by (rule inject_one_backlog [OF True assms(4)]) (rule that)
    from pump_loop_bounded [of j ?m ram' ops True] i(2) assms(3) obtain m' ram'' any' k where
      "pump_loop ops j ?m ram' True = Some (m', ram'', True)" "k \<le> backlog ram' ?q'"
      "interrupt_status m' = interrupt_status m"
      "queues m' = (queues m)[j := ?q\<lparr>q_last_avail := q_last_avail ?q + 1 + of_nat k\<rparr>]"
      by auto
    with Some i assms show ?thesis
      by (intro exI [of _ "m'\<lparr>interrupt_status := interrupt_status m OR 1\<rparr>"] exI [of _ ram''] exI [of _ "Suc k"])
        (simp add: pump_rx_def finish_pump_def algebra_simps)
  next
    case False
    then have "inject_one ram ?q data = (False, ram, ?q)" by (auto simp: inject_one_def)
    with Some assms show ?thesis
      by (intro exI [of _ m] exI [of _ ram] exI [of _ 0]) (simp add: pump_rx_def)
  qed
qed

definition demo_rx_ops :: "bytes list virtio_ops" where
  "demo_rx_ops = (virtio_default_ops 1 (\<lambda>d q ram bufs. (d, ram, 0)))
     \<lparr>op_rx_queue := Some 0,
      op_poll_rx := (\<lambda>d cap. case d of [] \<Rightarrow> ([], None) | x # xs \<Rightarrow> (xs, Some x))\<rparr>"

theorem pump_rx_ends_witness:
  "\<exists>m' ram' k. pump_rx demo_rx_ops (demo_mmio [[1], [2]] 1) demo_ram = Some (0 < k, m', ram') \<and> k \<le> (1 :: nat)"
proof -
  have "backlog demo_ram demo_queue = 1" by (simp add: backlog_def)
  moreover have "op_rx_queue demo_rx_ops = Some 0" by (simp add: demo_rx_ops_def)
  ultimately show ?thesis
    using pump_rx_ends [of "demo_mmio [[1], [2]] 1" demo_rx_ops 0 demo_ram] demo_separate by force
qed

end
