(* ===== verification/Text.thy ===== *)
theory Text
  imports Prelude
begin

text \<open>
  The string operations of the Rust standard library that the sources apply to configuration
  text: \<open>str::trim\<close> and \<open>str::parse::<u64>()\<close>.  A Rust string is a list of its bytes read as
  characters; the white space removed is the ASCII white space.
\<close>

definition is_space :: "char \<Rightarrow> bool" where
  "is_space c \<longleftrightarrow> (let n = of_char c :: nat in (9 \<le> n \<and> n \<le> 13) \<or> n = 32)"

definition trim :: "string \<Rightarrow> string" where
  "trim s = rev (dropWhile is_space (rev (dropWhile is_space s)))"

definition digit_of :: "char \<Rightarrow> nat option" where
  "digit_of c = (let n = of_char c :: nat in if 48 \<le> n \<and> n \<le> 57 then Some (n - 48) else None)"

fun digits_from :: "nat \<Rightarrow> string \<Rightarrow> nat option" where
  "digits_from acc [] = Some acc"
| "digits_from acc (c # cs) =
     (case digit_of c of None \<Rightarrow> None | Some d \<Rightarrow> digits_from (10 * acc + d) cs)"

text \<open>\<open>parse\<close> of an unsigned type of \<open>w\<close> bits: an optional \<open>+\<close>, at least one digit, no
  overflow.\<close>

definition parse_unsigned :: "nat \<Rightarrow> string \<Rightarrow> nat option" where
  "parse_unsigned w s =
     (let ds = (case s of c # cs \<Rightarrow> (if c = CHR ''+'' then cs else s) | [] \<Rightarrow> []) in
      if ds = [] then None
      else case digits_from 0 ds of None \<Rightarrow> None | Some n \<Rightarrow> if n < 2 ^ w then Some n else None)"

lemma parse_unsigned_bound: "parse_unsigned w s = Some n \<Longrightarrow> n < 2 ^ w"
  by (auto simp: parse_unsigned_def Let_def split: if_splits option.splits)

text \<open>Decimal formatting of an unsigned integer, \<open>format!("{}")\<close>.\<close>

definition digit_char :: "nat \<Rightarrow> char" where
  "digit_char d = char_of (48 + d)"

fun show_nat :: "nat \<Rightarrow> string" where
  "show_nat n = (if n < 10 then [digit_char n] else show_nat (n div 10) @ [digit_char (n mod 10)])"

declare show_nat.simps [simp del]

lemma digit_of_char [simp]: "d < 10 \<Longrightarrow> digit_of (digit_char d) = Some d"
  by (simp add: digit_of_def digit_char_def Let_def)

lemma digits_from_append:
  "digits_from acc (xs @ ys) = (case digits_from acc xs of None \<Rightarrow> None | Some a \<Rightarrow> digits_from a ys)"
  by (induction acc xs rule: digits_from.induct) (auto split: option.splits)

lemma digits_from_show_nat: "digits_from 0 (show_nat n) = Some n"
proof (induction n rule: show_nat.induct)
  case (1 n)
  then show ?case by (subst show_nat.simps) (simp add: digits_from_append)
qed

lemma show_nat_inject [simp]: "show_nat m = show_nat n \<longleftrightarrow> m = n"
  using digits_from_show_nat by (metis option.inject)

lemma show_nat_digits: "c \<in> set (show_nat n) \<Longrightarrow> digit_of c \<noteq> None"
proof (induction n rule: show_nat.induct)
  case (1 n)
  then show ?case by (subst (asm) show_nat.simps) (auto split: if_splits)
qed

lemma show_nat_not_Nil [simp]: "show_nat n \<noteq> []"
  by (subst show_nat.simps) simp

lemma parse_show_nat: "n < 2 ^ w \<Longrightarrow> parse_unsigned w (show_nat n) = Some n"
proof -
  assume n: "n < 2 ^ w"
  obtain c cs where s: "show_nat n = c # cs" by (cases "show_nat n") auto
  have "digit_of c \<noteq> None" using show_nat_digits [of c n] s by simp
  then have "c \<noteq> CHR ''+''" by (auto simp: digit_of_def Let_def split: if_splits)
  then show ?thesis using n digits_from_show_nat [of n] s by (simp add: parse_unsigned_def)
qed

text \<open>Lower-case hexadecimal formatting, \<open>format!("{:x}")\<close>.\<close>

definition hex_char :: "nat \<Rightarrow> char" where
  "hex_char d = (if d < 10 then char_of (48 + d) else char_of (87 + d))"

fun show_hex :: "nat \<Rightarrow> string" where
  "show_hex n = (if n < 16 then [hex_char n] else show_hex (n div 16) @ [hex_char (n mod 16)])"

declare show_hex.simps [simp del]

lemma of_hex_char: "n < 16 \<Longrightarrow> (of_char (hex_char n) :: nat) = (if n < 10 then 48 + n else 87 + n)"
  by (simp add: hex_char_def)

lemma hex_char_inject:
  assumes "a < 16" "b < 16" "hex_char a = hex_char b"
  shows "a = b"
proof -
  have "(if a < 10 then 48 + a else 87 + a) = (if b < 10 then 48 + b else 87 + b)"
    using of_hex_char [OF assms(1)] of_hex_char [OF assms(2)] assms(3) by metis
  then show ?thesis by (auto split: if_splits)
qed

lemma show_hex_not_Nil [simp]: "show_hex n \<noteq> []"
  by (subst show_hex.simps) simp

lemma show_hex_inject [simp]: "show_hex m = show_hex n \<longleftrightarrow> m = n"
proof
  show "show_hex m = show_hex n \<Longrightarrow> m = n"
  proof (induction m arbitrary: n rule: show_hex.induct)
    case (1 m)
    consider "m < 16" "n < 16" | "m < 16" "\<not> n < 16" | "\<not> m < 16" "n < 16" | "\<not> m < 16" "\<not> n < 16" by blast
    then show ?case
    proof cases
      case 1
      with "1.prems" hex_char_inject show ?thesis by (simp add: show_hex.simps [of m] show_hex.simps [of n])
    next
      case 2
      with "1.prems" show_hex_not_Nil [of "n div 16"] show ?thesis by (simp add: show_hex.simps [of m] show_hex.simps [of n])
    next
      case 3
      with "1.prems" show_hex_not_Nil [of "m div 16"] show ?thesis by (simp add: show_hex.simps [of m] show_hex.simps [of n])
    next
      case 4
      with "1.prems" have "show_hex (m div 16) = show_hex (n div 16)" "hex_char (m mod 16) = hex_char (n mod 16)"
        by (simp_all add: show_hex.simps [of m] show_hex.simps [of n])
      with "1.IH" [OF 4(1)] hex_char_inject [of "m mod 16" "n mod 16"] show ?thesis
        by (metis div_mult_mod_eq mod_less_divisor zero_less_numeral)
    qed
  qed
qed simp

end
