(* ===== verification/Limiter.thy ===== *)
theory Limiter
  imports Text
begin

text \<open>
  The token bucket of \<open>amber-core/src/limiter.rs\<close>.  The \<open>f64\<close> fields are exact rationals here
  (rounding of the floating-point unit is not modelled), an \<open>Instant\<close> is a rational number of
  seconds, and every call of \<open>Instant::now()\<close> is an argument.
\<close>

record token_bucket =
  rate :: rat
  tokens :: rat
  last_refill :: rat

text \<open>The cast \<open>bytes as f64\<close>.\<close>

definition as_f64 :: "u64 \<Rightarrow> rat" where
  "as_f64 n = rat_of_nat (unat n)"

definition bucket_new :: "u64 \<Rightarrow> rat \<Rightarrow> token_bucket" where
  "bucket_new bps now =
     (let r = as_f64 (max bps 1) in \<lparr>rate = r, tokens = r, last_refill = now\<rparr>)"

text \<open>The parsing half of \<open>from_env\<close>: the rate a knob asks for, if any.\<close>

definition rate_of_env :: "string option \<Rightarrow> u64 option" where
  "rate_of_env var =
     (case var of None \<Rightarrow> None
      | Some v0 \<Rightarrow>
          let v = trim v0 in
          if v = [] then None
          else
            let c = last v;
                (num, mult) =
                  (if c \<in> set ''Kk'' then (butlast v, 2 ^ 10)
                   else if c \<in> set ''Mm'' then (butlast v, 2 ^ 20)
                   else if c \<in> set ''Gg'' then (butlast v, 2 ^ 30)
                   else (v, 1 :: u64))
            in case parse_unsigned 64 num of
                 None \<Rightarrow> None
               | Some n \<Rightarrow> if 0 < n then Some (saturating_mul (of_nat n) mult) else None)"

definition from_env :: "string option \<Rightarrow> rat \<Rightarrow> token_bucket option" where
  "from_env var now = map_option (\<lambda>r. bucket_new r now) (rate_of_env var)"

text \<open>\<open>duration_since\<close> saturates at zero when the argument lies in the future.\<close>

definition refill :: "token_bucket \<Rightarrow> rat \<Rightarrow> token_bucket" where
  "refill b now =
     (let dt = max 0 (now - last_refill b)
      in b\<lparr>tokens := min (tokens b + dt * rate b) (rate b), last_refill := now\<rparr>)"

definition try_take :: "token_bucket \<Rightarrow> rat \<Rightarrow> u64 \<Rightarrow> token_bucket \<times> bool" where
  "try_take b now n =
     (let b' = refill b now in
      if as_f64 n \<le> tokens b'
      then (b'\<lparr>tokens := tokens b' - as_f64 n\<rparr>, True) else (b', False))"

definition debit :: "token_bucket \<Rightarrow> rat \<Rightarrow> rat \<Rightarrow> u64 \<Rightarrow> token_bucket \<times> rat option" where
  "debit b now now' n =
     (let b' = refill b now;
          t = tokens b' - as_f64 n in
      if t < 0
      then let wait = - t / rate b' in (b'\<lparr>tokens := 0, last_refill := now' + wait\<rparr>, Some wait)
      else (b'\<lparr>tokens := t\<rparr>, None))"

definition throttle :: "token_bucket \<Rightarrow> rat \<Rightarrow> rat \<Rightarrow> u64 \<Rightarrow> token_bucket" where
  "throttle b now now' n = fst (debit b now now' n)"


section \<open>The bucket invariant\<close>

definition bucket_ok :: "token_bucket \<Rightarrow> bool" where
  "bucket_ok b \<longleftrightarrow> 0 < rate b \<and> 0 \<le> tokens b \<and> tokens b \<le> rate b"

lemma unsigned_as_f64 [simp]: "(unsigned n :: rat) = as_f64 n" for n :: u64
  by (simp add: as_f64_def)

lemma as_f64_nonneg [simp]: "0 \<le> as_f64 n"
  by (simp only: as_f64_def of_nat_0_le_iff)

lemma as_f64_pos: "n \<noteq> 0 \<Longrightarrow> 0 < as_f64 n"
  unfolding as_f64_def by (subst of_nat_0_less_iff) (simp add: unat_gt_0)

lemma bucket_ok_new: "bucket_ok (bucket_new bps now)"
proof -
  have "max bps 1 \<noteq> 0" by (metis max.cobounded2 word_le_0_iff zero_neq_one)
  then show ?thesis by (simp add: bucket_ok_def bucket_new_def Let_def as_f64_pos)
qed

lemma from_env_ok: "from_env var now = Some b \<Longrightarrow> bucket_ok b"
  by (auto simp: from_env_def bucket_ok_new)

lemma refill_ok: "bucket_ok b \<Longrightarrow> bucket_ok (refill b now)"
  by (simp add: bucket_ok_def refill_def Let_def)

lemma refill_simps [simp]:
  "rate (refill b now) = rate b" "last_refill (refill b now) = now"
  by (simp_all add: refill_def Let_def)

lemma try_take_ok: "bucket_ok b \<Longrightarrow> bucket_ok (fst (try_take b now n))"
  using refill_ok [of b now] as_f64_nonneg [of n]
  by (auto simp: try_take_def Let_def bucket_ok_def simp del: as_f64_nonneg)

lemma debit_ok: "bucket_ok b \<Longrightarrow> bucket_ok (fst (debit b now now' n))"
  using refill_ok [of b now] as_f64_nonneg [of n]
  by (auto simp: debit_def Let_def bucket_ok_def simp del: as_f64_nonneg)

lemma try_take_okD: "\<lbrakk>try_take b now n = (b', r); bucket_ok b\<rbrakk> \<Longrightarrow> bucket_ok b'"
  using try_take_ok [of b now n] by simp

lemma debit_okD: "\<lbrakk>debit b now now' n = (b', w); bucket_ok b\<rbrakk> \<Longrightarrow> bucket_ok b'"
  using debit_ok [of b now now' n] by simp

lemma throttle_ok: "bucket_ok b \<Longrightarrow> bucket_ok (throttle b now now' n)"
  by (simp add: throttle_def debit_ok)


section \<open>The rate bound\<close>

datatype bucket_op = TryTake rat u64 | Debit rat rat u64

text \<open>One use of the bucket: the new state and how many bytes it let through.\<close>

fun bucket_step :: "token_bucket \<Rightarrow> bucket_op \<Rightarrow> token_bucket \<times> nat" where
  "bucket_step b (TryTake now n) =
     (case try_take b now n of (b', ok) \<Rightarrow> (b', if ok then unat n else 0))"
| "bucket_step b (Debit now now' n) = (fst (debit b now now' n), unat n)"

text \<open>The clock discipline of a caller that sleeps every deficit off before it comes back: it
  never uses the bucket before the instant \<open>last_refill\<close>.\<close>

fun disciplined :: "token_bucket \<Rightarrow> bucket_op list \<Rightarrow> bool" where
  "disciplined b [] \<longleftrightarrow> True"
| "disciplined b (u # us) \<longleftrightarrow>
     (case u of TryTake now n \<Rightarrow> last_refill b \<le> now
      | Debit now now' n \<Rightarrow> last_refill b \<le> now \<and> now \<le> now') \<and>
     disciplined (fst (bucket_step b u)) us"

fun bucket_run :: "token_bucket \<Rightarrow> bucket_op list \<Rightarrow> token_bucket \<times> nat" where
  "bucket_run b [] = (b, 0)"
| "bucket_run b (u # us) =
     (case bucket_step b u of (b', n) \<Rightarrow> (case bucket_run b' us of (b'', m) \<Rightarrow> (b'', n + m)))"

lemma refill_credit:
  assumes "bucket_ok b" "last_refill b \<le> now"
  shows "tokens (refill b now) \<le> tokens b + rate b * (now - last_refill b)"
  using assms by (simp add: refill_def Let_def max_def mult.commute)

lemma bucket_step_rate [simp]: "rate (fst (bucket_step b u)) = rate b"
  by (cases u) (simp_all add: try_take_def debit_def Let_def)

lemma bucket_step_ok: "bucket_ok b \<Longrightarrow> bucket_ok (fst (bucket_step b u))"
  using try_take_ok debit_ok by (cases u) (simp_all add: split_beta)

lemma bucket_step_bound:
  assumes ok: "bucket_ok b" and d: "disciplined b [u]" and s: "bucket_step b u = (b', n)"
  shows "rat_of_nat n + tokens b' \<le> tokens b + rate b * (last_refill b' - last_refill b)"
proof (cases u)
  case (TryTake now k)
  then show ?thesis
    using d s refill_credit [OF ok, of now] by (auto simp: try_take_def Let_def split: if_splits)
next
  case (Debit now now' k)
  have r: "0 < rate b" using ok by (simp add: bucket_ok_def)
  have d': "last_refill b \<le> now" "now \<le> now'" using d Debit by simp_all
  let ?t = "tokens (refill b now) - as_f64 k"
  have c: "tokens (refill b now) \<le> tokens b + rate b * (now - last_refill b)"
    by (rule refill_credit [OF ok d'(1)])
  show ?thesis
  proof (cases "?t < 0")
    case True
    have "rate b * (now - last_refill b) \<le> rate b * (now' - last_refill b)"
      using r d'(2) by (simp add: mult_left_mono)
    moreover have "rate b * (now' + - ?t / rate b - last_refill b) = rate b * (now' - last_refill b) - ?t"
      using r by (simp add: field_simps)
    ultimately show ?thesis
      using s Debit True c by (auto simp: debit_def Let_def)
  next
    case False
    then show ?thesis using s Debit c by (auto simp: debit_def Let_def)
  qed
qed

lemma bucket_run_bound:
  "\<lbrakk>bucket_ok b; disciplined b us; bucket_run b us = (b', n)\<rbrakk> \<Longrightarrow>
     bucket_ok b' \<and> rate b' = rate b \<and>
     rat_of_nat n + tokens b' \<le> tokens b + rate b * (last_refill b' - last_refill b)"
proof (induction us arbitrary: b n)
  case (Cons u us)
  obtain b1 n1 where s: "bucket_step b u = (b1, n1)" by fastforce
  obtain n2 where r: "bucket_run b1 us = (b', n2)" and n: "n = n1 + n2"
    using Cons.prems(3) s by (auto split: prod.splits)
  have "bucket_ok b1" "rate b1 = rate b"
    using bucket_step_ok [OF Cons.prems(1), of u] bucket_step_rate [of b u] s by simp_all
  with Cons.IH [OF _ _ r] Cons.prems(2) s
  have ih: "bucket_ok b' \<and> rate b' = rate b \<and>
     rat_of_nat n2 + tokens b' \<le> tokens b1 + rate b * (last_refill b' - last_refill b1)" by simp
  have "rat_of_nat n1 + tokens b1 \<le> tokens b + rate b * (last_refill b1 - last_refill b)"
    using bucket_step_bound [OF Cons.prems(1) _ s] Cons.prems(2) by simp
  with ih n show ?case by (simp add: algebra_simps)
qed simp

end
