(* ===== verification/Blk.thy ===== *)
theory Blk
  imports Virtio_Mmio Limiter
begin

text \<open>
  virtio-blk, \<open>BlkDevice\<close> of \<open>amber-core/src/virtio.rs\<close>.  The backing file is its bytes; what
  the host file system may do beyond that (fail a read, fail a write after some bytes, fail a
  sync) and the readings of the clock come from the record \<open>disk_host\<close>, an argument of the
  operations.
\<close>

record disk_host =
  rd_err :: "u64 \<Rightarrow> nat \<Rightarrow> bool"
  wr_err :: "u64 \<Rightarrow> bytes \<Rightarrow> nat option"
  sync_err :: bool
  host_clock :: "nat \<Rightarrow> rat"

record blk_device =
  disk :: bytes
  capacity_sectors :: u64
  blk_writable :: bool
  limit :: "token_bucket option"
  blk_ticks :: nat

definition T_IN :: u32 where "T_IN = 0"
definition T_OUT :: u32 where "T_OUT = 1"
definition T_FLUSH :: u32 where "T_FLUSH = 4"
definition S_OK :: u8 where "S_OK = 0"
definition S_IOERR :: u8 where "S_IOERR = 1"
definition S_UNSUPP :: u8 where "S_UNSUPP = 2"
definition F_RO :: u32 where "F_RO = push_bit 5 1"

text \<open>\<open>open_with\<close>: \<open>file\<close> is \<open>None\<close> when the image cannot be opened or inspected.\<close>

definition blk_open_with ::
  "bytes option \<Rightarrow> bool \<Rightarrow> string option \<Rightarrow> rat \<Rightarrow> error + blk_device" where
  "blk_open_with file w env now =
     (case file of None \<Rightarrow> Inl Device
      | Some img \<Rightarrow>
          Inr \<lparr>disk = img, capacity_sectors = of_nat (length img) div SECTOR, blk_writable = w,
               limit = from_env env now, blk_ticks = 0\<rparr>)"

definition read_disk :: "disk_host \<Rightarrow> bytes \<Rightarrow> u64 \<Rightarrow> nat \<Rightarrow> bytes" where
  "read_disk host dk off n =
     (if rd_err host off n then replicate n 0
      else let got = take n (drop (unat off) dk) in got @ replicate (n - length got) 0)"

text \<open>A positioned write to a regular file: a gap before the offset reads as zero, the file
  grows when the data passes its end, an empty write does nothing.\<close>

definition pad_to :: "nat \<Rightarrow> bytes \<Rightarrow> bytes" where
  "pad_to n dk = take n dk @ replicate (n - length dk) 0"

definition write_at :: "bytes \<Rightarrow> nat \<Rightarrow> bytes \<Rightarrow> bytes" where
  "write_at dk off data =
     (if data = [] then dk
      else pad_to off dk @ data @ drop (off + length data) dk)"

definition write_all_at :: "disk_host \<Rightarrow> bytes \<Rightarrow> u64 \<Rightarrow> bytes \<Rightarrow> bytes \<times> bool" where
  "write_all_at host dk off data =
     (case wr_err host off data of
        None \<Rightarrow> (write_at dk (unat off) data, True)
      | Some k \<Rightarrow> (write_at dk (unat off) (take k data), False))"

definition rate_limit :: "disk_host \<Rightarrow> blk_device \<Rightarrow> buf list \<Rightarrow> bool \<Rightarrow> blk_device" where
  "rate_limit host d data want =
     (case limit d of None \<Rightarrow> d
      | Some l \<Rightarrow>
          let total = sum_list (map (\<lambda>b. ucast (len b)) (filter (\<lambda>b. writable b = want) data))
          in d\<lparr>limit := Some (throttle l (host_clock host (blk_ticks d))
                                   (host_clock host (Suc (blk_ticks d))) total),
               blk_ticks := Suc (Suc (blk_ticks d))\<rparr>)"

fun blk_in :: "disk_host \<Rightarrow> bytes \<Rightarrow> guest_ram \<Rightarrow> buf list \<Rightarrow> u64 \<Rightarrow> u32 \<Rightarrow> guest_ram \<times> u32" where
  "blk_in host dk ram [] off written = (ram, written)"
| "blk_in host dk ram (b # bs) off written =
     blk_in host dk (ram_put ram (addr b) (read_disk host dk off (unat (len b)))) bs
       (off + ucast (len b)) (written + len b)"

fun blk_out :: "disk_host \<Rightarrow> bytes \<Rightarrow> guest_ram \<Rightarrow> buf list \<Rightarrow> u64 \<Rightarrow> bytes \<times> bool" where
  "blk_out host dk ram [] off = (dk, True)"
| "blk_out host dk ram (b # bs) off =
     (case write_all_at host dk off (ram_bytes ram (addr b) (unat (len b))) of
        (dk', ok) \<Rightarrow> if ok then blk_out host dk' ram bs (off + ucast (len b)) else (dk', False))"

definition blk_handle ::
  "disk_host \<Rightarrow> blk_device \<Rightarrow> nat \<Rightarrow> guest_ram \<Rightarrow> buf list \<Rightarrow> blk_device \<times> guest_ram \<times> u32" where
  "blk_handle host d queue ram bufs =
     (if length bufs < 2 then (d, ram, 0)
      else
        let req_type = read_u32 ram (addr (hd bufs));
            sector = read_u64 ram (addr (hd bufs) + 8);
            data = butlast (tl bufs);
            start = sector * SECTOR;
            (d', ram', written, st) =
              (if req_type = T_IN then
                 let d1 = rate_limit host d data True;
                     (ram1, w) = blk_in host (disk d1) ram (filter writable data) start 0
                 in (d1, ram1, w, S_OK)
               else if req_type = T_OUT \<and> blk_writable d then
                 let d1 = rate_limit host d data False;
                     (dk, ok) = blk_out host (disk d1) ram (filter (\<lambda>b. \<not> writable b) data) start
                 in (d1\<lparr>disk := dk\<rparr>, ram, 0, if ok then S_OK else S_IOERR)
               else if req_type = T_OUT then (d, ram, 0, S_IOERR)
               else if req_type = T_FLUSH then
                 (d, ram, 0, if \<not> blk_writable d \<or> \<not> sync_err host then S_OK else S_IOERR)
               else (d, ram, 0, S_UNSUPP))
        in (d', ram_put ram' (addr (last bufs)) [st], written + 1))"

definition blk_device_features :: "blk_device \<Rightarrow> u32 \<Rightarrow> u32" where
  "blk_device_features d sel = (if sel = 0 \<and> \<not> blk_writable d then F_RO else 0)"

definition blk_config :: "blk_device \<Rightarrow> u64 \<Rightarrow> u32" where
  "blk_config d off =
     (if off = 0 then ucast (capacity_sectors d)
      else if off = 4 then ucast (drop_bit 32 (capacity_sectors d)) else 0)"

definition blk_ops :: "disk_host \<Rightarrow> blk_device virtio_ops" where
  "blk_ops host = (virtio_default_ops 2 (blk_handle host))
     \<lparr>op_device_features := blk_device_features, op_config := blk_config\<rparr>"


section \<open>The contract of the transport\<close>

text \<open>The status byte goes to the last descriptor of the chain whatever its flags and length
  are, so a block device may write one byte at any buffer's address on top of the
  device-writable buffers.\<close>

definition blk_foot :: "buf \<Rightarrow> nat set" where
  "blk_foot b = writable_foot b \<union> gpa_range (addr b) 1"

definition blk_ok :: "blk_device \<Rightarrow> bool" where
  "blk_ok d \<longleftrightarrow> (\<forall>l. limit d = Some l \<longrightarrow> bucket_ok l)"

lemma length_read_disk [simp]: "length (read_disk host dk off n) = n"
  by (simp add: read_disk_def Let_def)

lemma rate_limit_simps [simp]:
  "disk (rate_limit host d data w) = disk d"
  "capacity_sectors (rate_limit host d data w) = capacity_sectors d"
  "blk_writable (rate_limit host d data w) = blk_writable d"
  by (simp_all add: rate_limit_def Let_def split: option.split)

lemma rate_limit_ok: "blk_ok d \<Longrightarrow> blk_ok (rate_limit host d data w)"
  by (auto simp: blk_ok_def rate_limit_def Let_def throttle_ok split: option.split)

lemma blk_in_frame: "changes_only (\<Union>b\<in>set bs. buf_area b) ram (fst (blk_in host dk ram bs off w))"
proof (induction host dk ram bs off w rule: blk_in.induct)
  case (2 host dk ram b bs off w)
  let ?r = "ram_put ram (addr b) (read_disk host dk off (unat (len b)))"
  have "changes_only (\<Union>b\<in>set (b # bs). buf_area b) ram ?r"
    by (rule changes_only_put) (auto simp: buf_area_def)
  moreover have "changes_only (\<Union>b\<in>set (b # bs). buf_area b) ?r
      (fst (blk_in host dk ?r bs (off + ucast (len b)) (w + len b)))"
    by (rule changes_only_mono [OF "2.IH"]) auto
  ultimately show ?case by (simp add: changes_only_step)
qed simp

lemma blk_handle_frame:
  "changes_only (writable_area (butlast (tl bufs)) \<union> (if length bufs < 2 then {} else gpa_range (addr (last bufs)) 1))
     ram (fst (snd (blk_handle host d queue ram bufs)))"
proof (cases "length bufs < 2")
  case False
  let ?A = "writable_area (butlast (tl bufs)) \<union> gpa_range (addr (last bufs)) 1"
  have put: "changes_only ?A r (ram_put r (addr (last bufs)) [st])" for r st
    by (rule changes_only_put) simp
  have "changes_only ?A ram (fst (blk_in host dk ram (filter writable (butlast (tl bufs))) off 0))" for dk off
    by (rule changes_only_mono [OF blk_in_frame]) (simp add: writable_area_filter)
  then have step: "changes_only ?A ram (ram_put (fst (blk_in host dk ram
      (filter writable (butlast (tl bufs))) off 0)) (addr (last bufs)) [st])" for dk off st
    by (rule changes_only_step) (rule put)
  show ?thesis using False put step by (simp add: blk_handle_def Let_def split_beta)
qed (simp add: blk_handle_def)

lemma blk_handle_confined:
  "changes_only (chain_area blk_foot bufs) ram (fst (snd (blk_handle host d queue ram bufs)))"
proof (rule changes_only_mono [OF blk_handle_frame], cases "length bufs < 2")
  case False
  then have "last bufs \<in> set bufs" by (auto intro: last_in_set)
  moreover have "set (butlast (tl bufs)) \<subseteq> set bufs"
    using in_set_butlastD list.set_sel(2) by (metis list.sel(2) subsetI)
  ultimately show "writable_area (butlast (tl bufs)) \<union>
      (if length bufs < 2 then {} else gpa_range (addr (last bufs)) 1) \<subseteq> chain_area blk_foot bufs"
    using False by (auto simp: chain_area_def blk_foot_def)
next
  case True
  then have "butlast (tl bufs) = []" by (cases bufs) auto
  then show "writable_area (butlast (tl bufs)) \<union>
      (if length bufs < 2 then {} else gpa_range (addr (last bufs)) 1) \<subseteq> chain_area blk_foot bufs"
    using True by (simp add: chain_area_def)
qed

lemma blk_handle_ok: "blk_ok d \<Longrightarrow> blk_ok (fst (blk_handle host d queue ram bufs))"
  by (simp add: blk_handle_def Let_def split_beta rate_limit_ok)
    (simp add: blk_ok_def rate_limit_def throttle_ok split: option.split)

lemma blk_ops_simps [simp]:
  "op_handle (blk_ops host) = blk_handle host" "op_ack_config (blk_ops host) = (\<lambda>d. d)"
  "op_poll_rx (blk_ops host) = (\<lambda>d _. (d, None))" "op_take_throttle (blk_ops host) = (\<lambda>d. (d, None))"
  "op_num_queues (blk_ops host) = 1" "op_rx_queue (blk_ops host) = None" "op_event_queue (blk_ops host) = None"
  by (simp_all add: blk_ops_def virtio_default_ops_def)

interpretation blk: confined_device "blk_ops host" blk_ok blk_foot for host
proof unfold_locales
  show "changes_only UNIV ram (fst (snd (op_handle (blk_ops host) d qidx ram bufs)))" for ram d qidx bufs
    unfolding blk_ops_simps by (rule changes_only_mono [OF blk_handle_confined]) simp
qed (simp_all add: blk_handle_ok blk_handle_confined)



section \<open>What a request does\<close>

text \<open>The bytes a read of \<open>n\<close> bytes at \<open>off\<close> delivers: the file's, zero past its end.\<close>

definition disk_byte :: "bytes \<Rightarrow> nat \<Rightarrow> u8" where
  "disk_byte dk i = (if i < length dk then dk ! i else 0)"

definition disk_view :: "bytes \<Rightarrow> nat \<Rightarrow> nat \<Rightarrow> bytes" where
  "disk_view dk off n = map (disk_byte dk) [off..<off + n]"

lemma read_disk_view: "\<not> rd_err host off n \<Longrightarrow> read_disk host dk off n = disk_view dk (unat off) n"
  by (rule nth_equalityI) (auto simp: read_disk_def Let_def disk_view_def disk_byte_def nth_append)

lemma disk_view_append:
  "disk_view dk off (n + m) = disk_view dk off n @ disk_view dk (off + n) m"
  using upt_add_eq_append [of off "off + n" m] by (simp add: disk_view_def add.assoc)

lemma length_disk_view [simp]: "length (disk_view dk off n) = n"
  by (simp add: disk_view_def)

lemma unat_add_len:
  fixes off :: u64
  assumes "unat off + (unat (len b) + k) < 2 ^ 64"
  shows "unat (off + ucast (len b)) = unat off + unat (len b)"
  using assms unat_add_lem [of off "ucast (len b)"] by simp

lemma blk_in_gather:
  assumes "\<forall>b \<in> set bs. buf_ok ram b" "bufs_disjoint bs" "\<forall>o' n. \<not> rd_err host o' n"
    and "unat off + bufs_capacity bs < 2 ^ 64"
  shows "gather (fst (blk_in host dk ram bs off w)) bs = disk_view dk (unat off) (bufs_capacity bs)"
  using assms
proof (induction host dk ram bs off w rule: blk_in.induct)
  case (1 host dk ram off w)
  then show ?case by (simp add: gather_def bufs_capacity_def disk_view_def)
next
  case (2 host dk ram b bs off w)
  let ?n = "unat (len b)"
  let ?r = "ram_put ram (addr b) (read_disk host dk off ?n)"
  let ?r' = "fst (blk_in host dk ?r bs (off + ucast (len b)) (w + len b))"
  have cap: "bufs_capacity (b # bs) = ?n + bufs_capacity bs" by (simp add: bufs_capacity_def)
  have o: "unat (off + ucast (len b)) = unat off + ?n"
    by (rule unat_add_len) (use "2.prems"(4) cap in \<open>simp only:\<close>)
  have "changes_only UNIV ram ?r" by (rule changes_only_put) simp
  then have ih: "gather ?r' bs = disk_view dk (unat off + ?n) (bufs_capacity bs)"
    using "2.IH" "2.prems" cap o by (simp add: buf_ok_changes bufs_disjoint_def)
  have "changes_only (\<Union>b\<in>set bs. buf_area b) ?r ?r'" by (rule blk_in_frame)
  moreover have "(\<Union>b\<in>set bs. buf_area b) \<inter> gpa_range (addr b) ?n = {}"
    using "2.prems"(2) unfolding bufs_disjoint_def buf_area_def by auto
  ultimately have "ram_bytes ?r' (addr b) ?n = ram_bytes ?r (addr b) ?n" by (rule changes_only_bytes)
  also have "\<dots> = read_disk host dk off ?n"
  proof (cases "len b = 0")
    case True
    then have "length (ram_bytes ?r (addr b) ?n) = 0" "length (read_disk host dk off ?n) = 0" by simp_all
    then show ?thesis by (metis length_0_conv)
  next
    case False
    then have "in_range ram (addr b) (length (read_disk host dk off ?n))"
      using "2.prems"(1) by (simp add: buf_ok_def)
    from ram.rd_wr_same [OF this] show ?thesis by simp
  qed
  finally show ?case
    using ih "2.prems"(3) by (simp add: gather_Cons cap disk_view_append read_disk_view)
qed

lemma blk_in_written: "snd (blk_in host dk ram bs off w) = w + of_nat (bufs_capacity bs)"
  by (induction host dk ram bs off w rule: blk_in.induct)
    (simp_all add: bufs_capacity_def algebra_simps)

lemma length_pad_to [simp]: "length (pad_to n dk) = n"
  by (simp add: pad_to_def min_def)

lemma nth_pad_to: "i < n \<Longrightarrow> pad_to n dk ! i = disk_byte dk i"
  by (auto simp: pad_to_def nth_append disk_byte_def)

lemma pad_to_prefix: "length a = n \<Longrightarrow> pad_to n (a @ b) = a"
  by (simp add: pad_to_def)

lemma write_at_append:
  "write_at (write_at dk off a) (off + length a) b = write_at dk off (a @ b)"
  using pad_to_prefix [of "pad_to off dk @ a" "off + length a"]
  by (auto simp: write_at_def add.commute add.left_commute)

lemma disk_byte_write_at:
  "disk_byte (write_at dk off data) i =
     (if off \<le> i \<and> i < off + length data then data ! (i - off) else disk_byte dk i)"
  by (auto simp: write_at_def disk_byte_def nth_append nth_pad_to)

lemma blk_out_gather:
  assumes "\<forall>o' xs. wr_err host o' xs = None" "unat off + bufs_capacity bs < 2 ^ 64"
  shows "blk_out host dk ram bs off = (write_at dk (unat off) (gather ram bs), True)"
  using assms
proof (induction host dk ram bs off rule: blk_out.induct)
  case (1 host dk ram off)
  then show ?case by (simp add: gather_def write_at_def)
next
  case (2 host dk ram b bs off)
  have cap: "bufs_capacity (b # bs) = unat (len b) + bufs_capacity bs" by (simp add: bufs_capacity_def)
  have o: "unat (off + ucast (len b)) = unat off + unat (len b)"
    by (rule unat_add_len) (use "2.prems"(2) cap in \<open>simp only:\<close>)
  show ?case
    using 2 cap o write_at_append [of dk "unat off" "ram_bytes ram (addr b) (unat (len b))" "gather ram bs"]
    by (simp add: write_all_at_def gather_Cons)
qed

lemma disk_view_write_at: "disk_view (write_at dk off data) off (length data) = data"
  by (rule nth_equalityI) (simp_all add: disk_view_def disk_byte_write_at)

lemma disk_view_write_at_other:
  "j + n \<le> off \<or> off + length data \<le> j \<Longrightarrow>
     disk_view (write_at dk off data) j n = disk_view dk j n"
  by (auto simp: disk_view_def disk_byte_write_at)

lemma bufs_capacity_bound:
  assumes "\<forall>b\<in>set bs. buf_ok ram b"
  shows "bufs_capacity bs \<le> length bs * 2 ^ 24"
  using assms
proof (induction bs)
  case (Cons b bs)
  have "unat (len b) \<le> 2 ^ 24"
    using Cons.prems by (simp add: buf_ok_def MAX_DESC_LEN_def word_le_nat_alt)
  with Cons show ?case by (simp add: bufs_capacity_def)
qed (simp add: bufs_capacity_def)

end
