(* ===== verification/Blk_Props.thy ===== *)
theory Blk_Props
  imports Blk
begin

text \<open>
  The properties of the block device: what read and write requests do to guest memory and to the
  backing file, and that a read-only disk never changes.  The witnesses run on a three-buffer
  request over 21 bytes of guest RAM.
\<close>

section \<open>A concrete request\<close>

definition demo_disk_host :: disk_host where
  "demo_disk_host = \<lparr>rd_err = \<lambda>_ _. False, wr_err = \<lambda>_ _. None, sync_err = False, host_clock = \<lambda>_. 0\<rparr>"

definition demo_req :: "u8 \<Rightarrow> guest_ram" where
  "demo_req t = \<lparr>base = 0x1000, mem = [t, 0, 0, 0, 0, 0, 0, 0, 0, 0, 0, 0, 0, 0, 0, 0, 5, 6, 7, 8, 0xff]\<rparr>"

definition demo_bufs :: "bool \<Rightarrow> buf list" where
  "demo_bufs w = [\<lparr>addr = 0x1000, len = 16, writable = False\<rparr>, \<lparr>addr = 0x1010, len = 4, writable = w\<rparr>,
     \<lparr>addr = 0x1014, len = 1, writable = True\<rparr>]"

definition demo_blk :: "bool \<Rightarrow> blk_device" where
  "demo_blk w = \<lparr>disk = [1, 2, 3], capacity_sectors = 1, blk_writable = w, limit = None, blk_ticks = 0\<rparr>"

lemma demo_req_reads [simp]:
  "read_u32 (demo_req t) 0x1000 = ucast t" "read_u64 (demo_req t) 0x1008 = 0"
  by (simp_all add: ram_eval demo_req_def bslice_def)

lemma demo_req_ranges [simp]:
  "in_range (demo_req t) 0x1014 (Suc 0)" "in_range (demo_req t) 0x1010 4" "in_range (demo_req t) 0x1000 16"
  by (simp_all add: in_range_def offset_def checked_sub_def demo_req_def)

lemma demo_disk_host_sel [simp]:
  "rd_err demo_disk_host o' n = False" "wr_err demo_disk_host o' xs = None"
  by (simp_all add: demo_disk_host_def)

lemma demo_blk_sel [simp]:
  "disk (demo_blk w) = [1, 2, 3]" "blk_writable (demo_blk w) = w" "limit (demo_blk w) = None"
  by (simp_all add: demo_blk_def)


section \<open>Requests\<close>

text \<open>C31. A read request delivers the disk: the data buffers, in chain order, hold the bytes of the
  backing file from the requested sector on, zero past its end; the status byte is OK, the
  reported length is the data plus the status byte, and the file is unchanged.\<close>

theorem blk_in_delivers:
  fixes bufs :: "buf list"
  defines "data \<equiv> filter writable (butlast (tl bufs))"
  defines "start ram \<equiv> read_u64 ram (addr (hd bufs) + 8) * SECTOR"
  assumes "2 \<le> length bufs" "read_u32 ram (addr (hd bufs)) = T_IN"
    and host: "\<forall>o' n. \<not> rd_err host o' n"
    and bufs: "list_all (buf_ok ram) bufs" "bufs_disjoint data" "in_range ram (addr (last bufs)) 1"
    and sep: "\<forall>b \<in> set data. gpa_range (addr (last bufs)) 1 \<inter> buf_area b = {}"
    and fits: "unat (start ram) + bufs_capacity data < 2 ^ 64"
  shows "\<exists>d' ram'. blk_handle host d queue ram bufs = (d', ram', of_nat (bufs_capacity data) + 1) \<and>
     gather ram' data = disk_view (disk d) (unat (start ram)) (bufs_capacity data) \<and>
     ram_bytes ram' (addr (last bufs)) 1 = [S_OK] \<and> disk d' = disk d"
proof -
  define r1 where "r1 = fst (blk_in host (disk d) ram data (start ram) 0)"
  have sub: "set data \<subseteq> set bufs"
    unfolding data_def using in_set_butlastD list.set_sel(2) by (metis filter_is_subset list.sel(2) subset_iff)
  have ok: "\<forall>b \<in> set data. buf_ok ram b" using bufs(1) sub by (auto simp: list_all_iff)
  let ?r2 = "ram_put r1 (addr (last bufs)) [S_OK]"
  have g: "gather r1 data = disk_view (disk d) (unat (start ram)) (bufs_capacity data)"
    unfolding r1_def by (rule blk_in_gather [OF ok bufs(2) host fits])
  have "changes_only (gpa_range (addr (last bufs)) 1) r1 ?r2" by (rule changes_only_put) simp
  then have "gather ?r2 data = gather r1 data" by (rule gather_cong) (use sep in blast)
  moreover have "in_range r1 (addr (last bufs)) (length [S_OK])"
    using changes_only_in_range [OF blk_in_frame] bufs(3) by (simp add: r1_def)
  then have "ram_bytes ?r2 (addr (last bufs)) 1 = [S_OK]" using ram.rd_wr_same by fastforce
  moreover have "blk_handle host d queue ram bufs =
      (rate_limit host d (butlast (tl bufs)) True, ?r2, of_nat (bufs_capacity data) + 1)"
    using assms(3,4) blk_in_written [of host "disk d" ram data "start ram" 0]
    by (simp add: blk_handle_def Let_def split_beta r1_def data_def start_def)
  ultimately show ?thesis using g by simp
qed

theorem blk_in_delivers_witness:
  "\<exists>d' ram'. blk_handle demo_disk_host (demo_blk False) 0 (demo_req 0) (demo_bufs True) = (d', ram', 5) \<and>
     gather ram' [\<lparr>addr = 0x1010, len = 4, writable = True\<rparr>] = disk_view [1, 2, 3] 0 4 \<and>
     ram_bytes ram' 0x1014 1 = [0] \<and> disk d' = [1, 2, 3]"
proof -
  have "list_all (buf_ok (demo_req 0)) (demo_bufs True)"
    by (simp add: demo_bufs_def buf_ok_def MAX_DESC_LEN_def)
  then show ?thesis
    using blk_in_delivers [of "demo_bufs True" "demo_req 0" demo_disk_host "demo_blk False" 0]
    by (simp add: demo_bufs_def T_IN_def S_OK_def SECTOR_def bufs_disjoint_def bufs_capacity_def
        gpa_range_def buf_area_def)
qed

text \<open>C32. A write request on a writable disk persists: the file read back at the requested sector is
  the concatenation of the request's buffers, every range outside it reads as before, the status
  byte is OK, guest memory changes at most in the status byte, and only one byte is reported
  written.\<close>

theorem blk_out_persists:
  fixes bufs :: "buf list"
  defines "data \<equiv> filter (\<lambda>b. \<not> writable b) (butlast (tl bufs))"
  defines "start ram \<equiv> unat (read_u64 ram (addr (hd bufs) + 8) * SECTOR)"
  assumes "2 \<le> length bufs" "read_u32 ram (addr (hd bufs)) = T_OUT" "blk_writable d"
    and host: "\<forall>o' xs. wr_err host o' xs = None"
    and fits: "start ram + bufs_capacity data < 2 ^ 64" "in_range ram (addr (last bufs)) 1"
    and other: "j + n \<le> start ram \<or> start ram + bufs_capacity data \<le> j"
  shows "\<exists>d' ram'. blk_handle host d queue ram bufs = (d', ram', 1) \<and>
     disk_view (disk d') (start ram) (bufs_capacity data) = gather ram data \<and>
     disk_view (disk d') j n = disk_view (disk d) j n \<and>
     ram_bytes ram' (addr (last bufs)) 1 = [S_OK] \<and>
     changes_only (gpa_range (addr (last bufs)) 1) ram ram'"
proof -
  let ?d = "(rate_limit host d (butlast (tl bufs)) False)\<lparr>disk := write_at (disk d) (start ram) (gather ram data)\<rparr>"
  let ?r = "ram_put ram (addr (last bufs)) [S_OK]"
  have "blk_handle host d queue ram bufs = (?d, ?r, 1)"
    using assms(3-5) blk_out_gather [OF host, of "read_u64 ram (addr (hd bufs) + 8) * SECTOR" data "disk d" ram] fits(1)
    by (simp add: blk_handle_def Let_def data_def start_def T_IN_def T_OUT_def)
  moreover have "ram_bytes ?r (addr (last bufs)) 1 = [S_OK]"
    using ram.rd_wr_same [of ram "addr (last bufs)" "[S_OK]"] fits(2) by simp
  moreover have "changes_only (gpa_range (addr (last bufs)) 1) ram ?r" by (rule changes_only_put) simp
  ultimately show ?thesis
    using disk_view_write_at [of "disk d" "start ram" "gather ram data"]
      disk_view_write_at_other [of j n "start ram" "gather ram data" "disk d"] other
    by simp
qed

theorem blk_out_persists_witness:
  "\<exists>d' ram'. blk_handle demo_disk_host (demo_blk True) 0 (demo_req 1) (demo_bufs False) = (d', ram', 1) \<and>
     disk_view (disk d') 0 4 = gather (demo_req 1) [\<lparr>addr = 0x1010, len = 4, writable = False\<rparr>] \<and>
     disk_view (disk d') 4 100 = disk_view [1, 2, 3] 4 100"
  using blk_out_persists [of "demo_bufs False" "demo_req 1" "demo_blk True" demo_disk_host 4 100 0]
  by (simp add: demo_bufs_def T_OUT_def SECTOR_def bufs_capacity_def) blast


section \<open>Read-only disks\<close>

text \<open>For a disk opened read-only the contract of the transport holds with the stronger invariant
  that the backing file is the one it was opened with.\<close>

lemma blk_handle_readonly:
  "\<not> blk_writable d \<Longrightarrow> disk (fst (blk_handle host d queue ram bufs)) = disk d \<and>
     \<not> blk_writable (fst (blk_handle host d queue ram bufs))"
  by (simp add: blk_handle_def Let_def split_beta)

interpretation blk_ro: virtio_device "blk_ops host" "\<lambda>d. blk_ok d \<and> \<not> blk_writable d \<and> disk d = dk" for host dk
  by unfold_locales
    (simp_all add: blk_handle_ok blk_handle_readonly changes_only_mono [OF blk_handle_confined])

text \<open>C33. A disk opened read-only is never modified: along every sequence of register writes,
  notifications, guest stores, receive pumps, throttle drains and restores the backing file stays
  the one that was opened.\<close>

theorem blk_readonly_immutable:
  assumes "blk_open_with (Some img) False env now = Inr d"
    and "(mmio_step (blk_ops host))\<^sup>*\<^sup>* (virtio_new (blk_ops host) d, ram) (m, ram')"
  shows "disk (dev m) = img"
proof -
  have "blk_ok d \<and> \<not> blk_writable d \<and> disk d = img"
    using assms(1) by (auto simp: blk_open_with_def blk_ok_def intro: from_env_ok)
  from blk_ro.mmio_reachable_inv [OF assms(2) this] show ?thesis by simp
qed

theorem blk_readonly_immutable_witness:
  "\<exists>d. blk_open_with (Some [1, 2, 3]) False None 0 = Inr d \<and>
     disk (dev (fst (mmio_write (blk_ops demo_disk_host) (virtio_new (blk_ops demo_disk_host) d) (demo_req 1) 0x50 0)))
       = [1, 2, 3]"
proof -
  obtain d where d: "blk_open_with (Some [1, 2, 3]) False None 0 = Inr d" by (simp add: blk_open_with_def)
  let ?r = "mmio_write (blk_ops demo_disk_host) (virtio_new (blk_ops demo_disk_host) d) (demo_req 1) 0x50 0"
  have "(mmio_step (blk_ops demo_disk_host))\<^sup>*\<^sup>* (virtio_new (blk_ops demo_disk_host) d, demo_req 1) (fst ?r, snd ?r)"
    unfolding prod.collapse by (rule r_into_rtranclp) (rule mmio_step.reg_write)
  from blk_readonly_immutable [OF d this] d show ?thesis by blast
qed


section \<open>What a write request may do beyond its disk\<close>

text \<open>A write request is not checked against the advertised capacity: one that starts at or
  past the end of the backing file succeeds and grows the file to the end of the request.\<close>

theorem blk_out_grows:
  fixes bufs :: "buf list"
  defines "data \<equiv> filter (\<lambda>b. \<not> writable b) (butlast (tl bufs))"
  defines "start ram \<equiv> unat (read_u64 ram (addr (hd bufs) + 8) * SECTOR)"
  assumes "2 \<le> length bufs" "read_u32 ram (addr (hd bufs)) = T_OUT" "blk_writable d"
    and host: "\<forall>o' xs. wr_err host o' xs = None"
    and fits: "start ram + bufs_capacity data < 2 ^ 64" and past: "length (disk d) \<le> start ram"
    and some: "0 < bufs_capacity data"
  shows "length (disk (fst (blk_handle host d queue ram bufs))) = start ram + bufs_capacity data"
proof -
  have "gather ram data \<noteq> []" using some length_gather by (metis length_greater_0_conv)
  then show ?thesis
    using assms(3-5) blk_out_gather [OF host, of "read_u64 ram (addr (hd bufs) + 8) * SECTOR" data "disk d" ram] fits past
    by (simp add: blk_handle_def Let_def data_def start_def T_IN_def T_OUT_def write_at_def)
qed

theorem blk_out_grows_witness:
  "length (disk (fst (blk_handle demo_disk_host ((demo_blk True)\<lparr>disk := []\<rparr>) 0 (demo_req 1) (demo_bufs False)))) = 4"
  using blk_out_grows [of "demo_bufs False" "demo_req 1" "(demo_blk True)\<lparr>disk := []\<rparr>" demo_disk_host 0]
  by (simp add: demo_bufs_def T_OUT_def SECTOR_def bufs_capacity_def)

end
