(* ===== verification/Net.thy ===== *)
theory Net
  imports Virtio_Mmio Limiter
begin

text \<open>
  virtio-net, \<open>amber-core/src/net.rs\<close>.  The host side is the trait \<open>NetBackend\<close>, a record of
  operations on a backend state here; the device gathers transmit chains into frames, prefixes
  received frames with the virtio header, and applies the rate caps.  Readings of the clock come
  from the argument \<open>clk\<close>, indexed by a counter kept in the device.
\<close>

record 'b net_backend =
  nb_send :: "'b \<Rightarrow> bytes \<Rightarrow> 'b"
  nb_poll :: "'b \<Rightarrow> 'b \<times> bytes option"
  nb_mac :: "'b \<Rightarrow> bytes"
  nb_wants_poll :: "'b \<Rightarrow> bool"

definition default_mac :: bytes where
  "default_mac = [0x52, 0x54, 0x00, 0x12, 0x34, 0x56]"

text \<open>\<open>CaptureBackend\<close>: transmits are logged, nothing is received.  The log line is the
  backend's only observable effect and is kept as its state.\<close>

datatype ethertype = ARP | IPv4 | IPv6 | OtherType

definition capture_kind :: "bytes \<Rightarrow> ethertype" where
  "capture_kind frame =
     (let et = (if 14 \<le> length frame
                then push_bit 8 (ucast (frame ! 12)) OR ucast (frame ! 13) else 0 :: u16)
      in if et = 0x0806 then ARP else if et = 0x0800 then IPv4
         else if et = 0x86dd then IPv6 else OtherType)"

definition capture_backend :: "(nat \<times> ethertype) list net_backend" where
  "capture_backend =
     \<lparr>nb_send = (\<lambda>log frame. log @ [(length frame, capture_kind frame)]),
      nb_poll = (\<lambda>log. (log, None)), nb_mac = (\<lambda>_. default_mac), nb_wants_poll = (\<lambda>_. False)\<rparr>"

definition VIRTIO_NET_HDR_LEN :: nat where "VIRTIO_NET_HDR_LEN = 12"
definition MAX_TX_FRAME :: nat where "MAX_TX_FRAME = 64 * 1024"
definition NET_RX :: nat where "NET_RX = 0"
definition NET_TX :: nat where "NET_TX = 1"
definition NET_F_MAC :: u32 where "NET_F_MAC = push_bit 5 1"
definition NET_F_VERSION_1 :: u32 where "NET_F_VERSION_1 = 1"

record 'b net_device =
  backend :: 'b
  mac :: bytes
  tx_limit :: "token_bucket option"
  rx_limit :: "token_bucket option"
  net_pending_rx :: "bytes option"
  tx_debt :: "rat option"
  net_ticks :: nat

definition net_new :: "'b net_backend \<Rightarrow> 'b \<Rightarrow> string option \<Rightarrow> rat \<Rightarrow> rat \<Rightarrow> 'b net_device" where
  "net_new nb b env now now' =
     \<lparr>backend = b, mac = nb_mac nb b, tx_limit = from_env env now, rx_limit = from_env env now',
      net_pending_rx = None, tx_debt = None, net_ticks = 0\<rparr>"

definition net_device_features :: "'b net_device \<Rightarrow> u32 \<Rightarrow> u32" where
  "net_device_features d sel =
     (if sel = 0 then NET_F_MAC else if sel = 1 then NET_F_VERSION_1 else 0)"

definition net_config :: "'b net_device \<Rightarrow> u64 \<Rightarrow> u32" where
  "net_config d off =
     from_le (map (\<lambda>i. let idx = unat (off + of_nat i)
                       in if idx < length (mac d) then mac d ! idx else 0) [0..<4])"

text \<open>The gather loop of the transmit path; \<open>frame\<close> is what was collected so far.\<close>

fun tx_gather :: "guest_ram \<Rightarrow> buf list \<Rightarrow> bytes \<Rightarrow> bytes" where
  "tx_gather ram [] frame = frame"
| "tx_gather ram (b # bs) frame =
     (if MAX_TX_FRAME \<le> length frame then frame
      else
        let n = min (unat (len b)) (MAX_TX_FRAME - length frame)
        in tx_gather ram bs (frame @ ram_bytes ram (addr b) n))"

definition net_send :: "'b net_backend \<Rightarrow> (nat \<Rightarrow> rat) \<Rightarrow> 'b net_device \<Rightarrow> bytes \<Rightarrow> 'b net_device" where
  "net_send nb clk d frame =
     (if VIRTIO_NET_HDR_LEN < length frame then
        let d1 =
          (case tx_limit d of None \<Rightarrow> d
           | Some l \<Rightarrow>
               case debit l (clk (net_ticks d)) (clk (Suc (net_ticks d)))
                      (of_nat (length frame - VIRTIO_NET_HDR_LEN)) of
                 (l', debt) \<Rightarrow>
                   d\<lparr>tx_limit := Some l', tx_debt := debt, net_ticks := Suc (Suc (net_ticks d))\<rparr>)
        in d1\<lparr>backend := nb_send nb (backend d1) (drop VIRTIO_NET_HDR_LEN frame)\<rparr>
      else d)"

definition net_handle ::
  "'b net_backend \<Rightarrow> (nat \<Rightarrow> rat) \<Rightarrow> 'b net_device \<Rightarrow> nat \<Rightarrow> guest_ram \<Rightarrow> buf list \<Rightarrow> 'b net_device \<times> guest_ram \<times> u32" where
  "net_handle nb clk d queue ram bufs =
     (if queue = NET_TX
      then (net_send nb clk d (tx_gather ram (filter (\<lambda>b. \<not> writable b) bufs) []), ram, 0)
      else (d, ram, 0))"

definition net_take_throttle :: "'b net_device \<Rightarrow> 'b net_device \<times> rat option" where
  "net_take_throttle d = (d\<lparr>tx_debt := None\<rparr>, tx_debt d)"

definition net_rx_header :: bytes where
  "net_rx_header = (replicate VIRTIO_NET_HDR_LEN 0)[10 := 1]"

definition net_poll_rx ::
  "'b net_backend \<Rightarrow> (nat \<Rightarrow> rat) \<Rightarrow> 'b net_device \<Rightarrow> nat \<Rightarrow> 'b net_device \<times> bytes option" where
  "net_poll_rx nb clk d max_frame =
     (case (case net_pending_rx d of
              Some f \<Rightarrow> (d\<lparr>net_pending_rx := None\<rparr>, Some f)
            | None \<Rightarrow> (case nb_poll nb (backend d) of (b, f) \<Rightarrow> (d\<lparr>backend := b\<rparr>, f))) of
        (d1, None) \<Rightarrow> (d1, None)
      | (d1, Some frame) \<Rightarrow>
          (case rx_limit d1 of
             None \<Rightarrow> (d1, Some (net_rx_header @ frame))
           | Some l \<Rightarrow>
               (case try_take l (clk (net_ticks d1)) (of_nat (length frame)) of
                  (l', ok) \<Rightarrow>
                    let d2 = d1\<lparr>rx_limit := Some l', net_ticks := Suc (net_ticks d1)\<rparr>
                    in if ok then (d2, Some (net_rx_header @ frame))
                       else (d2\<lparr>net_pending_rx := Some frame\<rparr>, None))))"

definition net_ops :: "'b net_backend \<Rightarrow> (nat \<Rightarrow> rat) \<Rightarrow> 'b net_device virtio_ops" where
  "net_ops nb clk = (virtio_default_ops 1 (net_handle nb clk))
     \<lparr>op_num_queues := 2, op_device_features := net_device_features, op_config := net_config,
      op_rx_queue := Some NET_RX,
      op_wants_poll := (\<lambda>d. net_pending_rx d \<noteq> None \<or> nb_wants_poll nb (backend d)),
      op_take_throttle := net_take_throttle, op_poll_rx := net_poll_rx nb clk\<rparr>"


section \<open>The contract of the transport\<close>

definition net_ok :: "'b net_device \<Rightarrow> bool" where
  "net_ok d \<longleftrightarrow> (\<forall>l. tx_limit d = Some l \<longrightarrow> bucket_ok l) \<and> (\<forall>l. rx_limit d = Some l \<longrightarrow> bucket_ok l)"

lemma net_send_ok: "net_ok d \<Longrightarrow> net_ok (net_send nb clk d frame)"
  by (auto simp: net_ok_def net_send_def Let_def split: option.split prod.split dest: debit_okD)

lemma net_limits_ok: "\<lbrakk>net_ok d; tx_limit d' = tx_limit d; rx_limit d' = rx_limit d\<rbrakk> \<Longrightarrow> net_ok d'"
  by (simp add: net_ok_def)

text \<open>The frame the receive path works on: the deferred one, or the backend's next.\<close>

definition rx_source :: "'b net_backend \<Rightarrow> 'b net_device \<Rightarrow> 'b net_device \<times> bytes option" where
  "rx_source nb d =
     (case net_pending_rx d of
        Some f \<Rightarrow> (d\<lparr>net_pending_rx := None\<rparr>, Some f)
      | None \<Rightarrow> (case nb_poll nb (backend d) of (b, f) \<Rightarrow> (d\<lparr>backend := b\<rparr>, f)))"

lemma rx_source_limits:
  "rx_source nb d = (d1, f) \<Longrightarrow> tx_limit d1 = tx_limit d \<and> rx_limit d1 = rx_limit d"
  by (auto simp: rx_source_def split: option.splits prod.splits)

lemma net_poll_ok:
  assumes "net_ok d"
  shows "net_ok (fst (net_poll_rx nb clk d n))"
proof -
  obtain d1 f where s: "rx_source nb d = (d1, f)" by fastforce
  have ok: "net_ok d1" using rx_source_limits [OF s] assms by (simp add: net_ok_def)
  show ?thesis
  proof (cases f)
    case None
    with s ok show ?thesis unfolding net_poll_rx_def rx_source_def [symmetric] by simp
  next
    case (Some frame)
    show ?thesis
    proof (cases "rx_limit d1")
      case None
      with s Some ok show ?thesis unfolding net_poll_rx_def rx_source_def [symmetric] by simp
    next
      case (Some l)
      obtain l' r where t: "try_take l (clk (net_ticks d1)) (of_nat (length frame)) = (l', r)" by fastforce
      have "bucket_ok l'" using try_take_okD [OF t] ok Some by (simp add: net_ok_def)
      with s Some ok t \<open>f = Some frame\<close> show ?thesis
        unfolding net_poll_rx_def rx_source_def [symmetric] by (simp add: net_ok_def Let_def)
    qed
  qed
qed

lemma net_ops_simps [simp]:
  "op_handle (net_ops nb clk) = net_handle nb clk" "op_ack_config (net_ops nb clk) = (\<lambda>d. d)"
  "op_poll_rx (net_ops nb clk) = net_poll_rx nb clk"
  "op_take_throttle (net_ops nb clk) = net_take_throttle"
  "op_num_queues (net_ops nb clk) = 2" "op_rx_queue (net_ops nb clk) = Some NET_RX"
  "op_event_queue (net_ops nb clk) = None"
  by (simp_all add: net_ops_def virtio_default_ops_def)

interpretation net: confined_device "net_ops nb clk" net_ok writable_foot for nb :: "'b net_backend" and clk
  by unfold_locales
    (simp_all add: net_handle_def net_send_ok net_poll_ok, simp_all add: net_take_throttle_def net_ok_def)


section \<open>Frames\<close>

lemma tx_gather_prefix:
  assumes "\<forall>b \<in> set bs. buf_ok ram b" "length frame \<le> MAX_TX_FRAME"
  shows "tx_gather ram bs frame = take MAX_TX_FRAME (frame @ gather ram bs)"
  using assms
proof (induction ram bs frame rule: tx_gather.induct)
  case (1 ram frame)
  then show ?case by (simp add: gather_def)
next
  case (2 ram b bs frame)
  show ?case
  proof (cases "MAX_TX_FRAME \<le> length frame")
    case False
    let ?n = "min (unat (len b)) (MAX_TX_FRAME - length frame)"
    have t: "take ?n (ram_bytes ram (addr b) (unat (len b))) = ram_bytes ram (addr b) ?n"
    proof (cases "len b = 0")
      case False
      with 2(2) have "in_range ram (addr b) (unat (len b))" by (simp add: buf_ok_def)
      then show ?thesis by (rule ram.take_rd) simp
    qed simp
    have ih: "tx_gather ram bs (frame @ ram_bytes ram (addr b) ?n) =
        take MAX_TX_FRAME ((frame @ ram_bytes ram (addr b) ?n) @ gather ram bs)"
      using 2(1) [OF False refl] 2(2,3) by simp
    show ?thesis
    proof (cases "unat (len b) \<le> MAX_TX_FRAME - length frame")
      case True
      then show ?thesis using False ih by (simp add: gather_Cons Let_def min_def)
    next
      case beyond: False
      then have "ram_bytes ram (addr b) ?n = take (MAX_TX_FRAME - length frame) (ram_bytes ram (addr b) (unat (len b)))"
        using t by (simp add: min_def)
      then show ?thesis using False ih beyond by (simp add: gather_Cons Let_def min_def)
    qed
  next
    case True
    with 2(3) show ?thesis by simp
  qed
qed

text \<open>One poll moves frames without losing, duplicating or reordering them: what was deferred, then
  what the backend produced, is what was delivered, then what is deferred now.\<close>

definition opt_list :: "'a option \<Rightarrow> 'a list" where
  "opt_list x = (case x of None \<Rightarrow> [] | Some a \<Rightarrow> [a])"

definition rx_pulled :: "'b net_backend \<Rightarrow> 'b net_device \<Rightarrow> bytes list" where
  "rx_pulled nb d = (if net_pending_rx d = None then opt_list (snd (nb_poll nb (backend d))) else [])"

lemma length_net_rx_header [simp]: "length net_rx_header = VIRTIO_NET_HDR_LEN"
  by (simp add: net_rx_header_def)

lemma net_poll_conserves:
  assumes "net_poll_rx nb clk d n = (d', out)"
  shows "opt_list (net_pending_rx d) @ rx_pulled nb d =
           map (drop VIRTIO_NET_HDR_LEN) (opt_list out) @ opt_list (net_pending_rx d')"
proof -
  obtain d1 f where s: "rx_source nb d = (d1, f)" by fastforce
  have f: "opt_list f = opt_list (net_pending_rx d) @ rx_pulled nb d" "net_pending_rx d1 = None"
    using s by (auto simp: rx_source_def rx_pulled_def opt_list_def split: option.splits prod.splits)
  have p: "net_poll_rx nb clk d n =
      (case (d1, f) of (d1, None) \<Rightarrow> (d1, None)
       | (d1, Some frame) \<Rightarrow>
          (case rx_limit d1 of None \<Rightarrow> (d1, Some (net_rx_header @ frame))
           | Some l \<Rightarrow>
               (case try_take l (clk (net_ticks d1)) (of_nat (length frame)) of
                  (l', ok) \<Rightarrow>
                    let d2 = d1\<lparr>rx_limit := Some l', net_ticks := Suc (net_ticks d1)\<rparr>
                    in if ok then (d2, Some (net_rx_header @ frame))
                       else (d2\<lparr>net_pending_rx := Some frame\<rparr>, None))))"
    unfolding net_poll_rx_def rx_source_def [symmetric] s ..
  have "opt_list f = map (drop VIRTIO_NET_HDR_LEN) (opt_list out) @ opt_list (net_pending_rx d')"
    using assms f(2) unfolding p
    by (auto simp: opt_list_def Let_def split: option.splits prod.splits if_splits)
  with f(1) show ?thesis by simp
qed

end
