(* ===== verification/Net_Props.thy ===== *)
theory Net_Props
  imports Net
begin

text \<open>
  The properties of the rate limiter and of the network device.
\<close>

section \<open>The rate bound\<close>




section \<open>Transmit\<close>

text \<open>A transmit chain hands the backend one frame: the first 64 KiB of the chain's
  device-readable buffers in order, without the virtio-net header; a chain no longer than the
  header sends nothing.  Guest memory is untouched and nothing is reported written.\<close>

theorem net_tx_frame:
  fixes bufs :: "buf list"
  defines "frame ram \<equiv> take MAX_TX_FRAME (gather ram (filter (\<lambda>b. \<not> writable b) bufs))"
  assumes "list_all (buf_ok ram) bufs"
  shows "\<exists>d'. net_handle nb clk d NET_TX ram bufs = (d', ram, 0) \<and>
     backend d' = (if VIRTIO_NET_HDR_LEN < length (frame ram)
                   then nb_send nb (backend d) (drop VIRTIO_NET_HDR_LEN (frame ram)) else backend d)"
proof -
  have "tx_gather ram (filter (\<lambda>b. \<not> writable b) bufs) [] = frame ram"
    unfolding frame_def using assms(2) by (subst tx_gather_prefix) (auto simp: list_all_iff)
  then show ?thesis
    by (simp add: net_handle_def net_send_def Let_def split: option.split prod.split)
qed

definition demo_net_ram :: guest_ram where
  "demo_net_ram = \<lparr>base = 0x1000, mem = replicate 12 0 @ [1, 2, 3, 4]\<rparr>"

definition demo_nb :: "bytes list net_backend" where
  "demo_nb = \<lparr>nb_send = \<lambda>b f. b @ [f], nb_poll = \<lambda>b. case b of [] \<Rightarrow> ([], None) | f # fs \<Rightarrow> (fs, Some f),
     nb_mac = \<lambda>_. [2, 0, 0, 0, 0, 1], nb_wants_poll = \<lambda>_. False\<rparr>"

theorem net_tx_frame_witness:
  "backend (fst (net_handle demo_nb (\<lambda>_. 0) (net_new demo_nb [] None 0 0) NET_TX demo_net_ram
      [\<lparr>addr = 0x1000, len = 16, writable = False\<rparr>])) = [[1, 2, 3, 4]]"
proof -
  have r: "in_range demo_net_ram 0x1000 16"
    by (simp add: in_range_def offset_def checked_sub_def demo_net_ram_def)
  have g: "gather demo_net_ram [\<lparr>addr = 0x1000, len = 16, writable = False\<rparr>] = replicate 12 0 @ [1, 2, 3, 4]"
    using r by (simp add: gather_def ram_read_def in_range_offset) (simp add: demo_net_ram_def bslice_def)
  have "list_all (buf_ok demo_net_ram) [\<lparr>addr = 0x1000, len = 16, writable = False\<rparr>]"
    using r by (simp add: buf_ok_def MAX_DESC_LEN_def)
  from net_tx_frame [OF this, of demo_nb "\<lambda>_. 0" "net_new demo_nb [] None 0 0"] g show ?thesis
    by (auto simp: VIRTIO_NET_HDR_LEN_def MAX_TX_FRAME_def net_new_def demo_nb_def)
qed

text \<open>Frames sent back to back in one notification each overwrite the debt the transport will
  sleep off: after two over-budget frames the recorded wait covers the second frame only, although
  the first one's deficit was never paid.\<close>

theorem net_debt_overwritten:
  assumes "tx_limit d = Some l" "bucket_ok l" "\<forall>i. clk i = last_refill l"
    and "length f1 = VIRTIO_NET_HDR_LEN + n1" "length f2 = VIRTIO_NET_HDR_LEN + n2" "0 < n2"
    and "tokens l < rat_of_nat n1" "n1 < 2 ^ 64" "n2 < 2 ^ 64"
  shows "tx_debt (net_send nb clk d f1) = Some ((rat_of_nat n1 - tokens l) / rate l) \<and>
         tx_debt (net_send nb clk (net_send nb clk d f1) f2) = Some (rat_of_nat n2 / rate l)"
proof -
  have f: "as_f64 (of_nat n1) = rat_of_nat n1" "as_f64 (of_nat n2) = rat_of_nat n2"
    using assms(8,9) by (simp_all only: as_f64_def unat_of_nat) simp_all
  have "refill l (last_refill l) = l" using assms(2) by (simp add: refill_def bucket_ok_def)
  then have 1: "debit l (last_refill l) (last_refill l) (of_nat n1) =
      (l\<lparr>tokens := 0, last_refill := last_refill l + (rat_of_nat n1 - tokens l) / rate l\<rparr>,
       Some ((rat_of_nat n1 - tokens l) / rate l))" (is "_ = (?l, _)")
    using assms(7) by (simp add: debit_def f Let_def diff_divide_distrib)
  have w: "0 \<le> (rat_of_nat n1 - tokens l) / rate l" using assms(2,7) by (simp add: bucket_ok_def)
  have "refill ?l (last_refill l) = l\<lparr>tokens := 0\<rparr>"
    using assms(2) w by (cases l) (simp add: refill_def bucket_ok_def max_def)
  then have 2: "snd (debit ?l (last_refill l) (last_refill l) (of_nat n2)) = Some (rat_of_nat n2 / rate l)"
    using assms(6) by (simp add: debit_def f)
  have "0 < n1" using assms(2,7) by (cases n1) (simp_all add: bucket_ok_def)
  with 1 2 assms(1,3-6) show ?thesis by (auto simp: net_send_def Let_def split: prod.splits)
qed

theorem net_debt_overwritten_witness:
  "\<exists>d. tx_debt (net_send demo_nb (\<lambda>_. 0) d (replicate 112 0)) = Some 9 \<and>
       tx_debt (net_send demo_nb (\<lambda>_. 0) (net_send demo_nb (\<lambda>_. 0) d (replicate 112 0)) (replicate 22 0)) = Some 1"
proof -
  let ?l = "\<lparr>rate = 10, tokens = 10, last_refill = 0\<rparr>"
  let ?d = "(net_new demo_nb [] None 0 0)\<lparr>tx_limit := Some ?l\<rparr>"
  have "bucket_ok ?l" by (simp add: bucket_ok_def)
  from net_debt_overwritten [OF _ this, of ?d "\<lambda>_. 0" "replicate 112 0" 100 "replicate 22 0" 10 demo_nb]
  show ?thesis by (intro exI [of _ ?d]) (simp add: VIRTIO_NET_HDR_LEN_def)
qed


section \<open>Receive\<close>

text \<open>A run of receive polls: the frames delivered to the transport and those pulled out of the
  backend.\<close>

fun net_polls ::
  "'b net_backend \<Rightarrow> (nat \<Rightarrow> rat) \<Rightarrow> 'b net_device \<Rightarrow> nat list \<Rightarrow> 'b net_device \<times> bytes list \<times> bytes list" where
  "net_polls nb clk d [] = (d, [], [])"
| "net_polls nb clk d (n # ns) =
     (case net_poll_rx nb clk d n of
        (d1, out) \<Rightarrow>
          (case net_polls nb clk d1 ns of
             (d2, outs, pulled) \<Rightarrow> (d2, opt_list out @ outs, rx_pulled nb d @ pulled)))"

text \<open>Whatever the receive limiter does, polling loses, duplicates and reorders nothing: the
  frame held back before the run followed by the frames pulled from the backend are the frames
  delivered, without their headers, followed by the frame held back now.\<close>

theorem net_rx_conserves:
  "case net_polls nb clk d ns of (d', outs, pulled) \<Rightarrow>
     opt_list (net_pending_rx d) @ pulled =
       map (drop VIRTIO_NET_HDR_LEN) outs @ opt_list (net_pending_rx d')"
proof (induction nb clk d ns rule: net_polls.induct)
  case (2 nb clk d n ns)
  obtain d1 out where p: "net_poll_rx nb clk d n = (d1, out)" by fastforce
  obtain d2 outs pulled where q: "net_polls nb clk d1 ns = (d2, outs, pulled)" by (metis prod_cases3)
  have "opt_list (net_pending_rx d1) @ pulled = map (drop VIRTIO_NET_HDR_LEN) outs @ opt_list (net_pending_rx d2)"
    using "2.IH" [OF p [symmetric]] q by simp
  with net_poll_conserves [OF p] p q show ?case by simp (metis append.assoc)
qed simp

end
