(* ===== verification/Vsock.thy ===== *)
theory Vsock
  imports Virtio_Mmio Text
begin

text \<open>
  virtio-vsock, \<open>amber-core/src/vsock.rs\<close>: the packet codec, the connection table, credit flow
  control in both directions, and the pump between guest packets and host Unix sockets.  The
  host side (\<open>VsockBackend\<close> and the sockets) is the record \<open>vsock_host\<close>, an argument of the
  operations.  A socket never accepts more than it is offered and never returns more than it is
  asked for; \<open>stream_write\<close> and \<open>stream_read\<close> build that documented bound in.  A \<open>VecDeque\<close>
  is a list, read as one contiguous slice.
\<close>

section \<open>Constants and state\<close>

definition HDR_LEN :: nat where "HDR_LEN = 44"
definition TYPE_STREAM :: u16 where "TYPE_STREAM = 1"
definition CID_HOST :: u64 where "CID_HOST = 2"
definition EPHEMERAL_BASE :: u32 where "EPHEMERAL_BASE = 1024"
definition OP_REQUEST :: u16 where "OP_REQUEST = 1"
definition OP_RESPONSE :: u16 where "OP_RESPONSE = 2"
definition OP_RST :: u16 where "OP_RST = 3"
definition OP_SHUTDOWN :: u16 where "OP_SHUTDOWN = 4"
definition OP_RW :: u16 where "OP_RW = 5"
definition OP_CREDIT_UPDATE :: u16 where "OP_CREDIT_UPDATE = 6"
definition OP_CREDIT_REQUEST :: u16 where "OP_CREDIT_REQUEST = 7"
definition BUF_ALLOC :: u32 where "BUF_ALLOC = 256 * 1024"
definition MAX_PACKET :: nat where "MAX_PACKET = HDR_LEN + unat BUF_ALLOC"

datatype write_result = WOk nat | WBlock | WErr
datatype read_result = ROk bytes | RBlock | RErr

record ('b, 's) vsock_host =
  vh_dial :: "'b \<Rightarrow> u32 \<Rightarrow> 'b \<times> 's option"
  vh_accept :: "'b \<Rightarrow> 'b \<times> (u32 \<times> 's) list"
  vh_write :: "'s \<Rightarrow> bytes \<Rightarrow> 's \<times> write_result"
  vh_read :: "'s \<Rightarrow> nat \<Rightarrow> 's \<times> read_result"

definition stream_write :: "('b, 's) vsock_host \<Rightarrow> 's \<Rightarrow> bytes \<Rightarrow> 's \<times> write_result" where
  "stream_write h s bs =
     (case vh_write h s bs of (s', WOk n) \<Rightarrow> (s', WOk (min n (length bs))) | r \<Rightarrow> r)"

definition stream_read :: "('b, 's) vsock_host \<Rightarrow> 's \<Rightarrow> nat \<Rightarrow> 's \<times> read_result" where
  "stream_read h s k = (case vh_read h s k of (s', ROk bs) \<Rightarrow> (s', ROk (take k bs)) | r \<Rightarrow> r)"

text \<open>The line a host peer sends first, \<open>CONNECT <port>\<close>: at most 32 bytes up to the newline are
  kept, and the port is parsed from what follows the keyword.\<close>

fun connect_line :: "string \<Rightarrow> string \<Rightarrow> string" where
  "connect_line acc [] = acc"
| "connect_line acc (c # cs) =
     (if c = CHR 0x0A then acc else if length acc < 32 then connect_line (acc @ [c]) cs else acc)"

definition connect_port :: "string \<Rightarrow> u32 option" where
  "connect_port input =
     (let line = connect_line [] input; kw = ''CONNECT '' in
      if take (length kw) line = kw
      then map_option of_nat (parse_unsigned 32 (trim (drop (length kw) line))) else None)"

record 's conn =
  guest_port :: u32
  host_port :: u32
  stream :: 's
  peer_buf_alloc :: u32
  peer_fwd_cnt :: u32
  tx_cnt :: u32
  fwd_cnt :: u32
  to_host :: bytes
  up :: bool
  host_done :: bool

definition guest_window :: "'s conn \<Rightarrow> u32" where
  "guest_window c = saturating_sub (peer_buf_alloc c) (tx_cnt c - peer_fwd_cnt c)"

record ('b, 's) vsock_device =
  vs_backend :: 'b
  guest_cid :: u64
  conns :: "'s conn list"
  rx :: "bytes list"
  next_host_port :: u32

definition vsock_new :: "u64 \<Rightarrow> 'b \<Rightarrow> ('b, 's) vsock_device" where
  "vsock_new cid b =
     \<lparr>vs_backend = b, guest_cid = cid, conns = [], rx = [], next_host_port = EPHEMERAL_BASE\<rparr>"

fun find_conn :: "u32 \<Rightarrow> u32 \<Rightarrow> 's conn list \<Rightarrow> nat option" where
  "find_conn gp hp [] = None"
| "find_conn gp hp (c # cs) =
     (if guest_port c = gp \<and> host_port c = hp then Some 0 else map_option Suc (find_conn gp hp cs))"


section \<open>Port allocation\<close>

definition next_port :: "u32 \<Rightarrow> u32" where
  "next_port hp = (if hp = - 1 then EPHEMERAL_BASE else hp + 1)"

text \<open>The search loop; \<open>i\<close> counts the iterations done so far.\<close>

function alloc_from :: "'s conn list \<Rightarrow> u32 \<Rightarrow> u32 \<Rightarrow> u32 \<Rightarrow> u32 \<times> u32" where
  "alloc_from cs gp i hp =
     (if find_conn gp hp cs = None then (hp, next_port hp)
      else if - 1 - EPHEMERAL_BASE \<le> i then (EPHEMERAL_BASE, next_port hp)
      else alloc_from cs gp (i + 1) (next_port hp))"
  by pat_completeness auto
termination
proof (relation "measure (\<lambda>(cs, gp, i, hp). unat (- 1 - EPHEMERAL_BASE - i))")
  fix i :: u32
  assume "\<not> - 1 - EPHEMERAL_BASE \<le> i"
  then have "unat (- 1 - EPHEMERAL_BASE - i) = Suc (unat (- 1 - EPHEMERAL_BASE - (i + 1)))"
    by (intro word_distance_Suc) auto
  then show "((cs, gp, i + 1, next_port hp), cs, gp, i, hp)
      \<in> measure (\<lambda>(cs, gp, i, hp). unat (- 1 - EPHEMERAL_BASE - i))" for cs gp hp by simp
qed simp

declare alloc_from.simps [simp del]

definition alloc_host_port :: "('b, 's) vsock_device \<Rightarrow> u32 \<Rightarrow> ('b, 's) vsock_device \<times> u32" where
  "alloc_host_port d gp =
     (case alloc_from (conns d) gp 0 (next_host_port d) of
        (hp, nxt) \<Rightarrow> (d\<lparr>next_host_port := nxt\<rparr>, hp))"


section \<open>Packets\<close>

definition packet :: "u64 \<Rightarrow> u32 \<Rightarrow> u32 \<Rightarrow> u16 \<Rightarrow> u32 \<Rightarrow> bytes \<Rightarrow> bytes" where
  "packet cid gp hp op fwd payload =
     to_le 8 CID_HOST @ to_le 8 cid @ to_le 4 hp @ to_le 4 gp @
     to_le 4 (of_nat (length payload) :: u32) @ to_le 2 TYPE_STREAM @ to_le 2 op @
     replicate 4 0 @ to_le 4 BUF_ALLOC @ to_le 4 fwd @ payload"

definition send :: "('b, 's) vsock_device \<Rightarrow> u32 \<Rightarrow> u32 \<Rightarrow> u16 \<Rightarrow> u32 \<Rightarrow> bytes \<Rightarrow> ('b, 's) vsock_device" where
  "send d gp hp op fwd payload = d\<lparr>rx := rx d @ [packet (guest_cid d) gp hp op fwd payload]\<rparr>"

record guest_packet =
  gp_dst_cid :: u64
  gp_src_port :: u32
  gp_dst_port :: u32
  gp_op :: u16
  gp_buf_alloc :: u32
  gp_fwd_cnt :: u32
  gp_payload :: bytes

definition parse_packet :: "bytes \<Rightarrow> guest_packet option" where
  "parse_packet pkt =
     (if length pkt < HDR_LEN then None
      else
        let l = from_le (bslice 24 4 pkt) :: u32 in
        Some \<lparr>gp_dst_cid = from_le (bslice 8 8 pkt), gp_src_port = from_le (bslice 16 4 pkt),
              gp_dst_port = from_le (bslice 20 4 pkt), gp_op = from_le (bslice 30 2 pkt),
              gp_buf_alloc = from_le (bslice 36 4 pkt), gp_fwd_cnt = from_le (bslice 40 4 pkt),
              gp_payload = take (min (unat l) (length pkt - HDR_LEN)) (drop HDR_LEN pkt)\<rparr>)"

definition upd_conn :: "('b, 's) vsock_device \<Rightarrow> nat \<Rightarrow> ('s conn \<Rightarrow> 's conn) \<Rightarrow> ('b, 's) vsock_device" where
  "upd_conn d i f = d\<lparr>conns := (conns d)[i := f (conns d ! i)]\<rparr>"

definition refresh_window :: "('b, 's) vsock_device \<Rightarrow> guest_packet \<Rightarrow> ('b, 's) vsock_device" where
  "refresh_window d p =
     (case find_conn (gp_src_port p) (gp_dst_port p) (conns d) of
        None \<Rightarrow> d
      | Some i \<Rightarrow> upd_conn d i (\<lambda>c. c\<lparr>peer_buf_alloc := gp_buf_alloc p, peer_fwd_cnt := gp_fwd_cnt p\<rparr>))"

definition on_request ::
  "('b, 's) vsock_host \<Rightarrow> ('b, 's) vsock_device \<Rightarrow> guest_packet \<Rightarrow> ('b, 's) vsock_device" where
  "on_request h d p =
     (let gp = gp_src_port p; hp = gp_dst_port p in
      case vh_dial h (vs_backend d) hp of
        (b, Some s) \<Rightarrow>
          send (d\<lparr>vs_backend := b,
                  conns := conns d @ [\<lparr>guest_port = gp, host_port = hp, stream = s,
                    peer_buf_alloc = gp_buf_alloc p, peer_fwd_cnt = gp_fwd_cnt p, tx_cnt = 0,
                    fwd_cnt = 0, to_host = [], up = True, host_done = False\<rparr>]\<rparr>)
            gp hp OP_RESPONSE 0 []
      | (b, None) \<Rightarrow> send (d\<lparr>vs_backend := b\<rparr>) gp hp OP_RST 0 [])"

definition on_rw :: "('b, 's) vsock_device \<Rightarrow> guest_packet \<Rightarrow> ('b, 's) vsock_device" where
  "on_rw d p =
     (let gp = gp_src_port p; hp = gp_dst_port p in
      case find_conn gp hp (conns d) of
        None \<Rightarrow> d
      | Some i \<Rightarrow>
          if unat BUF_ALLOC < length (to_host (conns d ! i)) + length (gp_payload p)
          then send (upd_conn d i (\<lambda>c. c\<lparr>up := False, host_done := True\<rparr>)) gp hp OP_RST 0 []
          else upd_conn d i (\<lambda>c. c\<lparr>to_host := to_host c @ gp_payload p\<rparr>))"

definition dispatch_op ::
  "('b, 's) vsock_host \<Rightarrow> ('b, 's) vsock_device \<Rightarrow> guest_packet \<Rightarrow> ('b, 's) vsock_device" where
  "dispatch_op h d p =
     (let gp = gp_src_port p; hp = gp_dst_port p; op = gp_op p; found = find_conn gp hp (conns d) in
      if op = OP_REQUEST then on_request h d p
      else if op = OP_RESPONSE then
        (case found of None \<Rightarrow> d | Some i \<Rightarrow> upd_conn d i (\<lambda>c. c\<lparr>up := True\<rparr>))
      else if op = OP_RW then on_rw d p
      else if op = OP_CREDIT_REQUEST then
        send d gp hp OP_CREDIT_UPDATE
          (case found of None \<Rightarrow> 0 | Some i \<Rightarrow> fwd_cnt (conns d ! i)) []
      else if op = OP_CREDIT_UPDATE then d
      else if op = OP_SHUTDOWN \<or> op = OP_RST then
        (case found of None \<Rightarrow> d | Some i \<Rightarrow> upd_conn d i (\<lambda>c. c\<lparr>host_done := True, up := False\<rparr>))
      else d)"

definition on_guest_packet ::
  "('b, 's) vsock_host \<Rightarrow> ('b, 's) vsock_device \<Rightarrow> bytes \<Rightarrow> ('b, 's) vsock_device" where
  "on_guest_packet h d pkt =
     (case parse_packet pkt of
        None \<Rightarrow> d
      | Some p \<Rightarrow> if gp_dst_cid p \<noteq> CID_HOST then d else dispatch_op h (refresh_window d p) p)"



section \<open>The pump\<close>

text \<open>Guest to host: write queued bytes until the socket stops taking them.  The flag says whether
  any byte landed.\<close>

function drain :: "('b, 's) vsock_host \<Rightarrow> 's conn \<Rightarrow> bool \<Rightarrow> 's conn \<times> bool" where
  "drain h c changed =
     (if to_host c = [] then (c, changed)
      else case stream_write h (stream c) (to_host c) of
        (s, WOk n) \<Rightarrow>
          if n = 0 then (c\<lparr>stream := s\<rparr>, changed)
          else drain h (c\<lparr>stream := s, to_host := drop n (to_host c),
                          fwd_cnt := fwd_cnt c + of_nat n\<rparr>) True
      | (s, WBlock) \<Rightarrow> (c\<lparr>stream := s\<rparr>, changed)
      | (s, WErr) \<Rightarrow> (c\<lparr>stream := s, host_done := True\<rparr>, changed))"
  by pat_completeness auto
termination
  by (relation "measure (\<lambda>(h, c, ch). length (to_host c))") auto

declare drain.simps [simp del]

text \<open>Host to guest: read until the credit window, the socket or the buffer size stops it.  The
  payloads read are returned in order.\<close>

lemma guest_window_advance:
  assumes "n \<le> unat (guest_window c)"
  shows "unat (guest_window (c\<lparr>stream := s, tx_cnt := tx_cnt c + of_nat n\<rparr>)) = unat (guest_window c) - n"
proof -
  let ?f = "tx_cnt c - peer_fwd_cnt c"
  have w: "unat (guest_window c) = unat (peer_buf_alloc c) - unat ?f" by (simp add: guest_window_def)
  have "n < 2 ^ 32" using assms u32_bound [of "guest_window c"] by simp
  then have n: "unat (of_nat n :: u32) = n" by (simp add: unat_of_nat)
  show ?thesis
  proof (cases "n = 0")
    case False
    then have "unat ?f + n \<le> unat (peer_buf_alloc c)" using assms w by simp
    then have "unat ?f + n < 2 ^ 32" using u32_bound [of "peer_buf_alloc c"] by simp
    then have "unat (?f + of_nat n) = unat ?f + n"
      using unat_add_lem [of ?f "of_nat n"] n by simp
    then have "unat (tx_cnt c + of_nat n - peer_fwd_cnt c) = unat ?f + n" by (simp add: algebra_simps)
    then show ?thesis by (simp add: guest_window_def)
  qed (simp add: guest_window_def)
qed

lemma stream_read_length: "stream_read h s k = (s', ROk bs) \<Longrightarrow> length bs \<le> k"
  by (auto simp: stream_read_def split: prod.splits read_result.splits)

lemma fill_decreases:
  assumes "(s, ROk bs) = stream_read h (stream c) (min (unat (guest_window c)) mp)" "bs \<noteq> []"
  shows "unat (guest_window (c\<lparr>stream := s, tx_cnt := tx_cnt c + of_nat (length bs)\<rparr>))
           < unat (guest_window c)"
proof -
  have l: "length bs \<le> unat (guest_window c)" using stream_read_length [OF assms(1) [symmetric]] by simp
  moreover have "0 < length bs" using assms(2) by simp
  ultimately show ?thesis unfolding guest_window_advance [OF l] by linarith
qed

function fill :: "('b, 's) vsock_host \<Rightarrow> nat \<Rightarrow> 's conn \<Rightarrow> 's conn \<times> bytes list" where
  "fill h max_payload c =
     (let k = min (unat (guest_window c)) max_payload in
      if k = 0 then (c, [])
      else case stream_read h (stream c) k of
        (s, ROk bs) \<Rightarrow>
          if bs = [] then (c\<lparr>stream := s, host_done := True\<rparr>, [])
          else
            (case fill h max_payload (c\<lparr>stream := s, tx_cnt := tx_cnt c + of_nat (length bs)\<rparr>) of
               (c', ps) \<Rightarrow> (c', bs # ps))
      | (s, RBlock) \<Rightarrow> (c\<lparr>stream := s\<rparr>, [])
      | (s, RErr) \<Rightarrow> (c\<lparr>stream := s, host_done := True\<rparr>, []))"
  by pat_completeness auto
termination
  by (relation "measure (\<lambda>(h, mp, c). unat (guest_window c))") (auto intro: fill_decreases)

declare fill.simps [simp del]

definition send_rw :: "u32 \<Rightarrow> u32 \<Rightarrow> u32 \<Rightarrow> ('b, 's) vsock_device \<Rightarrow> bytes \<Rightarrow> ('b, 's) vsock_device" where
  "send_rw gp hp fwd d payload = send d gp hp OP_RW fwd payload"

definition pump_conn ::
  "('b, 's) vsock_host \<Rightarrow> nat \<Rightarrow> ('b, 's) vsock_device \<Rightarrow> nat \<Rightarrow> ('b, 's) vsock_device" where
  "pump_conn h max_payload d idx =
     (case drain h (conns d ! idx) False of
        (c1, changed) \<Rightarrow>
          let d1 = upd_conn d idx (\<lambda>_. c1);
              d2 = (if changed \<and> up c1
                    then send d1 (guest_port c1) (host_port c1) OP_CREDIT_UPDATE (fwd_cnt c1) [] else d1)
          in if up c1 then
               (case fill h max_payload c1 of
                  (c2, ps) \<Rightarrow>
                    upd_conn (foldl (send_rw (guest_port c1) (host_port c1) (fwd_cnt c1)) d2 ps) idx (\<lambda>_. c2))
             else d2)"

definition accept_one :: "('b, 's) vsock_device \<Rightarrow> u32 \<times> 's \<Rightarrow> ('b, 's) vsock_device" where
  "accept_one d peer =
     (case alloc_host_port d (fst peer) of
        (d1, hp) \<Rightarrow>
          send (d1\<lparr>conns := conns d1 @ [\<lparr>guest_port = fst peer, host_port = hp, stream = snd peer,
                   peer_buf_alloc = 0, peer_fwd_cnt = 0, tx_cnt = 0, fwd_cnt = 0, to_host = [],
                   up = False, host_done = False\<rparr>]\<rparr>)
            (fst peer) hp OP_REQUEST 0 [])"

definition dead :: "'s conn \<Rightarrow> bool" where
  "dead c \<longleftrightarrow> host_done c \<and> to_host c = []"

definition reap :: "('b, 's) vsock_device \<Rightarrow> ('b, 's) vsock_device" where
  "reap d =
     foldl (\<lambda>d c. send d (guest_port c) (host_port c) OP_SHUTDOWN (fwd_cnt c) [])
       (d\<lparr>conns := filter (\<lambda>c. \<not> dead c) (conns d)\<rparr>) (filter dead (conns d))"

definition pump :: "('b, 's) vsock_host \<Rightarrow> ('b, 's) vsock_device \<Rightarrow> nat \<Rightarrow> ('b, 's) vsock_device" where
  "pump h d max_payload =
     (case vh_accept h (vs_backend d) of
        (b, peers) \<Rightarrow>
          let d1 = foldl accept_one (d\<lparr>vs_backend := b\<rparr>) peers
          in reap (foldl (pump_conn h max_payload) d1 [0..<length (conns d1)]))"


section \<open>The virtio device\<close>

definition vsock_handle ::
  "('b, 's) vsock_host \<Rightarrow> ('b, 's) vsock_device \<Rightarrow> nat \<Rightarrow> guest_ram \<Rightarrow> buf list \<Rightarrow> ('b, 's) vsock_device \<times> guest_ram \<times> u32" where
  "vsock_handle h d queue ram bufs =
     (if queue = 1 then
        let readable = filter (\<lambda>b. \<not> writable b) bufs in
        if MAX_PACKET < sum_list (map (\<lambda>b. unat (len b)) readable) then (d, ram, 0)
        else (on_guest_packet h d
                (concat (map (\<lambda>b. ram_bytes ram (addr b) (unat (len b))) readable)), ram, 0)
      else (d, ram, 0))"

definition vsock_poll_rx ::
  "('b, 's) vsock_host \<Rightarrow> ('b, 's) vsock_device \<Rightarrow> nat \<Rightarrow> ('b, 's) vsock_device \<times> bytes option" where
  "vsock_poll_rx h d max_frame =
     (let d1 = (if rx d = [] then pump h d (max_frame - HDR_LEN) else d) in
      case rx d1 of [] \<Rightarrow> (d1, None) | p # ps \<Rightarrow> (d1\<lparr>rx := ps\<rparr>, Some p))"

definition vsock_config :: "('b, 's) vsock_device \<Rightarrow> u64 \<Rightarrow> u32" where
  "vsock_config d off =
     (if off = 0 then ucast (guest_cid d)
      else if off = 4 then ucast (drop_bit 32 (guest_cid d)) else 0)"

definition vsock_ops :: "('b, 's) vsock_host \<Rightarrow> ('b, 's) vsock_device virtio_ops" where
  "vsock_ops h = (virtio_default_ops 19 (vsock_handle h))
     \<lparr>op_num_queues := 3, op_config := vsock_config, op_rx_queue := Some 0, op_event_queue := Some 2,
      op_wants_poll := (\<lambda>_. True), op_poll_rx := vsock_poll_rx h\<rparr>"

end
