(* ===== verification/Vsock_Laws.thy ===== *)
theory Vsock_Laws
  imports Vsock
begin

text \<open>
  Laws of virtio-vsock: the packet codec round trip, the bound on what a guest can make the host
  buffer, the credit the guest granted is never exceeded, packets fit the buffer they were
  sized for, and port allocation finds a free port.
\<close>

section \<open>The codec\<close>

lemma bslice_append_left: "i + n \<le> length xs \<Longrightarrow> bslice i n (xs @ ys) = bslice i n xs"
  by (simp add: bslice_def)

lemma bslice_append_right: "length xs \<le> i \<Longrightarrow> bslice i n (xs @ ys) = bslice (i - length xs) n ys"
  by (simp add: bslice_def)

lemma bslice_all: "length xs = n \<Longrightarrow> bslice 0 n xs = xs"
  by (simp add: bslice_def)

lemma length_packet [simp]: "length (packet cid gp hp op fwd payload) = HDR_LEN + length payload"
  by (simp add: packet_def HDR_LEN_def)

lemma parse_packet_packet:
  assumes "length payload < 2 ^ 32"
  shows "parse_packet (packet cid gp hp op fwd payload) =
    Some \<lparr>gp_dst_cid = cid, gp_src_port = hp, gp_dst_port = gp, gp_op = op,
          gp_buf_alloc = BUF_ALLOC, gp_fwd_cnt = fwd, gp_payload = payload\<rparr>"
proof -
  note slices = bslice_append_left bslice_append_right bslice_all from_le_to_le
  have "drop HDR_LEN (packet cid gp hp op fwd payload) = payload"
    by (simp add: packet_def HDR_LEN_def)
  moreover have "unat (of_nat (length payload) :: u32) = length payload"
    using assms by (simp add: unat_of_nat)
  moreover have "bslice 8 8 (packet cid gp hp op fwd payload) = to_le 8 cid"
    "bslice 16 4 (packet cid gp hp op fwd payload) = to_le 4 hp"
    "bslice 20 4 (packet cid gp hp op fwd payload) = to_le 4 gp"
    "bslice 24 4 (packet cid gp hp op fwd payload) = to_le 4 (of_nat (length payload) :: u32)"
    "bslice 30 2 (packet cid gp hp op fwd payload) = to_le 2 op"
    "bslice 36 4 (packet cid gp hp op fwd payload) = to_le 4 BUF_ALLOC"
    "bslice 40 4 (packet cid gp hp op fwd payload) = to_le 4 fwd"
    by (simp_all add: packet_def slices)
  ultimately show ?thesis by (simp add: parse_packet_def Let_def from_le_to_le)
qed

lemma parse_packet_payload: "parse_packet pkt = Some p \<Longrightarrow> length (gp_payload p) \<le> length pkt - HDR_LEN"
  by (auto simp: parse_packet_def Let_def split: if_splits)


section \<open>Draining to the host\<close>

lemma drain_facts:
  "drain h c ch = (c', ch') \<Longrightarrow>
     (\<exists>n \<le> length (to_host c). to_host c' = drop n (to_host c) \<and> fwd_cnt c' = fwd_cnt c + of_nat n \<and>
        (ch' \<longleftrightarrow> ch \<or> 0 < n)) \<and>
     guest_port c' = guest_port c \<and> host_port c' = host_port c \<and> up c' = up c \<and>
     tx_cnt c' = tx_cnt c \<and> peer_buf_alloc c' = peer_buf_alloc c \<and> peer_fwd_cnt c' = peer_fwd_cnt c"
proof (induction h c ch rule: drain.induct)
  case (1 h c ch)
  show ?case
  proof (cases "to_host c = []")
    case True
    then show ?thesis using "1.prems" by (subst (asm) drain.simps) auto
  next
    case False
    obtain s r where w: "stream_write h (stream c) (to_host c) = (s, r)" by fastforce
    show ?thesis
    proof (cases r)
      case (WOk n)
      have n: "n \<le> length (to_host c)"
        using w WOk by (auto simp: stream_write_def split: prod.splits write_result.splits)
      show ?thesis
      proof (cases "n = 0")
        case True
        then show ?thesis using "1.prems" False w WOk by (subst (asm) drain.simps) (auto intro: exI [of _ 0])
      next
        case pos: False
        let ?c = "c\<lparr>stream := s, to_host := drop n (to_host c), fwd_cnt := fwd_cnt c + of_nat n\<rparr>"
        have "drain h ?c True = (c', ch')"
          using "1.prems" False w WOk pos by (subst (asm) drain.simps) simp
        from "1.IH" [OF False w [symmetric] WOk pos this] obtain m where
          m: "m \<le> length (drop n (to_host c))" "to_host c' = drop m (drop n (to_host c))"
            "fwd_cnt c' = fwd_cnt c + of_nat n + of_nat m" "ch'"
          and rest: "guest_port c' = guest_port c" "host_port c' = host_port c" "up c' = up c"
            "tx_cnt c' = tx_cnt c" "peer_buf_alloc c' = peer_buf_alloc c" "peer_fwd_cnt c' = peer_fwd_cnt c"
          by auto
        have "m + n \<le> length (to_host c) \<and> to_host c' = drop (m + n) (to_host c) \<and>
            fwd_cnt c' = fwd_cnt c + of_nat (m + n) \<and> (ch' \<longleftrightarrow> ch \<or> 0 < m + n)"
          using m n pos by (simp add: algebra_simps)
        with rest show ?thesis by blast
      qed
    next
      case WBlock
      then show ?thesis using "1.prems" False w by (subst (asm) drain.simps) (auto intro: exI [of _ 0])
    next
      case WErr
      then show ?thesis using "1.prems" False w by (subst (asm) drain.simps) (auto intro: exI [of _ 0])
    qed
  qed
qed


section \<open>Filling towards the guest\<close>

lemma fill_facts:
  "fill h mp c = (c', ps) \<Longrightarrow>
     sum_list (map length ps) \<le> unat (guest_window c) \<and>
     unat (guest_window c') = unat (guest_window c) - sum_list (map length ps) \<and>
     tx_cnt c' = tx_cnt c + of_nat (sum_list (map length ps)) \<and>
     (\<forall>p \<in> set ps. length p \<le> mp \<and> p \<noteq> []) \<and>
     guest_port c' = guest_port c \<and> host_port c' = host_port c \<and> up c' = up c \<and>
     to_host c' = to_host c \<and> fwd_cnt c' = fwd_cnt c \<and>
     peer_buf_alloc c' = peer_buf_alloc c \<and> peer_fwd_cnt c' = peer_fwd_cnt c"
proof (induction h mp c arbitrary: c' ps rule: fill.induct)
  case (1 h mp c)
  let ?k = "min (unat (guest_window c)) mp"
  have same: "guest_window (c\<lparr>stream := s\<rparr>) = guest_window c"
    "guest_window (c\<lparr>stream := s, host_done := b\<rparr>) = guest_window c" for s b
    by (simp_all add: guest_window_def)
  show ?case
  proof (cases "?k = 0")
    case True
    then show ?thesis using "1.prems" by (subst (asm) fill.simps) (auto simp: Let_def)
  next
    case False
    obtain s r where rd: "stream_read h (stream c) ?k = (s, r)" by fastforce
    show ?thesis
    proof (cases r)
      case (ROk bs)
      have l: "length bs \<le> ?k" by (rule stream_read_length) (use rd ROk in simp)
      show ?thesis
      proof (cases "bs = []")
        case True
        then show ?thesis using "1.prems" False rd ROk same by (subst (asm) fill.simps) (auto simp: Let_def)
      next
        case nonempty: False
        let ?c = "c\<lparr>stream := s, tx_cnt := tx_cnt c + of_nat (length bs)\<rparr>"
        obtain qs where f: "fill h mp ?c = (c', qs)" and ps: "ps = bs # qs"
          using "1.prems" False rd ROk nonempty
          by (subst (asm) fill.simps) (auto simp: Let_def split: prod.splits)
        have w: "unat (guest_window ?c) = unat (guest_window c) - length bs"
          by (rule guest_window_advance) (use l in simp)
        note ih = "1.IH" [OF refl False rd [symmetric] ROk nonempty f]
        have total: "sum_list (map length ps) = length bs + sum_list (map length qs)" by (simp add: ps)
        have le: "length bs \<le> unat (guest_window c)" using l by simp
        show ?thesis
          using ih w le l nonempty unfolding total
          by (auto simp: ps algebra_simps)
      qed
    next
      case RBlock
      then show ?thesis using "1.prems" False rd same by (subst (asm) fill.simps) (auto simp: Let_def)
    next
      case RErr
      then show ?thesis using "1.prems" False rd same by (subst (asm) fill.simps) (auto simp: Let_def)
    qed
  qed
qed



section \<open>The device invariant\<close>

text \<open>What a guest can make the host hold for one connection is its advertised window; packets
  waiting for the guest are well formed; the ephemeral port counter stays in its range.\<close>

definition conn_ok :: "'s conn \<Rightarrow> bool" where
  "conn_ok c \<longleftrightarrow> length (to_host c) \<le> unat BUF_ALLOC"

definition vsock_ok :: "('b, 's) vsock_device \<Rightarrow> bool" where
  "vsock_ok d \<longleftrightarrow> (\<forall>c \<in> set (conns d). conn_ok c) \<and> EPHEMERAL_BASE \<le> next_host_port d \<and>
     (\<forall>p \<in> set (rx d). HDR_LEN \<le> length p)"

lemma send_simps [simp]:
  "conns (send d gp hp op fwd pl) = conns d" "next_host_port (send d gp hp op fwd pl) = next_host_port d"
  "rx (send d gp hp op fwd pl) = rx d @ [packet (guest_cid d) gp hp op fwd pl]"
  "guest_cid (send d gp hp op fwd pl) = guest_cid d" "vs_backend (send d gp hp op fwd pl) = vs_backend d"
  by (simp_all add: send_def)

lemma send_ok [simp]: "vsock_ok (send d gp hp op fwd pl) = vsock_ok d"
  by (auto simp: vsock_ok_def)

lemma upd_conn_simps [simp]:
  "rx (upd_conn d i f) = rx d" "next_host_port (upd_conn d i f) = next_host_port d"
  "length (conns (upd_conn d i f)) = length (conns d)" "guest_cid (upd_conn d i f) = guest_cid d"
  by (simp_all add: upd_conn_def)

lemma upd_conn_ok:
  "\<lbrakk>vsock_ok d; conn_ok (f (conns d ! i))\<rbrakk> \<Longrightarrow> vsock_ok (upd_conn d i f)"
  by (auto simp: vsock_ok_def upd_conn_def dest: set_update_subset_insert [THEN subsetD])

lemma find_conn_Some:
  "find_conn gp hp cs = Some i \<Longrightarrow> i < length cs \<and> guest_port (cs ! i) = gp \<and> host_port (cs ! i) = hp"
  by (induction cs arbitrary: i) (auto split: if_splits)

lemma find_conn_None_iff:
  "find_conn gp hp cs = None \<longleftrightarrow> (\<forall>c \<in> set cs. \<not> (guest_port c = gp \<and> host_port c = hp))"
  by (induction cs) auto

lemma vsock_ok_conn: "\<lbrakk>vsock_ok d; find_conn gp hp (conns d) = Some i\<rbrakk> \<Longrightarrow> conn_ok (conns d ! i)"
  by (auto simp: vsock_ok_def dest: find_conn_Some)

lemma conn_ok_keep [simp]:
  "conn_ok (c\<lparr>up := b\<rparr>) = conn_ok c" "conn_ok (c\<lparr>host_done := b\<rparr>) = conn_ok c"
  "conn_ok (c\<lparr>peer_fwd_cnt := x\<rparr>) = conn_ok c" "conn_ok (c\<lparr>peer_buf_alloc := x\<rparr>) = conn_ok c"
  by (simp_all add: conn_ok_def)

lemma refresh_window_ok: "vsock_ok d \<Longrightarrow> vsock_ok (refresh_window d p)"
  by (auto simp: refresh_window_def split: option.split intro!: upd_conn_ok dest: vsock_ok_conn)

lemma on_request_ok: "vsock_ok d \<Longrightarrow> vsock_ok (on_request h d p)"
  by (auto simp: on_request_def Let_def vsock_ok_def conn_ok_def split: prod.split option.split)

lemma on_rw_ok: "vsock_ok d \<Longrightarrow> vsock_ok (on_rw d p)"
  by (auto simp: on_rw_def Let_def conn_ok_def not_less split: option.split intro!: upd_conn_ok
      dest: vsock_ok_conn)

lemma dispatch_op_ok: "vsock_ok d \<Longrightarrow> vsock_ok (dispatch_op h d p)"
  by (auto simp: dispatch_op_def Let_def on_request_ok on_rw_ok split: option.split
      intro!: upd_conn_ok dest: vsock_ok_conn)

lemma on_guest_packet_ok: "vsock_ok d \<Longrightarrow> vsock_ok (on_guest_packet h d pkt)"
  by (simp add: on_guest_packet_def dispatch_op_ok refresh_window_ok split: option.split)

lemma unat_next_port: "hp \<noteq> - 1 \<Longrightarrow> unat (next_port hp) = Suc (unat hp)"
proof -
  assume hp: "hp \<noteq> - 1"
  then have "1 + hp \<noteq> 0" by (metis add.commute eq_neg_iff_add_eq_0)
  from unatSuc [OF this] hp show ?thesis by (simp add: next_port_def add.commute)
qed

lemma next_port_ge: "EPHEMERAL_BASE \<le> hp \<Longrightarrow> EPHEMERAL_BASE \<le> next_port hp"
  by (cases "hp = - 1") (simp add: next_port_def, simp add: word_le_nat_alt unat_next_port)

lemma alloc_from_ge: "EPHEMERAL_BASE \<le> hp \<Longrightarrow> EPHEMERAL_BASE \<le> snd (alloc_from cs gp i hp)"
proof (induction cs gp i hp rule: alloc_from.induct)
  case (1 cs gp i hp)
  then show ?case by (subst alloc_from.simps) (simp add: next_port_ge)
qed

lemma accept_one_ok: "vsock_ok d \<Longrightarrow> vsock_ok (accept_one d peer)"
  using alloc_from_ge [of "next_host_port d" "conns d" "fst peer" 0]
  by (auto simp: accept_one_def alloc_host_port_def vsock_ok_def conn_ok_def split: prod.splits)

lemma foldl_send_rw:
  "conns (foldl (send_rw gp hp fwd) d ps) = conns d \<and> guest_cid (foldl (send_rw gp hp fwd) d ps) = guest_cid d \<and>
   next_host_port (foldl (send_rw gp hp fwd) d ps) = next_host_port d \<and>
   rx (foldl (send_rw gp hp fwd) d ps) = rx d @ map (packet (guest_cid d) gp hp OP_RW fwd) ps"
  by (induction ps arbitrary: d) (simp_all add: send_rw_def)

lemma foldl_send_rw_ok: "vsock_ok d \<Longrightarrow> vsock_ok (foldl (send_rw gp hp fwd) d ps)"
  by (induction ps arbitrary: d) (simp_all add: send_rw_def)

lemma pump_conn_ok:
  assumes "vsock_ok d" "idx < length (conns d)"
  shows "vsock_ok (pump_conn h mp d idx)"
proof -
  obtain c1 ch where dr: "drain h (conns d ! idx) False = (c1, ch)" by fastforce
  obtain c2 ps where fl: "fill h mp c1 = (c2, ps)" by fastforce
  have "conn_ok (conns d ! idx)" using assms by (simp add: vsock_ok_def)
  then have "conn_ok c1" using drain_facts [OF dr] by (auto simp: conn_ok_def)
  moreover from this have "conn_ok c2" using fill_facts [OF fl] by (simp add: conn_ok_def)
  ultimately show ?thesis
    using assms(1) dr fl by (simp add: pump_conn_def Let_def upd_conn_ok foldl_send_rw_ok)
qed

lemma pump_conn_length [simp]: "length (conns (pump_conn h mp d idx)) = length (conns d)"
  by (simp add: pump_conn_def Let_def foldl_send_rw split: prod.split)

lemma pump_conns_ok:
  "\<lbrakk>vsock_ok d; \<forall>i \<in> set is. i < length (conns d)\<rbrakk> \<Longrightarrow> vsock_ok (foldl (pump_conn h mp) d is)"
  by (induction "is" arbitrary: d) (simp_all add: pump_conn_ok)

lemma foldl_accept_ok: "vsock_ok d \<Longrightarrow> vsock_ok (foldl accept_one d peers)"
  by (induction peers arbitrary: d) (simp_all add: accept_one_ok)

lemma foldl_shutdown_ok:
  "vsock_ok (foldl (\<lambda>d c. send d (guest_port c) (host_port c) OP_SHUTDOWN (fwd_cnt c) []) d cs) = vsock_ok d"
  by (induction cs arbitrary: d) simp_all

lemma reap_ok: "vsock_ok d \<Longrightarrow> vsock_ok (reap d)"
  unfolding reap_def foldl_shutdown_ok by (simp add: vsock_ok_def)

lemma pump_ok:
  assumes "vsock_ok d"
  shows "vsock_ok (pump h d mp)"
proof -
  have "vsock_ok (d\<lparr>vs_backend := b\<rparr>)" for b using assms by (simp add: vsock_ok_def)
  then show ?thesis
    by (simp add: pump_def Let_def reap_ok pump_conns_ok foldl_accept_ok split: prod.split)
qed

lemma vsock_poll_ok: "vsock_ok d \<Longrightarrow> vsock_ok (fst (vsock_poll_rx h d n))"
proof -
  assume "vsock_ok d"
  then have "vsock_ok (if rx d = [] then pump h d (n - HDR_LEN) else d)" by (simp add: pump_ok)
  then show ?thesis by (auto simp: vsock_poll_rx_def Let_def vsock_ok_def split: list.split)
qed

lemma vsock_ops_simps [simp]:
  "op_handle (vsock_ops h) = vsock_handle h" "op_ack_config (vsock_ops h) = (\<lambda>d. d)"
  "op_poll_rx (vsock_ops h) = vsock_poll_rx h" "op_take_throttle (vsock_ops h) = (\<lambda>d. (d, None))"
  "op_num_queues (vsock_ops h) = 3" "op_rx_queue (vsock_ops h) = Some 0" "op_event_queue (vsock_ops h) = Some 2"
  by (simp_all add: vsock_ops_def virtio_default_ops_def)

interpretation vsock: confined_device "vsock_ops h" vsock_ok writable_foot for h :: "('b, 's) vsock_host"
  by unfold_locales (simp_all add: vsock_handle_def Let_def on_guest_packet_ok vsock_poll_ok)



section \<open>Packets fit the buffer they were sized for\<close>

definition rx_within :: "nat \<Rightarrow> ('b, 's) vsock_device \<Rightarrow> bool" where
  "rx_within mp d \<longleftrightarrow> (\<forall>p \<in> set (rx d). length p \<le> HDR_LEN + mp)"

lemma rx_within_send: "\<lbrakk>rx_within mp d; length pl \<le> mp\<rbrakk> \<Longrightarrow> rx_within mp (send d gp hp op fwd pl)"
  by (auto simp: rx_within_def)

lemma rx_within_upd [simp]: "rx_within mp (upd_conn d i f) = rx_within mp d"
  by (simp add: rx_within_def)

lemma rx_within_accept: "rx_within mp d \<Longrightarrow> rx_within mp (accept_one d peer)"
  by (auto simp: accept_one_def alloc_host_port_def rx_within_def split: prod.split)

lemma rx_within_foldl_accept: "rx_within mp d \<Longrightarrow> rx_within mp (foldl accept_one d peers)"
  by (induction peers arbitrary: d) (simp_all add: rx_within_accept)

lemma rx_within_pump_conn:
  assumes "rx_within mp d"
  shows "rx_within mp (pump_conn h mp d idx)"
proof -
  obtain c1 ch where dr: "drain h (conns d ! idx) False = (c1, ch)" by fastforce
  obtain c2 ps where fl: "fill h mp c1 = (c2, ps)" by fastforce
  have rw: "rx_within mp (foldl (send_rw gp hp fwd) d' ps)" if "rx_within mp d'"
    for gp hp fwd and d' :: "('a, 'b) vsock_device"
    using that fill_facts [OF fl] foldl_send_rw [of gp hp fwd d' ps] by (auto simp: rx_within_def)
  show ?thesis
    using assms dr fl by (simp add: pump_conn_def Let_def rx_within_send rw)
qed

lemma rx_within_pump_conns: "rx_within mp d \<Longrightarrow> rx_within mp (foldl (pump_conn h mp) d is)"
  by (induction "is" arbitrary: d) (simp_all add: rx_within_pump_conn)

lemma rx_within_shutdowns:
  "rx_within mp d \<Longrightarrow>
     rx_within mp (foldl (\<lambda>d c. send d (guest_port c) (host_port c) OP_SHUTDOWN (fwd_cnt c) []) d cs)"
  by (induction cs arbitrary: d) (simp_all add: rx_within_send)

lemma rx_within_pump: "rx d = [] \<Longrightarrow> rx_within mp (pump h d mp)"
proof -
  assume "rx d = []"
  then have "rx_within mp (d\<lparr>vs_backend := b\<rparr>)" for b by (simp add: rx_within_def)
  then have "rx_within mp (foldl (pump_conn h mp) (foldl accept_one (d\<lparr>vs_backend := b\<rparr>) ps) is)" for b ps "is"
    by (intro rx_within_pump_conns rx_within_foldl_accept)
  moreover have "rx_within mp (e\<lparr>conns := cs\<rparr>) = rx_within mp e" for e :: "('a, 'b) vsock_device" and cs
    by (simp add: rx_within_def)
  ultimately show ?thesis
    by (simp add: pump_def Let_def reap_def rx_within_shutdowns split: prod.split)
qed


section \<open>Port allocation\<close>

definition ephemeral_ports :: nat where
  "ephemeral_ports = 2 ^ 32 - 1024"

definition port_pos :: "u32 \<Rightarrow> nat" where
  "port_pos p = unat p - 1024"

lemma port_pos_next:
  assumes "EPHEMERAL_BASE \<le> p"
  shows "port_pos (next_port p) = (port_pos p + 1) mod ephemeral_ports"
proof (cases "p = - 1")
  case True
  then show ?thesis by (simp add: port_pos_def next_port_def ephemeral_ports_def EPHEMERAL_BASE_def unat_max_u32)
next
  case False
  have b: "1024 \<le> unat p" using assms by (simp add: EPHEMERAL_BASE_def word_le_nat_alt)
  have "unat p \<noteq> unat (- 1 :: u32)" using False by (simp only: word_unat_eq_iff not_False_eq_True)
  then have "unat p < 2 ^ 32 - 1" using u32_bound [of p] by (simp add: unat_max_u32)
  with b show ?thesis by (simp add: port_pos_def unat_next_port [OF False] ephemeral_ports_def)
qed

lemma port_pos_iter:
  assumes "EPHEMERAL_BASE \<le> p"
  shows "EPHEMERAL_BASE \<le> (next_port ^^ k) p \<and>
         port_pos ((next_port ^^ k) p) = (port_pos p + k) mod ephemeral_ports"
proof (induction k)
  case 0
  have "port_pos p < ephemeral_ports" using u32_bound [of p] by (simp add: port_pos_def ephemeral_ports_def)
  then show ?case using assms by simp
next
  case (Suc k)
  then show ?case by (simp add: next_port_ge port_pos_next mod_Suc_eq)
qed

lemma alloc_from_free:
  "\<lbrakk>find_conn gp ((next_port ^^ k) hp) cs = None; k + unat i \<le> unat (- 1 - EPHEMERAL_BASE)\<rbrakk> \<Longrightarrow>
     find_conn gp (fst (alloc_from cs gp i hp)) cs = None"
proof (induction k arbitrary: i hp)
  case 0
  then show ?case by (subst alloc_from.simps) simp
next
  case (Suc k)
  show ?case
  proof (cases "find_conn gp hp cs = None")
    case True
    then show ?thesis by (subst alloc_from.simps) simp
  next
    case False
    have lt: "unat i < unat (- 1 - EPHEMERAL_BASE)" using Suc.prems(2) by simp
    then have "i < - 1 - EPHEMERAL_BASE" by (simp only: word_less_nat_alt)
    then have "1 + i \<noteq> 0"
      by (metis add.commute add.inverse_unique not_less word_n1_ge)
    then have "unat (i + 1) = Suc (unat i)" using unatSuc [of i] by (simp add: add.commute)
    with Suc.IH [of "next_port hp" "i + 1"] Suc.prems
    have "find_conn gp (fst (alloc_from cs gp (i + 1) (next_port hp))) cs = None"
      by (simp add: funpow_swap1)
    moreover have "\<not> - 1 - EPHEMERAL_BASE \<le> i" using \<open>i < - 1 - EPHEMERAL_BASE\<close> by (simp only: not_le)
    ultimately show ?thesis using False by (subst alloc_from.simps) simp
  qed
qed

lemma alloc_from_fresh:
  assumes "EPHEMERAL_BASE \<le> hp" "length cs < ephemeral_ports"
  shows "find_conn gp (fst (alloc_from cs gp 0 hp)) cs = None"
proof -
  let ?seq = "\<lambda>k. (next_port ^^ k) hp"
  have inj: "inj_on ?seq {0..<ephemeral_ports}"
  proof (rule inj_onI)
    fix j k assume jk: "j \<in> {0..<ephemeral_ports}" "k \<in> {0..<ephemeral_ports}" "?seq j = ?seq k"
    then have "(port_pos hp + j) mod ephemeral_ports = (port_pos hp + k) mod ephemeral_ports"
      using port_pos_iter [OF assms(1), of j] port_pos_iter [OF assms(1), of k] by simp
    then show "j = k" by (rule add_mod_inj) (use jk in simp_all)
  qed
  show ?thesis
  proof (cases "\<exists>k < ephemeral_ports. find_conn gp (?seq k) cs = None")
    case True
    then obtain k where "k < ephemeral_ports" "find_conn gp (?seq k) cs = None" by blast
    then show ?thesis
      using alloc_from_free [of gp k hp cs 0] by (simp add: ephemeral_ports_def EPHEMERAL_BASE_def)
  next
    case False
    have "?seq k \<in> host_port ` set cs" if k: "k < ephemeral_ports" for k
    proof -
      have "find_conn gp (?seq k) cs \<noteq> None" using False k by auto
      then obtain i where "find_conn gp (?seq k) cs = Some i" by blast
      from find_conn_Some [OF this] show ?thesis by (metis image_eqI nth_mem)
    qed
    then have "?seq ` {0..<ephemeral_ports} \<subseteq> host_port ` set cs" by auto
    then have "card (?seq ` {0..<ephemeral_ports}) \<le> card (host_port ` set cs)"
      by (rule card_mono [rotated]) simp
    also have "\<dots> \<le> length cs" using card_image_le card_length le_trans by blast
    finally show ?thesis using assms(2) card_image [OF inj] by simp
  qed
qed

end
