(* ===== verification/Vsock_Props.thy ===== *)
theory Vsock_Props
  imports Vsock_Laws Demo_Ring
begin

text \<open>
  The properties of the vsock device: its packet format, its flow control in both directions, its
  port allocation, and what becomes of connections whose host side fails.
\<close>

section \<open>Packets\<close>

text \<open>The header codec is faithful: parsing a packet the device built recovers every field the
  parser reads and the payload.\<close>

theorem vsock_packet_roundtrip:
  assumes "length payload < 2 ^ 32"
  shows "parse_packet (packet cid gp hp op fwd payload) =
    Some \<lparr>gp_dst_cid = cid, gp_src_port = hp, gp_dst_port = gp, gp_op = op,
          gp_buf_alloc = BUF_ALLOC, gp_fwd_cnt = fwd, gp_payload = payload\<rparr>"
  using assms by (rule parse_packet_packet)

theorem vsock_packet_roundtrip_witness:
  "parse_packet (packet 3 5000 1024 OP_RW 7 [104, 105]) =
    Some \<lparr>gp_dst_cid = 3, gp_src_port = 1024, gp_dst_port = 5000, gp_op = OP_RW,
          gp_buf_alloc = BUF_ALLOC, gp_fwd_cnt = 7, gp_payload = [104, 105]\<rparr>"
  by (rule vsock_packet_roundtrip) simp


section \<open>Guest to host\<close>

text \<open>C35. The host never buffers more than the advertised window for a connection: along every
  sequence of guest packets, register writes, guest stores, pumps and restores, the bytes waiting
  for a host socket stay within \<open>BUF_ALLOC\<close>, and the next ephemeral port stays at 1024 or
  above.\<close>

theorem vsock_buffer_bound:
  assumes "(mmio_step (vsock_ops h))\<^sup>*\<^sup>* (virtio_new (vsock_ops h) (vsock_new cid b), ram) (m, ram')"
  shows "list_all (\<lambda>c. length (to_host c) \<le> unat BUF_ALLOC) (conns (dev m)) \<and>
         EPHEMERAL_BASE \<le> next_host_port (dev m)"
proof -
  have "vsock_ok (vsock_new cid b)" by (simp add: vsock_ok_def vsock_new_def)
  from vsock.mmio_reachable_inv [OF assms this] show ?thesis
    by (simp add: vsock_ok_def conn_ok_def list_all_iff)
qed

definition demo_vh :: "(unit, bytes) vsock_host" where
  "demo_vh = \<lparr>vh_dial = \<lambda>b p. (b, Some []), vh_accept = \<lambda>b. (b, []),
     vh_write = \<lambda>s bs. (s @ bs, WOk (length bs)), vh_read = \<lambda>s k. (s, RBlock)\<rparr>"

theorem vsock_buffer_bound_witness:
  "EPHEMERAL_BASE \<le> next_host_port (dev (fst (mmio_write (vsock_ops demo_vh)
     (virtio_new (vsock_ops demo_vh) (vsock_new 3 ())) demo_ram 0x50 1)))"
proof -
  let ?r = "mmio_write (vsock_ops demo_vh) (virtio_new (vsock_ops demo_vh) (vsock_new 3 ())) demo_ram 0x50 1"
  have "(mmio_step (vsock_ops demo_vh))\<^sup>*\<^sup>* (virtio_new (vsock_ops demo_vh) (vsock_new 3 ()), demo_ram)
      (fst ?r, snd ?r)"
    unfolding prod.collapse by (rule r_into_rtranclp) (rule mmio_step.reg_write)
  from vsock_buffer_bound [OF this] show ?thesis by simp
qed

text \<open>What a host socket is relied on for: a write takes a prefix of the bytes offered, a write that
  blocks or fails takes none.  \<open>taken\<close> is the byte sequence the socket has received.\<close>

definition faithful_writes :: "('b, 's) vsock_host \<Rightarrow> ('s \<Rightarrow> bytes) \<Rightarrow> bool" where
  "faithful_writes h taken \<longleftrightarrow>
     (\<forall>s bs. case vh_write h s bs of (s', WOk n) \<Rightarrow> taken s' = taken s @ take n bs | (s', _) \<Rightarrow> taken s' = taken s)"

lemma stream_write_taken:
  assumes "faithful_writes h taken" "stream_write h s bs = (s', r)"
  shows "taken s' = taken s @ (case r of WOk n \<Rightarrow> take n bs | _ \<Rightarrow> [])"
  using assms(1) [unfolded faithful_writes_def, rule_format, of s bs] assms(2)
  by (auto simp: stream_write_def min_def split: prod.splits write_result.splits)

lemma drain_stream:
  assumes "faithful_writes h taken" "drain h c ch = (c', ch')"
  shows "taken (stream c') @ to_host c' = taken (stream c) @ to_host c"
  using assms
proof (induction h c ch rule: drain.induct)
  case (1 h c ch)
  show ?case
  proof (cases "to_host c = []")
    case True
    with "1.prems"(2) show ?thesis by (subst (asm) drain.simps) simp
  next
    case False
    obtain s r where w: "stream_write h (stream c) (to_host c) = (s, r)" by fastforce
    note t = stream_write_taken [OF "1.prems"(1) w]
    show ?thesis
    proof (cases "\<exists>n. r = WOk n \<and> n \<noteq> 0")
      case True
      then obtain n where r: "r = WOk n" "n \<noteq> 0" by blast
      let ?c = "c\<lparr>stream := s, to_host := drop n (to_host c), fwd_cnt := fwd_cnt c + of_nat n\<rparr>"
      have "drain h ?c True = (c', ch')"
        using "1.prems"(2) False w r by (subst (asm) drain.simps) simp
      from "1.IH" [OF False w [symmetric] r(1) r(2) "1.prems"(1) this] t r(1) show ?thesis by simp
    next
      case stop: False
      then show ?thesis
        using "1.prems"(2) False w t by (subst (asm) drain.simps) (auto split: write_result.splits)
    qed
  qed
qed

text \<open>The byte stream to the host is faithful: what the socket has taken followed by what still
  waits is unchanged by draining, and the forwarded count grows by the number of bytes taken.\<close>

theorem vsock_drain_faithful:
  assumes "faithful_writes h taken" "drain h c ch = (c', ch')"
  shows "taken (stream c') @ to_host c' = taken (stream c) @ to_host c \<and>
         fwd_cnt c' = fwd_cnt c + of_nat (length (to_host c) - length (to_host c'))"
  using drain_stream [OF assms] drain_facts [OF assms(2)] by auto

definition demo_conn :: "bytes conn" where
  "demo_conn = \<lparr>guest_port = 5000, host_port = 1024, stream = [1], peer_buf_alloc = 4, peer_fwd_cnt = 0,
     tx_cnt = 0, fwd_cnt = 0, to_host = [2, 3], up = True, host_done = False\<rparr>"

theorem vsock_drain_faithful_witness:
  "stream (fst (drain demo_vh demo_conn False)) @ to_host (fst (drain demo_vh demo_conn False)) = [1, 2, 3]"
proof -
  have "faithful_writes demo_vh (\<lambda>s. s)" by (simp add: faithful_writes_def demo_vh_def)
  from vsock_drain_faithful [OF this, of demo_conn False "fst (drain demo_vh demo_conn False)"
      "snd (drain demo_vh demo_conn False)"]
  show ?thesis by (simp add: demo_conn_def)
qed


section \<open>Host to guest\<close>

text \<open>Pumping a connection respects the guest's credit: after an optional credit update, the
  packets queued for the guest carry the bytes read from the host in order, every payload fits the
  receive buffer, and their total never exceeds the window the guest granted.\<close>

theorem vsock_credit_respected:
  "\<exists>ps upd. rx (pump_conn h mp d idx) =
       rx d @ upd @ map (packet (guest_cid d) (guest_port (conns d ! idx)) (host_port (conns d ! idx)) OP_RW
                          (fwd_cnt (fst (drain h (conns d ! idx) False)))) ps \<and>
     length upd \<le> 1 \<and> sum_list (map length ps) \<le> unat (guest_window (conns d ! idx)) \<and>
     list_all (\<lambda>p. length p \<le> mp) ps"
proof -
  let ?c = "conns d ! idx"
  obtain c1 ch where dr: "drain h ?c False = (c1, ch)" by fastforce
  obtain c2 ps where fl: "fill h mp c1 = (c2, ps)" by fastforce
  define upd where "upd = (if ch \<and> up c1
    then [packet (guest_cid d) (guest_port c1) (host_port c1) OP_CREDIT_UPDATE (fwd_cnt c1) []] else [])"
  have c1: "guest_port c1 = guest_port ?c" "host_port c1 = host_port ?c" "guest_window c1 = guest_window ?c"
    using drain_facts [OF dr] by (simp_all add: guest_window_def)
  show ?thesis
  proof (cases "up c1")
    case True
    then have "rx (pump_conn h mp d idx) = rx d @ upd @ map (packet (guest_cid d) (guest_port c1) (host_port c1) OP_RW (fwd_cnt c1)) ps"
      using dr fl by (simp add: pump_conn_def Let_def foldl_send_rw upd_def)
    with c1 fill_facts [OF fl] show ?thesis
      by (intro exI [of _ ps] exI [of _ upd]) (auto simp: dr upd_def list_all_iff)
  next
    case False
    then have "rx (pump_conn h mp d idx) = rx d" using dr by (simp add: pump_conn_def Let_def)
    then show ?thesis by (intro exI [of _ "[]"]) simp
  qed
qed

text \<open>A packet pulled when nothing was waiting fits the receive buffer it was pulled for.\<close>

theorem vsock_poll_fits:
  assumes "rx d = []" "HDR_LEN \<le> n" "vsock_poll_rx h d n = (d', Some p)"
  shows "length p \<le> n"
proof -
  have "rx_within (n - HDR_LEN) (pump h d (n - HDR_LEN))" using assms(1) by (rule rx_within_pump)
  with assms show ?thesis
    by (auto simp: vsock_poll_rx_def Let_def rx_within_def split: list.splits)
qed

definition demo_accept :: "(unit, bytes) vsock_host" where
  "demo_accept = demo_vh\<lparr>vh_accept := \<lambda>b. (b, [(5000, [])])\<rparr>"

theorem vsock_poll_fits_witness:
  "\<exists>d' p. vsock_poll_rx demo_accept (vsock_new 3 ()) 100 = (d', Some p) \<and> length p \<le> 100"
proof -
  have "alloc_from ([] :: bytes conn list) 5000 0 1024 = (1024, 1025)"
    by (subst alloc_from.simps) (simp add: next_port_def)
  moreover have "drain h c False = (c, False)" if "to_host c = []" for h :: "(unit, bytes) vsock_host" and c
    using that by (subst drain.simps) simp
  moreover have "vh_accept demo_accept b = (b, [(5000, [])])" for b by (simp add: demo_accept_def)
  ultimately obtain d' p where "vsock_poll_rx demo_accept (vsock_new 3 ()) 100 = (d', Some p)"
    by (simp add: vsock_poll_rx_def pump_def Let_def accept_one_def alloc_host_port_def send_def
        vsock_new_def EPHEMERAL_BASE_def pump_conn_def reap_def upd_conn_def dead_def)
  with vsock_poll_fits [of "vsock_new 3 ()" 100 demo_accept d' p] show ?thesis
    by (simp add: vsock_new_def HDR_LEN_def)
qed


section \<open>Ports and connections\<close>

text \<open>A host connection gets a port of its own: the port allocated for a guest port is used by
  no other connection to it, as long as the connections do not exhaust the ephemeral range.\<close>

theorem vsock_port_fresh:
  assumes "EPHEMERAL_BASE \<le> next_host_port d" "length (conns d) < ephemeral_ports"
    and "alloc_host_port d gp = (d', hp)"
  shows "find_conn gp hp (conns d') = None \<and> conns d' = conns d"
  using alloc_from_fresh [OF assms(1,2), of gp] assms(3)
  by (auto simp: alloc_host_port_def split: prod.splits)

theorem vsock_port_fresh_witness:
  "\<exists>d' hp. alloc_host_port (vsock_new 3 () :: (unit, bytes) vsock_device) 5000 = (d', hp) \<and>
     find_conn 5000 hp (conns d') = None"
proof -
  obtain d' hp where a: "alloc_host_port (vsock_new 3 () :: (unit, bytes) vsock_device) 5000 = (d', hp)"
    by fastforce
  from vsock_port_fresh [OF _ _ a] a show ?thesis
    by (simp add: vsock_new_def ephemeral_ports_def)
qed

text \<open>A connection whose host socket fails while bytes are queued for it is never reaped: every
  pump leaves it in the table, marked done, with its queue intact, and the guest is told
  nothing.\<close>

theorem vsock_failed_conn_leaks:
  assumes "conns d = [c]" "to_host c \<noteq> []" "\<not> up c" "vh_accept h (vs_backend d) = (b, [])"
    and "vh_write h (stream c) (to_host c) = (s, WErr)"
  shows "pump h d mp = d\<lparr>vs_backend := b, conns := [c\<lparr>stream := s, host_done := True\<rparr>]\<rparr>"
proof -
  have "drain h c False = (c\<lparr>stream := s, host_done := True\<rparr>, False)"
    using assms(2,5) by (subst drain.simps) (simp add: stream_write_def)
  then show ?thesis using assms by (simp add: pump_def pump_conn_def reap_def dead_def upd_conn_def)
qed

theorem vsock_failed_conn_leaks_witness:
  "conns (pump (demo_vh\<lparr>vh_write := \<lambda>s bs. (s, WErr)\<rparr>)
      ((vsock_new 3 ())\<lparr>conns := [demo_conn\<lparr>up := False\<rparr>]\<rparr>) 100) =
     [demo_conn\<lparr>up := False, host_done := True\<rparr>]"
proof -
  have "stream demo_conn = [1]" "demo_conn\<lparr>up := False, stream := [1], host_done := True\<rparr> =
      demo_conn\<lparr>up := False, host_done := True\<rparr>" by (simp_all add: demo_conn_def)
  then show ?thesis
    using vsock_failed_conn_leaks [of "(vsock_new 3 ())\<lparr>conns := [demo_conn\<lparr>up := False\<rparr>]\<rparr>"
        "demo_conn\<lparr>up := False\<rparr>" "demo_vh\<lparr>vh_write := \<lambda>s bs. (s, WErr)\<rparr>" "()" "[1]" 100]
    by (simp add: demo_vh_def) (simp add: demo_conn_def)
qed

end
