(* ===== verification/Gic.thy ===== *)
theory Gic
  imports Prelude
begin

text \<open>
  The software GICv2 of \<open>amber-hvf/src/gicv2.rs\<close>: distributor, banked CPU interfaces, priority
  arbitration, software-generated interrupts, and the snapshot blob in its current and its
  legacy layout.  The fixed-size arrays are lists whose lengths are part of the invariant, the
  running-priority stack has its top at the end, as the \<open>Vec\<close> has.
\<close>

section \<open>State\<close>

definition NUM_INTID :: nat where "NUM_INTID = 256"
definition PRIVATE :: nat where "PRIVATE = 32"
definition SPURIOUS :: u32 where "SPURIOUS = 1023"
definition IDLE_PRIO :: u8 where "IDLE_PRIO = 0xff"
definition MAX_CPUS :: nat where "MAX_CPUS = 8"

record cpu_bank =
  cpu_enabled :: bool
  pmr :: u8
  running :: "u8 list"
  b_enabled :: "bool list"
  b_pending :: "bool list"
  b_active :: "bool list"
  b_priority :: "u8 list"
  b_level :: "bool list"
  b_edge :: "bool list"
  sgi_src :: "u8 list"

definition bank_default :: cpu_bank where
  "bank_default =
     \<lparr>cpu_enabled = False, pmr = 0, running = [], b_enabled = replicate PRIVATE False,
      b_pending = replicate PRIVATE False, b_active = replicate PRIVATE False,
      b_priority = replicate PRIVATE 0, b_level = replicate PRIVATE False,
      b_edge = replicate 16 True @ replicate (PRIVATE - 16) False, sgi_src = replicate 16 0\<rparr>"

record gic =
  dist_enabled :: bool
  cpus :: "cpu_bank list"
  g_enabled :: "bool list"
  g_pending :: "bool list"
  g_active :: "bool list"
  g_priority :: "u8 list"
  g_level :: "bool list"
  g_edge :: "bool list"
  targets :: "u8 list"

definition with_cpus :: "nat \<Rightarrow> gic" where
  "with_cpus n =
     \<lparr>dist_enabled = False, cpus = replicate (max 1 (min n MAX_CPUS)) bank_default,
      g_enabled = replicate NUM_INTID False, g_pending = replicate NUM_INTID False,
      g_active = replicate NUM_INTID False, g_priority = replicate NUM_INTID 0,
      g_level = replicate NUM_INTID False, g_edge = replicate NUM_INTID False,
      targets = replicate NUM_INTID 1\<rparr>"

definition upd_bank :: "gic \<Rightarrow> nat \<Rightarrow> (cpu_bank \<Rightarrow> cpu_bank) \<Rightarrow> gic" where
  "upd_bank g c f = g\<lparr>cpus := (cpus g)[c := f (cpus g ! c)]\<rparr>"

definition enabled_at :: "gic \<Rightarrow> nat \<Rightarrow> nat \<Rightarrow> bool" where
  "enabled_at g c i = (if i < PRIVATE then b_enabled (cpus g ! c) ! i else g_enabled g ! i)"

definition active_at :: "gic \<Rightarrow> nat \<Rightarrow> nat \<Rightarrow> bool" where
  "active_at g c i = (if i < PRIVATE then b_active (cpus g ! c) ! i else g_active g ! i)"

definition priority_at :: "gic \<Rightarrow> nat \<Rightarrow> nat \<Rightarrow> u8" where
  "priority_at g c i = (if i < PRIVATE then b_priority (cpus g ! c) ! i else g_priority g ! i)"

definition edge_at :: "gic \<Rightarrow> nat \<Rightarrow> nat \<Rightarrow> bool" where
  "edge_at g c i = (if i < PRIVATE then b_edge (cpus g ! c) ! i else g_edge g ! i)"

definition is_pending :: "gic \<Rightarrow> nat \<Rightarrow> nat \<Rightarrow> bool" where
  "is_pending g c i =
     (if i < PRIVATE then
        let b = cpus g ! c in if b_edge b ! i then b_pending b ! i else b_level b ! i
      else if targets g ! i AND push_bit c 1 = 0 then False
      else if g_edge g ! i then g_pending g ! i else g_level g ! i)"

definition running_prio :: "gic \<Rightarrow> nat \<Rightarrow> u8" where
  "running_prio g c = (if running (cpus g ! c) = [] then IDLE_PRIO else last (running (cpus g ! c)))"

text \<open>The arbitration loop over all INTIDs, \<open>best\<close> being the winner so far.\<close>

definition arbitrate :: "gic \<Rightarrow> nat \<Rightarrow> (nat \<times> u8) option \<Rightarrow> nat \<Rightarrow> (nat \<times> u8) option" where
  "arbitrate g c best i =
     (if \<not> enabled_at g c i \<or> active_at g c i \<or> \<not> is_pending g c i then best
      else
        let p = priority_at g c i in
        if pmr (cpus g ! c) \<le> p \<or> running_prio g c \<le> p then best
        else case best of
          None \<Rightarrow> Some (i, p)
        | Some (_, bp) \<Rightarrow> if p < bp then Some (i, p) else best)"

definition highest_pending :: "gic \<Rightarrow> nat \<Rightarrow> (nat \<times> u8) option" where
  "highest_pending g c =
     (if \<not> dist_enabled g then None else foldl (arbitrate g c) None [0..<NUM_INTID])"

definition irq_pending :: "gic \<Rightarrow> nat \<Rightarrow> bool" where
  "irq_pending g c \<longleftrightarrow> cpu_enabled (cpus g ! c) \<and> highest_pending g c \<noteq> None"

definition pending_cpus :: "gic \<Rightarrow> u32" where
  "pending_cpus g =
     foldl (\<lambda>m c. m OR push_bit c 1) 0 (filter (irq_pending g) [0..<length (cpus g)])"

definition set_level :: "gic \<Rightarrow> nat \<Rightarrow> nat \<Rightarrow> bool \<Rightarrow> gic" where
  "set_level g c i high =
     (if i < PRIVATE
      then upd_bank g c (\<lambda>b. b\<lparr>b_level := (b_level b)[i := high], b_edge := (b_edge b)[i := False]\<rparr>)
      else if i < NUM_INTID
      then g\<lparr>g_level := (g_level g)[i := high], g_edge := (g_edge g)[i := False]\<rparr>
      else g)"


section \<open>The snapshot blob\<close>

definition BLOB_MAGIC :: u8 where "BLOB_MAGIC = 0xa2"
definition BLOB_V2 :: u8 where "BLOB_V2 = 2"

definition flag_byte :: "bool \<Rightarrow> u8" where
  "flag_byte b = (if b then 1 else 0)"

definition byte_flag :: "u8 \<Rightarrow> bool" where
  "byte_flag x \<longleftrightarrow> x \<noteq> 0"

definition capture_bank :: "cpu_bank \<Rightarrow> bytes" where
  "capture_bank b =
     [flag_byte (cpu_enabled b), pmr b] @
     map flag_byte (b_enabled b) @ map flag_byte (b_pending b) @ map flag_byte (b_active b) @
     map flag_byte (b_level b) @ map flag_byte (b_edge b) @ b_priority b @ sgi_src b @
     [of_nat (min (length (running b)) 255)] @ take (min (length (running b)) 255) (running b)"

definition gic_capture :: "gic \<Rightarrow> bytes" where
  "gic_capture g =
     [BLOB_MAGIC, BLOB_V2, of_nat (length (cpus g)), flag_byte (dist_enabled g)] @
     concat (map capture_bank (cpus g)) @
     map flag_byte (g_enabled g) @ map flag_byte (g_pending g) @ map flag_byte (g_active g) @
     map flag_byte (g_level g) @ map flag_byte (g_edge g) @ g_priority g @ targets g"

text \<open>The \<open>next\<close> closure: the reader state is what is left of the blob, and bytes past its end
  read as zero.\<close>

definition next_byte :: "bytes \<Rightarrow> u8 \<times> bytes" where
  "next_byte bs = (case bs of [] \<Rightarrow> (0, []) | x # xs \<Rightarrow> (x, xs))"

definition next_bytes :: "nat \<Rightarrow> bytes \<Rightarrow> bytes \<times> bytes" where
  "next_bytes n bs = (take n bs @ replicate (n - length bs) 0, drop n bs)"

definition next_flags :: "nat \<Rightarrow> bytes \<Rightarrow> bool list \<times> bytes" where
  "next_flags n bs = (case next_bytes n bs of (xs, rest) \<Rightarrow> (map byte_flag xs, rest))"

definition restore_bank :: "bytes \<Rightarrow> cpu_bank \<times> bytes" where
  "restore_bank r0 =
     (let (en, r1) = next_byte r0;
          (pm, r2) = next_byte r1;
          (enabled, r3) = next_flags PRIVATE r2;
          (pending, r4) = next_flags PRIVATE r3;
          (active, r5) = next_flags PRIVATE r4;
          (level, r6) = next_flags PRIVATE r5;
          (edge, r7) = next_flags PRIVATE r6;
          (prio, r8) = next_bytes PRIVATE r7;
          (src, r9) = next_bytes 16 r8;
          (n, r10) = next_byte r9;
          (run, r11) = next_bytes (unat n) r10
      in (\<lparr>cpu_enabled = byte_flag en, pmr = pm, running = run, b_enabled = enabled,
           b_pending = pending, b_active = active, b_priority = prio, b_level = level,
           b_edge = edge, sgi_src = src\<rparr>, r11))"

fun restore_banks :: "nat \<Rightarrow> bytes \<Rightarrow> cpu_bank list \<times> bytes" where
  "restore_banks 0 r = ([], r)"
| "restore_banks (Suc n) r =
     (case restore_bank r of (b, r1) \<Rightarrow> (case restore_banks n r1 of (bs, r2) \<Rightarrow> (b # bs, r2)))"

definition restore_v2 :: "gic \<Rightarrow> bytes \<Rightarrow> gic" where
  "restore_v2 g blob =
     (let r0 = drop 2 blob;
          (n, r1) = next_byte r0;
          ncpu = max 1 (min (unat n) MAX_CPUS);
          (de, r2) = next_byte r1;
          (banks, r3) = restore_banks ncpu r2;
          (enabled, r4) = next_flags NUM_INTID r3;
          (pending, r5) = next_flags NUM_INTID r4;
          (active, r6) = next_flags NUM_INTID r5;
          (level, r7) = next_flags NUM_INTID r6;
          (edge, r8) = next_flags NUM_INTID r7;
          (prio, r9) = next_bytes NUM_INTID r8;
          (tg, r10) = next_bytes NUM_INTID r9
      in \<lparr>dist_enabled = byte_flag de,
          cpus = banks @ replicate (length (cpus g) - ncpu) bank_default,
          g_enabled = enabled, g_pending = pending, g_active = active, g_priority = prio,
          g_level = level, g_edge = edge, targets = tg\<rparr>)"

text \<open>The legacy layout holds flat arrays over all INTIDs; the first \<open>PRIVATE\<close> entries move into
  the one bank it restores, the others overwrite the shared block, whose private entries stay.\<close>

definition shared_part :: "'a list \<Rightarrow> 'a list \<Rightarrow> 'a list" where
  "shared_part old new = take PRIVATE old @ drop PRIVATE new"

definition restore_legacy :: "gic \<Rightarrow> bytes \<Rightarrow> gic" where
  "restore_legacy g blob =
     (let (de, r1) = next_byte blob;
          (en, r2) = next_byte r1;
          (pm, r3) = next_byte r2;
          (enabled, r4) = next_flags NUM_INTID r3;
          (pending, r5) = next_flags NUM_INTID r4;
          (active, r6) = next_flags NUM_INTID r5;
          (level, r7) = next_flags NUM_INTID r6;
          (edge, r8) = next_flags NUM_INTID r7;
          (prio, r9) = next_bytes NUM_INTID r8;
          (n, r10) = next_byte r9;
          (run, r11) = next_bytes (unat n) r10
      in \<lparr>dist_enabled = byte_flag de,
          cpus = [bank_default\<lparr>cpu_enabled := byte_flag en, pmr := pm, running := run,
                    b_enabled := take PRIVATE enabled, b_pending := take PRIVATE pending,
                    b_active := take PRIVATE active, b_level := take PRIVATE level,
                    b_edge := take PRIVATE edge, b_priority := take PRIVATE prio\<rparr>],
          g_enabled = shared_part (g_enabled g) enabled,
          g_pending = shared_part (g_pending g) pending,
          g_active = shared_part (g_active g) active,
          g_priority = shared_part (g_priority g) prio,
          g_level = shared_part (g_level g) level,
          g_edge = shared_part (g_edge g) edge,
          targets = replicate NUM_INTID 1\<rparr>)"

definition gic_restore :: "gic \<Rightarrow> bytes \<Rightarrow> gic" where
  "gic_restore g blob =
     (if blob \<noteq> [] \<and> hd blob = BLOB_MAGIC then restore_v2 g blob else restore_legacy g blob)"


section \<open>Register windows\<close>

definition GICD_CTLR :: u64 where "GICD_CTLR = 0x000"
definition GICD_TYPER :: u64 where "GICD_TYPER = 0x004"
definition GICD_IIDR :: u64 where "GICD_IIDR = 0x008"
definition GICD_IGROUPR :: u64 where "GICD_IGROUPR = 0x080"
definition GICD_ISENABLER :: u64 where "GICD_ISENABLER = 0x100"
definition GICD_ICENABLER :: u64 where "GICD_ICENABLER = 0x180"
definition GICD_ISPENDR :: u64 where "GICD_ISPENDR = 0x200"
definition GICD_ICPENDR :: u64 where "GICD_ICPENDR = 0x280"
definition GICD_ISACTIVER :: u64 where "GICD_ISACTIVER = 0x300"
definition GICD_ICACTIVER :: u64 where "GICD_ICACTIVER = 0x380"
definition GICD_IPRIORITYR :: u64 where "GICD_IPRIORITYR = 0x400"
definition GICD_ITARGETSR :: u64 where "GICD_ITARGETSR = 0x800"
definition GICD_ICFGR :: u64 where "GICD_ICFGR = 0xc00"
definition GICD_SGIR :: u64 where "GICD_SGIR = 0xf00"
definition GICC_CTLR :: u64 where "GICC_CTLR = 0x00"
definition GICC_PMR :: u64 where "GICC_PMR = 0x04"
definition GICC_BPR :: u64 where "GICC_BPR = 0x08"
definition GICC_IAR :: u64 where "GICC_IAR = 0x0c"
definition GICC_EOIR :: u64 where "GICC_EOIR = 0x10"
definition GICC_RPR :: u64 where "GICC_RPR = 0x14"
definition GICC_HPPIR :: u64 where "GICC_HPPIR = 0x18"
definition GICC_IIDR :: u64 where "GICC_IIDR = 0xfc"

lemmas gic_offsets = GICD_CTLR_def GICD_TYPER_def GICD_IIDR_def GICD_IGROUPR_def GICD_ISENABLER_def
  GICD_ICENABLER_def GICD_ISPENDR_def GICD_ICPENDR_def GICD_ISACTIVER_def GICD_ICACTIVER_def
  GICD_IPRIORITYR_def GICD_ITARGETSR_def GICD_ICFGR_def GICD_SGIR_def GICC_CTLR_def GICC_PMR_def
  GICC_BPR_def GICC_IAR_def GICC_EOIR_def GICC_RPR_def GICC_HPPIR_def GICC_IIDR_def

definition reg_range :: "u64 \<Rightarrow> u64 \<Rightarrow> u64 \<Rightarrow> bool" where
  "reg_range off start count \<longleftrightarrow> start \<le> off \<and> off < start + count * 4"

definition base_index :: "u64 \<Rightarrow> u64 \<Rightarrow> nat" where
  "base_index off start = unat (((off - start) AND NOT 3) * 8)"

definition base_index_cfg :: "u64 \<Rightarrow> nat" where
  "base_index_cfg off = unat (((off - GICD_ICFGR) AND NOT 3) * 4)"

definition extract_reg :: "u64 \<Rightarrow> u64 \<Rightarrow> u8 \<Rightarrow> u64" where
  "extract_reg reg off sz =
     (let shift = unat ((off AND 3) * 8);
          msk = (if sz = 1 then 0xff else if sz = 2 then 0xffff else 0xffffffff)
      in drop_bit shift reg AND msk)"

definition bitset_read :: "gic \<Rightarrow> nat \<Rightarrow> nat \<Rightarrow> (gic \<Rightarrow> nat \<Rightarrow> nat \<Rightarrow> bool) \<Rightarrow> u32" where
  "bitset_read g c b f =
     foldl (\<lambda>v k. if b + k < NUM_INTID \<and> f g c (b + k) then v OR push_bit k 1 else v) 0 [0..<32]"

definition bits_set ::
  "gic \<Rightarrow> nat \<Rightarrow> u64 \<Rightarrow> u64 \<Rightarrow> u32 \<Rightarrow> (gic \<Rightarrow> nat \<Rightarrow> nat \<Rightarrow> bool \<Rightarrow> gic) \<Rightarrow> bool \<Rightarrow> gic" where
  "bits_set g c off start val f on =
     foldl (\<lambda>g k. if val AND push_bit k 1 \<noteq> 0 \<and> base_index off start + k < NUM_INTID
                  then f g c (base_index off start + k) on else g) g [0..<32]"

definition set_enabled :: "gic \<Rightarrow> nat \<Rightarrow> nat \<Rightarrow> bool \<Rightarrow> gic" where
  "set_enabled g c i on =
     (if i < PRIVATE then upd_bank g c (\<lambda>b. b\<lparr>b_enabled := (b_enabled b)[i := on]\<rparr>)
      else g\<lparr>g_enabled := (g_enabled g)[i := on]\<rparr>)"

definition set_pending :: "gic \<Rightarrow> nat \<Rightarrow> nat \<Rightarrow> bool \<Rightarrow> gic" where
  "set_pending g c i on =
     (if i < PRIVATE then upd_bank g c (\<lambda>b. b\<lparr>b_pending := (b_pending b)[i := on]\<rparr>)
      else g\<lparr>g_pending := (g_pending g)[i := on]\<rparr>)"

definition set_active :: "gic \<Rightarrow> nat \<Rightarrow> nat \<Rightarrow> bool \<Rightarrow> gic" where
  "set_active g c i on =
     (if i < PRIVATE then upd_bank g c (\<lambda>b. b\<lparr>b_active := (b_active b)[i := on]\<rparr>)
      else g\<lparr>g_active := (g_active g)[i := on]\<rparr>)"

definition set_priority :: "gic \<Rightarrow> nat \<Rightarrow> nat \<Rightarrow> u8 \<Rightarrow> gic" where
  "set_priority g c i p =
     (if i < PRIVATE then upd_bank g c (\<lambda>b. b\<lparr>b_priority := (b_priority b)[i := p]\<rparr>)
      else if i < NUM_INTID then g\<lparr>g_priority := (g_priority g)[i := p]\<rparr> else g)"

definition set_edge :: "gic \<Rightarrow> nat \<Rightarrow> nat \<Rightarrow> bool \<Rightarrow> gic" where
  "set_edge g c i e =
     (if 16 \<le> i \<and> i < PRIVATE then upd_bank g c (\<lambda>b. b\<lparr>b_edge := (b_edge b)[i := e]\<rparr>)
      else if PRIVATE \<le> i \<and> i < NUM_INTID then g\<lparr>g_edge := (g_edge g)[i := e]\<rparr> else g)"

definition dist_read32 :: "gic \<Rightarrow> nat \<Rightarrow> u64 \<Rightarrow> u32" where
  "dist_read32 g c off =
     (if off = GICD_CTLR then (if dist_enabled g then 1 else 0)
      else if off = GICD_TYPER then
        (of_nat (NUM_INTID div 32 - 1) AND 0x1f) OR push_bit 5 (of_nat (length (cpus g)) - 1)
      else if off = GICD_IIDR then 0x0200043b
      else if reg_range off GICD_IGROUPR 32 then 0
      else if reg_range off GICD_ISENABLER 32 \<or> reg_range off GICD_ICENABLER 32 then
        bitset_read g c (base_index off (if off < GICD_ICENABLER then GICD_ISENABLER else GICD_ICENABLER))
          enabled_at
      else if reg_range off GICD_ISPENDR 32 \<or> reg_range off GICD_ICPENDR 32 then
        bitset_read g c (base_index off (if off < GICD_ICPENDR then GICD_ISPENDR else GICD_ICPENDR))
          is_pending
      else if reg_range off GICD_ISACTIVER 32 \<or> reg_range off GICD_ICACTIVER 32 then
        bitset_read g c (base_index off (if off < GICD_ICACTIVER then GICD_ISACTIVER else GICD_ICACTIVER))
          active_at
      else if reg_range off GICD_IPRIORITYR 64 then
        (let b = unat ((off - GICD_IPRIORITYR) AND NOT 3) in
         foldl (\<lambda>v k. if b + k < NUM_INTID
                      then v OR push_bit (k * 8) (ucast (priority_at g c (b + k))) else v) 0 [0..<4])
      else if reg_range off GICD_ITARGETSR 64 then
        (let b = unat ((off - GICD_ITARGETSR) AND NOT 3) in
         foldl (\<lambda>v k. if b + k < PRIVATE then v OR push_bit (k * 8) (push_bit c 1 AND 0xff)
                      else if b + k < NUM_INTID
                      then v OR push_bit (k * 8) (ucast (targets g ! (b + k))) else v) 0 [0..<4])
      else if reg_range off GICD_ICFGR 16 then
        (let b = base_index_cfg off in
         foldl (\<lambda>v k. if b + k < NUM_INTID \<and> edge_at g c (b + k)
                      then v OR push_bit (k * 2) 2 else v) 0 [0..<16])
      else 0)"

definition dist_read :: "gic \<Rightarrow> nat \<Rightarrow> u64 \<Rightarrow> u8 \<Rightarrow> u64" where
  "dist_read g c off sz = extract_reg (ucast (dist_read32 g c (off AND NOT 3))) off sz"

definition sgir_hit :: "nat \<Rightarrow> u32 \<Rightarrow> nat \<Rightarrow> bool" where
  "sgir_hit c v t =
     (let filter = drop_bit 24 v AND 3; lst = ucast (drop_bit 16 v AND 0xff) :: u8 in
      if filter = 0 then lst AND push_bit t 1 \<noteq> 0 else if filter = 1 then t \<noteq> c else t = c)"

definition sgir :: "gic \<Rightarrow> nat \<Rightarrow> u32 \<Rightarrow> gic" where
  "sgir g c v =
     (let sgi = unat (v AND 0xf) in
      foldl (\<lambda>g t. if sgir_hit c v t
                   then upd_bank g t (\<lambda>b. b\<lparr>b_pending := (b_pending b)[sgi := True],
                                          sgi_src := (sgi_src b)[sgi := of_nat c]\<rparr>)
                   else g) g [0..<length (cpus g)])"

definition cpu_mask :: "gic \<Rightarrow> u8" where
  "cpu_mask g = ucast (push_bit (length (cpus g)) 1 - 1 :: u16)"

definition dist_write :: "gic \<Rightarrow> nat \<Rightarrow> u64 \<Rightarrow> u8 \<Rightarrow> u64 \<Rightarrow> gic" where
  "dist_write g c off sz val =
     (if reg_range off GICD_IPRIORITYR 64 then
        (let idx = unat (off - GICD_IPRIORITYR) in
         foldl (\<lambda>g k. set_priority g c (idx + k) (ucast (drop_bit (k * 8) val))) g [0..<unat sz])
      else if reg_range off GICD_ITARGETSR 64 then
        (let idx = unat (off - GICD_ITARGETSR); msk = cpu_mask g in
         foldl (\<lambda>g k. if PRIVATE \<le> idx + k \<and> idx + k < NUM_INTID
                      then g\<lparr>targets := (targets g)[idx + k := ucast (drop_bit (k * 8) val) AND msk]\<rparr>
                      else g) g [0..<unat sz])
      else
        let v = ucast val :: u32; o' = off AND NOT 3 in
        if o' = GICD_CTLR then g\<lparr>dist_enabled := (v AND 1 \<noteq> 0)\<rparr>
        else if reg_range o' GICD_ISENABLER 32 then bits_set g c o' GICD_ISENABLER v set_enabled True
        else if reg_range o' GICD_ICENABLER 32 then bits_set g c o' GICD_ICENABLER v set_enabled False
        else if reg_range o' GICD_ISPENDR 32 then bits_set g c o' GICD_ISPENDR v set_pending True
        else if reg_range o' GICD_ICPENDR 32 then bits_set g c o' GICD_ICPENDR v set_pending False
        else if reg_range o' GICD_ISACTIVER 32 then bits_set g c o' GICD_ISACTIVER v set_active True
        else if reg_range o' GICD_ICACTIVER 32 then bits_set g c o' GICD_ICACTIVER v set_active False
        else if reg_range o' GICD_ICFGR 16 then
          (let b = base_index_cfg o' in
           foldl (\<lambda>g k. set_edge g c (b + k) (drop_bit (k * 2 + 1) v AND 1 \<noteq> 0)) g [0..<16])
        else if o' = GICD_SGIR then sgir g c v
        else g)"


section \<open>The CPU interface\<close>

text \<open>The state change of an acknowledge, for the INTID that won the arbitration.\<close>

definition take_intid :: "gic \<Rightarrow> nat \<Rightarrow> nat \<Rightarrow> gic" where
  "take_intid g c i =
     (if i < PRIVATE then
        upd_bank g c (\<lambda>b. b\<lparr>b_active := (b_active b)[i := True],
                            b_pending := (if b_edge b ! i then (b_pending b)[i := False] else b_pending b)\<rparr>)
      else g\<lparr>g_active := (g_active g)[i := True],
             g_pending := (if g_edge g ! i then (g_pending g)[i := False] else g_pending g)\<rparr>)"

definition push_running :: "gic \<Rightarrow> nat \<Rightarrow> u8 \<Rightarrow> gic" where
  "push_running g c p = upd_bank g c (\<lambda>b. b\<lparr>running := running b @ [p]\<rparr>)"

definition acknowledge :: "gic \<Rightarrow> nat \<Rightarrow> gic \<times> u32" where
  "acknowledge g c =
     (case highest_pending g c of
        None \<Rightarrow> (g, SPURIOUS)
      | Some (i, p) \<Rightarrow>
          let g' = push_running (take_intid g c i) c p in
          (g', if i < 16 then of_nat i OR push_bit 10 (ucast (sgi_src (cpus g' ! c) ! i)) else of_nat i))"

definition end_of_interrupt :: "gic \<Rightarrow> nat \<Rightarrow> nat \<Rightarrow> gic" where
  "end_of_interrupt g c i =
     (let g' = (if i < PRIVATE then upd_bank g c (\<lambda>b. b\<lparr>b_active := (b_active b)[i := False]\<rparr>)
                else if i < NUM_INTID then g\<lparr>g_active := (g_active g)[i := False]\<rparr> else g)
      in upd_bank g' c (\<lambda>b. b\<lparr>running := butlast (running b)\<rparr>))"

definition cpu_read :: "gic \<Rightarrow> nat \<Rightarrow> u64 \<Rightarrow> u8 \<Rightarrow> gic \<times> u64" where
  "cpu_read g c off sz =
     (let o' = off AND NOT 3;
          (g', v) =
            (if o' = GICC_CTLR then (g, if cpu_enabled (cpus g ! c) then 1 else 0)
             else if o' = GICC_PMR then (g, ucast (pmr (cpus g ! c)))
             else if o' = GICC_BPR then (g, 0)
             else if o' = GICC_IAR then acknowledge g c
             else if o' = GICC_RPR then (g, ucast (running_prio g c))
             else if o' = GICC_HPPIR then
               (g, case highest_pending g c of None \<Rightarrow> SPURIOUS | Some (i, _) \<Rightarrow> of_nat i)
             else if o' = GICC_IIDR then (g, 0x0002043b)
             else (g, 0))
      in (g', extract_reg (ucast v) off sz))"

definition cpu_write :: "gic \<Rightarrow> nat \<Rightarrow> u64 \<Rightarrow> u64 \<Rightarrow> gic" where
  "cpu_write g c off val =
     (let v = ucast val :: u32; o' = off AND NOT 3 in
      if o' = GICC_CTLR then upd_bank g c (\<lambda>b. b\<lparr>cpu_enabled := (v AND 1 \<noteq> 0)\<rparr>)
      else if o' = GICC_PMR then upd_bank g c (\<lambda>b. b\<lparr>pmr := ucast v\<rparr>)
      else if o' = GICC_EOIR then end_of_interrupt g c (unat (v AND 0x3ff))
      else g)"

end
