(* ===== verification/Gic_Laws.thy ===== *)
theory Gic_Laws
  imports Gic
begin

text \<open>
  Laws of the software GICv2: the arbitration loop computes the best deliverable interrupt, the
  running-priority stack is strictly decreasing, every register access keeps the invariant, and
  the snapshot blob restores the controller exactly.
\<close>

section \<open>Arbitration\<close>

definition candidate :: "gic \<Rightarrow> nat \<Rightarrow> nat \<Rightarrow> bool" where
  "candidate g c i \<longleftrightarrow>
     enabled_at g c i \<and> \<not> active_at g c i \<and> is_pending g c i \<and>
     priority_at g c i < pmr (cpus g ! c) \<and> priority_at g c i < running_prio g c"

definition deliverable :: "gic \<Rightarrow> nat \<Rightarrow> nat \<Rightarrow> bool" where
  "deliverable g c i \<longleftrightarrow> dist_enabled g \<and> i < NUM_INTID \<and> candidate g c i"

text \<open>\<open>beats g c i j\<close>: a lower priority value wins, ties go to the lower INTID.\<close>

definition beats :: "gic \<Rightarrow> nat \<Rightarrow> nat \<Rightarrow> nat \<Rightarrow> bool" where
  "beats g c i j \<longleftrightarrow>
     priority_at g c i < priority_at g c j \<or> priority_at g c i = priority_at g c j \<and> i \<le> j"

lemma arbitrate_candidate:
  "arbitrate g c best i =
     (if \<not> candidate g c i then best
      else case best of None \<Rightarrow> Some (i, priority_at g c i)
        | Some (_, bp) \<Rightarrow> if priority_at g c i < bp then Some (i, priority_at g c i) else best)"
  by (auto simp: arbitrate_def candidate_def Let_def not_le)

lemma arbitrate_fold:
  defines "best g c n \<equiv> foldl (arbitrate g c) None [0..<n]"
  shows "(best g c n = None \<longrightarrow> (\<forall>j < n. \<not> candidate g c j)) \<and>
     (\<forall>i p. best g c n = Some (i, p) \<longrightarrow>
        i < n \<and> candidate g c i \<and> p = priority_at g c i \<and> (\<forall>j < n. candidate g c j \<longrightarrow> beats g c i j))"
proof (induction n)
  case 0
  then show ?case by (simp add: best_def)
next
  case (Suc n)
  have s: "best g c (Suc n) = arbitrate g c (best g c n) n" by (simp add: best_def)
  show ?case
  proof (cases "best g c n")
    case None
    then show ?thesis using Suc by (auto simp: s arbitrate_candidate less_Suc_eq beats_def)
  next
    case (Some ip)
    obtain i p where ip: "ip = (i, p)" by fastforce
    have h: "i < n" "candidate g c i" "p = priority_at g c i" "\<And>j. j < n \<Longrightarrow> candidate g c j \<Longrightarrow> beats g c i j"
      using Suc Some ip by auto
    show ?thesis
      using h unfolding s Some ip
      by (auto simp: arbitrate_candidate less_Suc_eq beats_def not_less split: if_splits)
        (metis less_trans)
  qed
qed

lemma highest_pending_None: "highest_pending g c = None \<longleftrightarrow> (\<forall>i. \<not> deliverable g c i)"
  using arbitrate_fold [of g c NUM_INTID]
  by (cases "foldl (arbitrate g c) None [0..<NUM_INTID]") (auto simp: highest_pending_def deliverable_def)

lemma highest_pending_SomeD:
  assumes "highest_pending g c = Some (i, p)"
  shows "deliverable g c i" "p = priority_at g c i" "\<And>j. deliverable g c j \<Longrightarrow> beats g c i j"
  using assms arbitrate_fold [of g c NUM_INTID]
  by (auto simp: highest_pending_def deliverable_def split: if_splits)

lemma beats_antisym: "\<lbrakk>beats g c i j; beats g c j i\<rbrakk> \<Longrightarrow> i = j"
  by (auto simp: beats_def)

lemma highest_pending_Some_iff:
  "highest_pending g c = Some (i, p) \<longleftrightarrow>
     deliverable g c i \<and> p = priority_at g c i \<and> (\<forall>j. deliverable g c j \<longrightarrow> beats g c i j)"
proof
  assume r: "deliverable g c i \<and> p = priority_at g c i \<and> (\<forall>j. deliverable g c j \<longrightarrow> beats g c i j)"
  then obtain k q where k: "highest_pending g c = Some (k, q)"
    using highest_pending_None [of g c] by fastforce
  note d = highest_pending_SomeD [OF k]
  have "k = i" using r d(1) d(3) by (auto intro: beats_antisym)
  then show "highest_pending g c = Some (i, p)" using k r d(2) by simp
qed (use highest_pending_SomeD in blast)


section \<open>The invariant\<close>

definition bank_shape :: "cpu_bank \<Rightarrow> bool" where
  "bank_shape b \<longleftrightarrow>
     length (b_enabled b) = PRIVATE \<and> length (b_pending b) = PRIVATE \<and> length (b_active b) = PRIVATE \<and>
     length (b_priority b) = PRIVATE \<and> length (b_level b) = PRIVATE \<and> length (b_edge b) = PRIVATE \<and>
     length (sgi_src b) = 16"

definition stack_ok :: "u8 list \<Rightarrow> bool" where
  "stack_ok xs \<longleftrightarrow> sorted_wrt (>) xs \<and> (\<forall>p \<in> set xs. p < IDLE_PRIO)"

definition bank_ok :: "cpu_bank \<Rightarrow> bool" where
  "bank_ok b \<longleftrightarrow> bank_shape b \<and> stack_ok (running b)"

definition shared_shape :: "gic \<Rightarrow> bool" where
  "shared_shape g \<longleftrightarrow>
     length (g_enabled g) = NUM_INTID \<and> length (g_pending g) = NUM_INTID \<and>
     length (g_active g) = NUM_INTID \<and> length (g_priority g) = NUM_INTID \<and>
     length (g_level g) = NUM_INTID \<and> length (g_edge g) = NUM_INTID \<and> length (targets g) = NUM_INTID"

definition gic_ok :: "nat \<Rightarrow> gic \<Rightarrow> bool" where
  "gic_ok n g \<longleftrightarrow> length (cpus g) = n \<and> 1 \<le> n \<and> n \<le> MAX_CPUS \<and> (\<forall>b \<in> set (cpus g). bank_ok b) \<and> shared_shape g"

lemma bank_ok_default [simp]: "bank_ok bank_default"
  by (simp add: bank_ok_def bank_shape_def stack_ok_def bank_default_def PRIVATE_def)

lemma gic_ok_with_cpus: "gic_ok (max 1 (min n MAX_CPUS)) (with_cpus n)"
  by (auto simp: gic_ok_def with_cpus_def shared_shape_def MAX_CPUS_def)

lemma upd_bank_ok:
  "\<lbrakk>gic_ok n g; c < n; \<And>b. bank_ok b \<Longrightarrow> bank_ok (f b)\<rbrakk> \<Longrightarrow> gic_ok n (upd_bank g c f)"
  by (auto simp: gic_ok_def upd_bank_def shared_shape_def dest!: set_update_subset_insert [THEN subsetD])

lemma bank_ok_upd [simp]:
  "bank_ok (b\<lparr>b_enabled := (b_enabled b)[i := v]\<rparr>) = bank_ok b"
  "bank_ok (b\<lparr>b_pending := (b_pending b)[i := v]\<rparr>) = bank_ok b"
  "bank_ok (b\<lparr>b_active := (b_active b)[i := v]\<rparr>) = bank_ok b"
  "bank_ok (b\<lparr>b_priority := (b_priority b)[i := p]\<rparr>) = bank_ok b"
  "bank_ok (b\<lparr>b_edge := (b_edge b)[i := v]\<rparr>) = bank_ok b"
  "bank_ok (b\<lparr>b_level := (b_level b)[i := v], b_edge := (b_edge b)[j := w]\<rparr>) = bank_ok b"
  "bank_ok (b\<lparr>b_pending := (b_pending b)[i := v], sgi_src := (sgi_src b)[i := p]\<rparr>) = bank_ok b"
  "bank_ok (b\<lparr>cpu_enabled := v\<rparr>) = bank_ok b" "bank_ok (b\<lparr>pmr := p\<rparr>) = bank_ok b"
  by (simp_all add: bank_ok_def bank_shape_def)

lemma gic_ok_shared:
  assumes "gic_ok n g" "cpus g' = cpus g" "shared_shape g'"
  shows "gic_ok n g'"
  using assms by (simp add: gic_ok_def)

lemma gic_ok_shape: "gic_ok n g \<Longrightarrow> shared_shape g"
  by (simp add: gic_ok_def)

lemma foldl_invariant:
  assumes "P g" "\<And>g k. \<lbrakk>P g; k \<in> set ks\<rbrakk> \<Longrightarrow> P (f g k)"
  shows "P (foldl f g ks)"
  using assms by (induction ks arbitrary: g) auto

lemma setters_ok:
  assumes "gic_ok n g" "c < n"
  shows "gic_ok n (set_enabled g c i v)" "gic_ok n (set_pending g c i v)" "gic_ok n (set_active g c i v)"
    "gic_ok n (set_priority g c i p)" "gic_ok n (set_edge g c i v)" "gic_ok n (set_level g c i v)"
  using gic_ok_shape [OF assms(1)]
  by (auto simp: set_enabled_def set_pending_def set_active_def set_priority_def set_edge_def set_level_def
      shared_shape_def intro!: upd_bank_ok [OF assms] gic_ok_shared [OF assms(1)])

lemma bits_set_ok:
  assumes "gic_ok n g" "\<And>g i v. gic_ok n g \<Longrightarrow> gic_ok n (f g c i v)"
  shows "gic_ok n (bits_set g c off start v f on)"
  unfolding bits_set_def by (rule foldl_invariant [where P = "gic_ok n", OF assms(1)]) (simp add: assms(2))

lemma sgir_ok:
  assumes "gic_ok n g"
  shows "gic_ok n (sgir g c v)"
proof -
  have l: "length (cpus g) = n" using assms by (simp add: gic_ok_def)
  show ?thesis unfolding sgir_def Let_def l
    by (rule foldl_invariant [where P = "gic_ok n", OF assms]) (auto intro: upd_bank_ok)
qed

lemma dist_write_ok:
  assumes "gic_ok n g" "c < n"
  shows "gic_ok n (dist_write g c off sz val)"
proof -
  have prio: "gic_ok n (foldl (\<lambda>g k. set_priority g c (idx + k) (h k)) g ks)" for idx h ks
    by (rule foldl_invariant [where P = "gic_ok n", OF assms(1)]) (rule setters_ok(4) [OF _ assms(2)])
  have tgt: "gic_ok n (foldl (\<lambda>g k. if PRIVATE \<le> idx + k \<and> idx + k < NUM_INTID
      then g\<lparr>targets := (targets g)[idx + k := h k]\<rparr> else g) g ks)" for idx h ks
    by (rule foldl_invariant [where P = "gic_ok n", OF assms(1)]) (simp add: gic_ok_def shared_shape_def)
  have edge: "gic_ok n (foldl (\<lambda>g k. set_edge g c (b + k) (h k)) g ks)" for b h ks
    by (rule foldl_invariant [where P = "gic_ok n", OF assms(1)]) (rule setters_ok(5) [OF _ assms(2)])
  have ctlr: "gic_ok n (g\<lparr>dist_enabled := x\<rparr>)" for x
    using assms(1) by (simp add: gic_ok_def shared_shape_def)
  have bits: "gic_ok n (bits_set g c o' start v set_enabled on)" "gic_ok n (bits_set g c o' start v set_pending on)"
    "gic_ok n (bits_set g c o' start v set_active on)" for o' start v on
    by (rule bits_set_ok [OF assms(1)], rule setters_ok [OF _ assms(2)], assumption)+
  show ?thesis
    unfolding dist_write_def Let_def
    by (simp only: prio tgt edge ctlr bits sgir_ok [OF assms(1)] assms(1) if_split) simp
qed

lemma stack_push:
  assumes "stack_ok xs" "p < (if xs = [] then IDLE_PRIO else last xs)"
  shows "stack_ok (xs @ [p])"
proof (cases xs rule: rev_cases)
  case Nil
  then show ?thesis using assms by (simp add: stack_ok_def)
next
  case (snoc ys y)
  then have "p < y" "\<forall>x\<in>set ys. y < x" "y < IDLE_PRIO"
    using assms by (auto simp: stack_ok_def sorted_wrt_append)
  then show ?thesis using assms(1) snoc by (fastforce simp: stack_ok_def sorted_wrt_append)
qed

lemma stack_pop: "stack_ok xs \<Longrightarrow> stack_ok (butlast xs)"
  by (cases xs rule: rev_cases) (auto simp: stack_ok_def sorted_wrt_append)

lemma take_intid_simps:
  "c < length (cpus g) \<Longrightarrow> running (cpus (take_intid g c i) ! c) = running (cpus g ! c)"
  "length (cpus (take_intid g c i)) = length (cpus g)"
  by (simp_all add: take_intid_def upd_bank_def)

lemma take_intid_ok:
  assumes "gic_ok n g" "c < n"
  shows "gic_ok n (take_intid g c i)"
proof (cases "i < PRIVATE")
  case True
  then show ?thesis unfolding take_intid_def
    by (simp, intro upd_bank_ok [OF assms]) (auto simp: bank_ok_def bank_shape_def)
next
  case False
  then show ?thesis using gic_ok_shape [OF assms(1)]
    by (auto simp: take_intid_def shared_shape_def intro!: gic_ok_shared [OF assms(1)])
qed

lemma acknowledge_ok:
  assumes "gic_ok n g" "c < n"
  shows "gic_ok n (fst (acknowledge g c))"
proof (cases "highest_pending g c")
  case (Some ip)
  obtain i p where ip: "ip = (i, p)" by fastforce
  note d = highest_pending_SomeD [OF Some [unfolded ip]]
  let ?g = "take_intid g c i"
  have ok: "gic_ok n ?g" by (rule take_intid_ok [OF assms])
  have c: "c < length (cpus g)" using assms by (simp add: gic_ok_def)
  have b: "bank_ok (cpus ?g ! c)" using ok assms(2) by (simp add: gic_ok_def)
  have "p < running_prio g c" using d(1,2) by (simp add: deliverable_def candidate_def)
  then have "stack_ok (running (cpus ?g ! c) @ [p])"
    using b take_intid_simps(1) [OF c] by (intro stack_push) (auto simp: bank_ok_def running_prio_def)
  then have "bank_ok ((cpus ?g ! c)\<lparr>running := running (cpus ?g ! c) @ [p]\<rparr>)"
    using b by (simp add: bank_ok_def bank_shape_def)
  then have "gic_ok n (push_running ?g c p)"
    using ok by (auto simp: push_running_def upd_bank_def gic_ok_def shared_shape_def
        dest!: set_update_subset_insert [THEN subsetD])
  then show ?thesis using Some ip by (simp add: acknowledge_def Let_def)
qed (simp add: acknowledge_def assms(1))

lemma end_of_interrupt_ok:
  assumes "gic_ok n g" "c < n"
  shows "gic_ok n (end_of_interrupt g c i)"
proof -
  have "gic_ok n (if i < PRIVATE then upd_bank g c (\<lambda>b. b\<lparr>b_active := (b_active b)[i := False]\<rparr>)
      else if i < NUM_INTID then g\<lparr>g_active := (g_active g)[i := False]\<rparr> else g)"
    using setters_ok(3) [OF assms, of i False] assms(1) by (auto simp: set_active_def split: if_splits)
  then show ?thesis unfolding end_of_interrupt_def Let_def
    by (rule upd_bank_ok [OF _ assms(2)]) (simp add: bank_ok_def bank_shape_def stack_pop)
qed

lemma cpu_read_ok: "\<lbrakk>gic_ok n g; c < n\<rbrakk> \<Longrightarrow> gic_ok n (fst (cpu_read g c off sz))"
  by (simp add: cpu_read_def Let_def acknowledge_ok split_beta)

lemma cpu_write_ok: "\<lbrakk>gic_ok n g; c < n\<rbrakk> \<Longrightarrow> gic_ok n (cpu_write g c off val)"
  by (simp add: cpu_write_def Let_def end_of_interrupt_ok upd_bank_ok)



section \<open>The stack never overflows the blob\<close>

lemma stack_length:
  assumes "stack_ok xs"
  shows "length xs \<le> 255"
proof -
  have s: "sorted_wrt (>) xs" "\<forall>p\<in>set xs. p < IDLE_PRIO" using assms by (simp_all add: stack_ok_def)
  have "distinct xs" using s(1) by (induction xs) auto
  then have "distinct (map unat xs)" by (simp add: distinct_map inj_on_def word_unat_eq_iff)
  then have "length xs = card (unat ` set xs)" by (metis distinct_card length_map set_map)
  also have "\<dots> \<le> card {..<255 :: nat}"
    by (rule card_mono) (use s(2) in \<open>auto simp: IDLE_PRIO_def word_less_nat_alt\<close>)
  finally show ?thesis by simp
qed


section \<open>The snapshot blob\<close>

lemma next_bytes_append: "length xs = n \<Longrightarrow> next_bytes n (xs @ r) = (xs, r)"
  by (simp add: next_bytes_def)

lemma byte_flag_flag [simp]: "byte_flag (flag_byte b) = b"
  by (simp add: byte_flag_def flag_byte_def)

lemma next_flags_append: "length xs = n \<Longrightarrow> next_flags n (map flag_byte xs @ r) = (xs, r)"
  by (simp add: next_flags_def next_bytes_append comp_def)

lemma next_byte_Cons [simp]: "next_byte (x # r) = (x, r)"
  by (simp add: next_byte_def)

lemma restore_bank_capture:
  assumes "bank_ok b"
  shows "restore_bank (capture_bank b @ r) = (b, r)"
proof -
  have l: "length (running b) \<le> 255" using assms stack_length by (simp add: bank_ok_def)
  then have n: "unat (of_nat (length (running b)) :: u8) = length (running b)" by (simp add: unat_of_nat)
  show ?thesis
    using assms l n unfolding bank_ok_def bank_shape_def
    by (simp add: restore_bank_def capture_bank_def next_flags_append next_bytes_append min_def)
qed

lemma restore_banks_capture:
  "\<forall>b \<in> set bs. bank_ok b \<Longrightarrow>
     restore_banks (length bs) (concat (map capture_bank bs) @ r) = (bs, r)"
  by (induction bs arbitrary: r) (simp_all add: restore_bank_capture)

lemma restore_v2_capture:
  assumes "gic_ok n s" "length (cpus g) \<le> n"
  shows "gic_restore g (gic_capture s) = s"
proof -
  have n: "1 \<le> n" "n \<le> 8" "length (cpus s) = n" using assms(1) by (simp_all add: gic_ok_def MAX_CPUS_def)
  then have u: "max 1 (min (unat (of_nat n :: u8)) MAX_CPUS) = n" by (simp add: unat_of_nat MAX_CPUS_def)
  have banks: "restore_banks n (concat (map capture_bank (cpus s)) @ r) = (cpus s, r)" for r
    using restore_banks_capture [of "cpus s" r] assms(1) n(3) by (simp add: gic_ok_def)
  show ?thesis
    using gic_ok_shape [OF assms(1)] n assms(2) unfolding shared_shape_def
    by (simp add: gic_restore_def gic_capture_def restore_v2_def banks u [simplified] Let_def
        next_flags_append next_bytes_append next_bytes_append [where r = "[]", simplified])
qed

lemma gic_ok_length: "gic_ok n g \<Longrightarrow> length (cpus g) = n"
  by (simp add: gic_ok_def)

interpretation gic_snap: snapshot_part gic_capture "\<lambda>blob g. gic_restore g blob" "gic_ok n" for n
  by unfold_locales (simp_all add: restore_v2_capture gic_ok_length)


section \<open>Reachable states\<close>

text \<open>Everything the guest and the devices can do to the controller of a VM with \<open>n\<close> vcpus.\<close>

inductive gic_step :: "nat \<Rightarrow> gic \<Rightarrow> gic \<Rightarrow> bool" for n where
  dist_store: "c < n \<Longrightarrow> gic_step n g (dist_write g c off sz val)"
| cpu_load: "c < n \<Longrightarrow> gic_step n g (fst (cpu_read g c off sz))"
| cpu_store: "c < n \<Longrightarrow> gic_step n g (cpu_write g c off val)"
| line: "c < n \<Longrightarrow> gic_step n g (set_level g c i high)"

lemma gic_step_ok: "\<lbrakk>gic_step n g g'; gic_ok n g\<rbrakk> \<Longrightarrow> gic_ok n g'"
  by (induction rule: gic_step.induct) (simp_all add: dist_write_ok cpu_read_ok cpu_write_ok setters_ok)

lemma gic_reachable_ok: "\<lbrakk>(gic_step n)\<^sup>*\<^sup>* g g'; gic_ok n g\<rbrakk> \<Longrightarrow> gic_ok n g'"
  by (induction rule: rtranclp_induct) (auto intro: gic_step_ok)


section \<open>The life of an interrupt\<close>

lemma take_intid_active:
  assumes "gic_ok n g" "c < n" "i < NUM_INTID"
  shows "active_at (push_running (take_intid g c i) c p) c i"
  using assms by (auto simp: active_at_def push_running_def take_intid_def upd_bank_def gic_ok_def
      shared_shape_def bank_ok_def bank_shape_def)

lemma eoi_inactive:
  assumes "gic_ok n g" "c < n" "i < NUM_INTID"
  shows "\<not> active_at (end_of_interrupt g c i) c i"
  using assms by (auto simp: active_at_def end_of_interrupt_def upd_bank_def gic_ok_def
      shared_shape_def bank_ok_def bank_shape_def Let_def)

lemma eoi_running:
  assumes "gic_ok n g" "c < n"
  shows "running (cpus (end_of_interrupt g c i) ! c) = butlast (running (cpus g ! c))"
  using assms by (auto simp: end_of_interrupt_def upd_bank_def gic_ok_def Let_def)

lemma ack_running:
  assumes "gic_ok n g" "c < n"
  shows "running (cpus (push_running (take_intid g c i) c p) ! c) = running (cpus g ! c) @ [p]"
  using assms by (auto simp: push_running_def take_intid_def upd_bank_def gic_ok_def)

end
