(* ===== verification/Gic_Props.thy ===== *)
theory Gic_Props
  imports Gic_Laws
begin

text \<open>
  The properties of the software interrupt controller: arbitration, the acknowledge/complete life
  cycle, enable registers, software-generated interrupts, and the snapshot blob.
\<close>

section \<open>A concrete controller\<close>

text \<open>One vcpu with its interface open, SPI 33 enabled and its line high.\<close>

definition demo_gic :: gic where
  "demo_gic = (with_cpus 1)\<lparr>dist_enabled := True, cpus := [bank_default\<lparr>cpu_enabled := True, pmr := 0xf0\<rparr>],
     g_enabled := (replicate NUM_INTID False)[33 := True], g_level := (replicate NUM_INTID False)[33 := True]\<rparr>"

lemma demo_gic_ok [simp]: "gic_ok 1 demo_gic"
  using bank_ok_default
  by (simp add: gic_ok_def demo_gic_def with_cpus_def shared_shape_def MAX_CPUS_def bank_ok_def bank_shape_def
      stack_ok_def bank_default_def PRIVATE_def)

lemma demo_deliverable: "deliverable demo_gic 0 i \<longleftrightarrow> i = 33"
  by (auto simp: deliverable_def candidate_def enabled_at_def active_at_def is_pending_def priority_at_def
      running_prio_def demo_gic_def with_cpus_def bank_default_def NUM_INTID_def PRIVATE_def IDLE_PRIO_def
      nth_list_update word_less_nat_alt split: if_splits)

lemma demo_highest: "highest_pending demo_gic 0 = Some (33, 0)"
  unfolding highest_pending_Some_iff demo_deliverable
  by (simp add: beats_def priority_at_def demo_gic_def with_cpus_def PRIVATE_def NUM_INTID_def)


section \<open>Arbitration\<close>

text \<open>C36. The arbitration loop implements its specification: it returns the deliverable interrupt of
  the numerically lowest priority, ties to the lowest INTID, and nothing exactly when no interrupt
  is deliverable, an interrupt being deliverable when the distributor is on and it is enabled,
  inactive, pending for this vcpu, and more urgent than both the mask and the running
  priority.\<close>

theorem gic_arbitration:
  "(highest_pending g c = None \<longleftrightarrow> {i. deliverable g c i} = {}) \<and>
   (highest_pending g c = Some (i, p) \<longleftrightarrow>
      i \<in> {i. deliverable g c i} \<and> p = priority_at g c i \<and> {j. deliverable g c j} \<subseteq> {j. beats g c i j})"
  using highest_pending_None [of g c] highest_pending_Some_iff [of g c i p] by auto

lemma low_ten_bits: "(0x3ff :: u32) = mask 10"
  by (simp add: mask_eq_exp_minus_1)

lemma iar_intid: "i < NUM_INTID \<Longrightarrow> (of_nat i :: u32) AND 0x3ff = of_nat i"
  unfolding low_ten_bits take_bit_eq_mask [symmetric] take_bit_of_nat
  by (simp add: NUM_INTID_def take_bit_nat_eq_self)

lemma iar_sgi: "i < NUM_INTID \<Longrightarrow> (of_nat i OR push_bit 10 s :: u32) AND 0x3ff = of_nat i"
  using iar_intid [of i] unfolding low_ten_bits take_bit_eq_mask [symmetric]
  by (simp add: take_bit_push_bit)

text \<open>Acknowledging takes the arbitrated interrupt: the vcpu reads its INTID (for an SGI, with
  the sender), it becomes active, so it cannot be delivered again, and its priority is the running
  one, so only more urgent interrupts preempt; completing it makes it inactive and restores the
  running priorities it interrupted.\<close>

theorem gic_acknowledge_complete:
  assumes "gic_ok n g" "c < n" "highest_pending g c = Some (i, p)"
  shows "let (g', v) = acknowledge g c; g'' = end_of_interrupt g' c i in
     v AND 0x3ff = of_nat i \<and> active_at g' c i \<and> \<not> deliverable g' c i \<and> running_prio g' c = p \<and>
     (\<forall>j. deliverable g' c j \<longrightarrow> priority_at g' c j < p) \<and>
     \<not> active_at g'' c i \<and> running (cpus g'' ! c) = running (cpus g ! c) \<and> gic_ok n g''"
proof -
  let ?g = "push_running (take_intid g c i) c p"
  have d: "deliverable g c i" using highest_pending_SomeD [OF assms(3)] by blast
  then have i: "i < NUM_INTID" by (simp add: deliverable_def)
  have ok: "gic_ok n ?g" using acknowledge_ok [OF assms(1,2)] assms(3) by (simp add: acknowledge_def Let_def)
  have act: "active_at ?g c i" by (rule take_intid_active [OF assms(1,2) i])
  have run: "running (cpus ?g ! c) = running (cpus g ! c) @ [p]" by (rule ack_running [OF assms(1,2)])
  have ack: "\<exists>v. acknowledge g c = (?g, v) \<and> v AND 0x3ff = of_nat i"
    using assms(3) i by (auto simp: acknowledge_def Let_def intro: iar_intid iar_sgi)
  have rp: "running_prio ?g c = p" by (simp add: running_prio_def run)
  have pre: "\<forall>j. deliverable ?g c j \<longrightarrow> priority_at ?g c j < p"
    using rp by (simp add: deliverable_def candidate_def)
  show ?thesis
    using ack act rp pre eoi_inactive [OF ok assms(2) i] eoi_running [OF ok assms(2), of i] run
      end_of_interrupt_ok [OF ok assms(2), of i]
    by (auto simp: Let_def deliverable_def candidate_def)
qed

theorem gic_acknowledge_complete_witness:
  "snd (acknowledge demo_gic 0) AND 0x3ff = 33 \<and>
   running (cpus (end_of_interrupt (fst (acknowledge demo_gic 0)) 0 33) ! 0) = []"
proof -
  have "running (cpus demo_gic ! 0) = []" by (simp add: demo_gic_def bank_default_def)
  with gic_acknowledge_complete [OF demo_gic_ok _ demo_highest] show ?thesis
    by (simp add: Let_def split_beta)
qed

text \<open>The word that tells the run loop which vcpus to kick has bit \<open>c\<close> set exactly for the
  vcpus of the machine that have an open interface and something deliverable.\<close>

theorem gic_pending_cpus:
  "bit (pending_cpus g) c \<longleftrightarrow> c < 32 \<and> c < length (cpus g) \<and> cpu_enabled (cpus g ! c) \<and> (\<exists>i. deliverable g c i)"
proof -
  have "bit (foldl (\<lambda>m c. m OR push_bit c 1) m cs) c \<longleftrightarrow> bit m c \<or> c < 32 \<and> c \<in> set cs" for m :: u32 and cs
    by (induction cs arbitrary: m) (auto simp: bit_simps)
  then show ?thesis
    using highest_pending_None [of g c] by (auto simp: pending_cpus_def irq_pending_def)
qed


section \<open>Registers\<close>

lemma enabled_set_enabled:
  assumes "gic_ok n g" "c < n" "i < NUM_INTID" "j < NUM_INTID"
  shows "enabled_at (set_enabled g c j on) c i = (if i = j then on else enabled_at g c i)"
  using assms by (auto simp: enabled_at_def set_enabled_def upd_bank_def gic_ok_def shared_shape_def
      bank_ok_def bank_shape_def nth_list_update)

lemma enabled_bits_set:
  assumes "gic_ok n g" "c < n" "i < NUM_INTID"
  shows "enabled_at (bits_set g c off start v set_enabled on) c i =
    (if base_index off start \<le> i \<and> i < base_index off start + 32 \<and> bit v (i - base_index off start) then on
     else enabled_at g c i)"
proof -
  let ?b = "base_index off start"
  let ?f = "\<lambda>g k. if v AND push_bit k 1 \<noteq> 0 \<and> ?b + k < NUM_INTID then set_enabled g c (?b + k) on else g"
  have "enabled_at (foldl ?f g ks) c i = (if \<exists>k \<in> set ks. bit v k \<and> ?b + k = i then on else enabled_at g c i)" for ks
    using assms
  proof (induction ks arbitrary: g)
    case (Cons k ks)
    then show ?case
      using enabled_set_enabled [OF Cons.prems, of "?b + k" on] setters_ok(1) [OF Cons.prems(1,2), of "?b + k" on]
      by (auto simp: and_exp_eq_0_iff_not_bit)
  qed simp
  then show ?thesis unfolding bits_set_def by (auto simp: le_iff_add)
qed

lemma enable_words:
  "k < 8 \<Longrightarrow> base_index ((GICD_ISENABLER + 4 * of_nat k) AND NOT 3) GICD_ISENABLER = 32 * k"
  "k < 8 \<Longrightarrow> base_index ((GICD_ICENABLER + 4 * of_nat k) AND NOT 3) GICD_ICENABLER = 32 * k"
  by (simp_all add: less_Suc_eq numeral_eq_Suc base_index_def gic_offsets) (elim disjE; simp)+

lemma dist_write_enable:
  assumes "k < 8"
  shows "dist_write g c (GICD_ISENABLER + 4 * of_nat k) sz val =
     bits_set g c ((GICD_ISENABLER + 4 * of_nat k) AND NOT 3) GICD_ISENABLER (ucast val) set_enabled True"
  and "dist_write g c (GICD_ICENABLER + 4 * of_nat k) sz val =
     bits_set g c ((GICD_ICENABLER + 4 * of_nat k) AND NOT 3) GICD_ICENABLER (ucast val) set_enabled False"
proof -
  have k: "k = 0 \<or> k = 1 \<or> k = 2 \<or> k = 3 \<or> k = 4 \<or> k = 5 \<or> k = 6 \<or> k = 7" using assms by auto
  note defs = dist_write_def reg_range_def gic_offsets Let_def word_le_nat_alt word_less_nat_alt
  show "dist_write g c (GICD_ISENABLER + 4 * of_nat k) sz val =
      bits_set g c ((GICD_ISENABLER + 4 * of_nat k) AND NOT 3) GICD_ISENABLER (ucast val) set_enabled True"
    using k by (elim disjE; hypsubst) (simp_all add: defs)
  show "dist_write g c (GICD_ICENABLER + 4 * of_nat k) sz val =
      bits_set g c ((GICD_ICENABLER + 4 * of_nat k) AND NOT 3) GICD_ICENABLER (ucast val) set_enabled False"
    using k by (elim disjE; hypsubst) (simp_all add: defs)
qed

text \<open>The set-enable and clear-enable registers are write-one-to-act: writing \<open>v\<close> to word \<open>k\<close>
  enables, respectively disables, exactly the interrupts of that word whose bit is set, for this
  vcpu, and leaves every other enable bit alone.\<close>

theorem gic_enable_registers:
  assumes "gic_ok n g" "c < n" "k < 8" "i < NUM_INTID"
  shows "enabled_at (dist_write g c (GICD_ISENABLER + 4 * of_nat k) 4 (ucast (v :: u32))) c i
           = (enabled_at g c i \<or> i div 32 = k \<and> bit v (i mod 32)) \<and>
         enabled_at (dist_write g c (GICD_ICENABLER + 4 * of_nat k) 4 (ucast v)) c i
           = (enabled_at g c i \<and> \<not> (i div 32 = k \<and> bit v (i mod 32)))"
proof -
  have "32 * k \<le> i \<and> i < 32 * k + 32 \<and> bit v (i - 32 * k) \<longleftrightarrow> i div 32 = k \<and> bit v (i mod 32)"
  proof -
    have "32 * k \<le> i \<and> i < 32 * k + 32 \<longleftrightarrow> i div 32 = k" by auto
    moreover have "i div 32 = k \<Longrightarrow> i - 32 * k = i mod 32" using minus_mult_div_eq_mod [of i 32] by simp
    ultimately show ?thesis by auto
  qed
  then show ?thesis
    unfolding dist_write_enable [OF assms(3)] enabled_bits_set [OF assms(1,2,4)] enable_words [OF assms(3)]
    by (auto split: if_splits)
qed

theorem gic_enable_registers_witness:
  "enabled_at (dist_write demo_gic 0 (GICD_ICENABLER + 4) 4 (ucast (2 :: u32))) 0 33 = False"
  using gic_enable_registers [OF demo_gic_ok, of 0 1 33 2] by (simp add: NUM_INTID_def bit_simps)

text \<open>A software-generated interrupt reaches exactly the vcpus its target filter selects: in
  their banks the interrupt is pending and the sender recorded, every other bank and the shared
  state are unchanged.\<close>

theorem gic_sgi_targets:
  assumes "gic_ok n g" "t < n"
  shows "let s = unat (v AND 0xf); b = cpus g ! t; g' = sgir g c v in
     cpus g' ! t = (if sgir_hit c v t
                    then b\<lparr>b_pending := (b_pending b)[s := True], sgi_src := (sgi_src b)[s := of_nat c]\<rparr> else b) \<and>
     g'\<lparr>cpus := cpus g\<rparr> = g"
proof -
  let ?s = "unat (v AND 0xf)"
  let ?u = "\<lambda>b. b\<lparr>b_pending := (b_pending b)[?s := True], sgi_src := (sgi_src b)[?s := of_nat c]\<rparr>"
  let ?f = "\<lambda>g t. if sgir_hit c v t then upd_bank g t ?u else g"
  have "length (cpus (foldl ?f g [0..<m])) = length (cpus g) \<and>
      (\<forall>t < length (cpus g). cpus (foldl ?f g [0..<m]) ! t =
        (if t < m \<and> sgir_hit c v t then ?u (cpus g ! t) else cpus g ! t)) \<and>
      (foldl ?f g [0..<m])\<lparr>cpus := cpus g\<rparr> = g" for m
    by (induction m) (auto simp: upd_bank_def nth_list_update)
  from this [of "length (cpus g)"] assms gic_ok_length [OF assms(1)] show ?thesis
    by (simp add: sgir_def Let_def)
qed

theorem gic_sgi_targets_witness:
  "b_pending (cpus (sgir demo_gic 0 0x00010005) ! 0) ! 5"
proof -
  have "length (b_pending (cpus demo_gic ! 0)) = 32" by (simp add: demo_gic_def bank_default_def PRIVATE_def)
  with gic_sgi_targets [OF demo_gic_ok, of 0 "0x00010005" 0] show ?thesis
    by (simp add: Let_def sgir_hit_def)
qed


section \<open>Reachable states and the snapshot blob\<close>

text \<open>C37. Whatever the guest writes to the controller and whatever lines the devices drive, the
  running-priority stack of every vcpu stays strictly decreasing and at most 255 deep, so that its
  length fits the blob's byte, and restoring a captured blob into a fresh controller of the same
  machine reproduces the state exactly.\<close>

theorem gic_snapshot_exact:
  assumes "(gic_step n)\<^sup>*\<^sup>* (with_cpus n) g" "1 \<le> n" "n \<le> MAX_CPUS"
  shows "gic_restore (with_cpus n) (gic_capture g) = g \<and>
         list_all (\<lambda>b. length (running b) \<le> 255 \<and> sorted_wrt (>) (running b)) (cpus g)"
proof -
  have n: "max 1 (min n MAX_CPUS) = n" using assms(2,3) by simp
  then have ok: "gic_ok n g" using gic_reachable_ok [OF assms(1)] gic_ok_with_cpus [of n] by simp
  have "gic_restore (with_cpus n) (gic_capture g) = g"
    using restore_v2_capture [OF ok, of "with_cpus n"] n by (simp add: with_cpus_def)
  moreover have "\<forall>b \<in> set (cpus g). stack_ok (running b)" using ok by (simp add: gic_ok_def bank_ok_def)
  ultimately show ?thesis using stack_length by (auto simp: list_all_iff stack_ok_def)
qed

theorem gic_snapshot_exact_witness:
  "gic_restore (with_cpus 1) (gic_capture (set_level (with_cpus 1) 0 33 True)) = set_level (with_cpus 1) 0 33 True"
proof -
  have "(gic_step 1)\<^sup>*\<^sup>* (with_cpus 1) (set_level (with_cpus 1) 0 33 True)"
    by (rule r_into_rtranclp) (rule gic_step.line, simp)
  from gic_snapshot_exact [OF this] show ?thesis by (simp add: MAX_CPUS_def)
qed

text \<open>A blob without the current layout's magic byte restores a controller of a single vcpu,
  however many the running machine has, while a blob of the current layout never drops
  any.\<close>

theorem gic_restore_vcpus:
  "length (cpus (gic_restore g blob)) =
     (if blob \<noteq> [] \<and> hd blob = BLOB_MAGIC
      then max (length (cpus g)) (max 1 (min (unat (fst (next_byte (drop 2 blob)))) MAX_CPUS)) else 1)"
proof -
  have "length (fst (restore_banks k r)) = k" for k r
    by (induction k arbitrary: r) (simp_all add: split_beta)
  moreover have "a + (b - a) = max b a" for a b :: nat by simp
  ultimately show ?thesis
    by (simp add: gic_restore_def restore_v2_def restore_legacy_def Let_def split_beta)
qed

end
