(* ===== verification/Pl011.thy ===== *)
theory Pl011
  imports Prelude "HOL-Library.Sublist"
begin

text \<open>
  The PL011 UART of \<open>amber-core/src/bus.rs\<close>: data and flag registers over a receive FIFO, the
  configuration registers that survive a snapshot, and the console-output trigger that latches
  when the guest's output ends with an armed marker.  The host sink is the list of bytes written
  to it; write errors are ignored by the source.
\<close>

record pl011 =
  uart_out :: bytes
  uart_rx :: bytes
  cr :: u32
  imsc :: u32
  ris :: u32
  ibrd :: u32
  fbrd :: u32
  lcr_h :: u32
  ifls :: u32
  marker :: bytes
  tx_tail :: bytes
  marked :: bool

definition UART_DR :: u64 where "UART_DR = 0x000"
definition UART_FR :: u64 where "UART_FR = 0x018"
definition UART_IBRD :: u64 where "UART_IBRD = 0x024"
definition UART_FBRD :: u64 where "UART_FBRD = 0x028"
definition UART_LCR_H :: u64 where "UART_LCR_H = 0x02c"
definition UART_CR :: u64 where "UART_CR = 0x030"
definition UART_IFLS :: u64 where "UART_IFLS = 0x034"
definition UART_IMSC :: u64 where "UART_IMSC = 0x038"
definition UART_RIS :: u64 where "UART_RIS = 0x03c"
definition UART_MIS :: u64 where "UART_MIS = 0x040"
definition UART_ICR :: u64 where "UART_ICR = 0x044"
definition FR_RXFE :: u64 where "FR_RXFE = push_bit 4 1"
definition FR_TXFE :: u64 where "FR_TXFE = push_bit 7 1"
definition INT_RX :: u32 where "INT_RX = push_bit 4 1"
definition INT_RT :: u32 where "INT_RT = push_bit 6 1"

lemmas uart_offsets = UART_DR_def UART_FR_def UART_IBRD_def UART_FBRD_def UART_LCR_H_def UART_CR_def
  UART_IFLS_def UART_IMSC_def UART_RIS_def UART_MIS_def UART_ICR_def

definition UART_ID :: "(u64 \<times> u8) list" where
  "UART_ID = [(0xfe0, 0x11), (0xfe4, 0x10), (0xfe8, 0x14), (0xfec, 0x00),
              (0xff0, 0x0d), (0xff4, 0xf0), (0xff8, 0x05), (0xffc, 0xb1)]"

definition pl011_new :: pl011 where
  "pl011_new =
     \<lparr>uart_out = [], uart_rx = [], cr = 0, imsc = 0, ris = 0, ibrd = 0, fbrd = 0, lcr_h = 0,
      ifls = 0, marker = [], tx_tail = [], marked = False\<rparr>"

definition arm_marker :: "pl011 \<Rightarrow> bytes \<Rightarrow> pl011" where
  "arm_marker u m = u\<lparr>marker := m, tx_tail := [], marked := False\<rparr>"

definition push_rx :: "pl011 \<Rightarrow> u8 \<Rightarrow> pl011" where
  "push_rx u b = u\<lparr>uart_rx := uart_rx u @ [b], ris := ris u OR (INT_RX OR INT_RT)\<rparr>"

definition uart_irq_level :: "pl011 \<Rightarrow> bool" where
  "uart_irq_level u \<longleftrightarrow> ris u AND imsc u \<noteq> 0"

definition regs :: "pl011 \<Rightarrow> u32 \<times> u32 \<times> u32 \<times> u32 \<times> u32 \<times> u32" where
  "regs u = (cr u, imsc u, ibrd u, fbrd u, lcr_h u, ifls u)"

definition set_regs :: "u32 \<times> u32 \<times> u32 \<times> u32 \<times> u32 \<times> u32 \<Rightarrow> pl011 \<Rightarrow> pl011" where
  "set_regs r u =
     (case r of (c, m, ib, fb, l, f) \<Rightarrow>
        u\<lparr>cr := c, imsc := m, ibrd := ib, fbrd := fb, lcr_h := l, ifls := f\<rparr>)"

definition uart_read :: "pl011 \<Rightarrow> u64 \<Rightarrow> pl011 \<times> u64" where
  "uart_read u off =
     (case map_of UART_ID off of
        Some v \<Rightarrow> (u, ucast v)
      | None \<Rightarrow>
          if off = UART_DR then
            let b = (case uart_rx u of [] \<Rightarrow> 0 | x # _ \<Rightarrow> x);
                u1 = u\<lparr>uart_rx := tl (uart_rx u)\<rparr>
            in (if uart_rx u1 = [] then u1\<lparr>ris := ris u1 AND NOT (INT_RX OR INT_RT)\<rparr> else u1, ucast b)
          else if off = UART_FR then (u, if uart_rx u = [] then FR_TXFE OR FR_RXFE else FR_TXFE)
          else if off = UART_RIS then (u, ucast (ris u))
          else if off = UART_MIS then (u, ucast (ris u AND imsc u))
          else if off = UART_IMSC then (u, ucast (imsc u))
          else if off = UART_CR then (u, ucast (cr u))
          else if off = UART_IBRD then (u, ucast (ibrd u))
          else if off = UART_FBRD then (u, ucast (fbrd u))
          else if off = UART_LCR_H then (u, ucast (lcr_h u))
          else if off = UART_IFLS then (u, ucast (ifls u))
          else (u, 0))"

text \<open>A transmitted byte: it goes to the sink, and while a marker is armed and has not been seen
  the tail of the stream is compared with it.  The \<open>while\<close> loop drops from the front until the
  tail is no longer than the marker.\<close>

definition track_marker :: "pl011 \<Rightarrow> u8 \<Rightarrow> pl011" where
  "track_marker u b =
     (if marker u \<noteq> [] \<and> \<not> marked u then
        let t = tx_tail u @ [b];
            t' = drop (length t - length (marker u)) t
        in u\<lparr>tx_tail := t', marked := (length t' = length (marker u) \<and> t' = marker u)\<rparr>
      else u)"

definition transmit :: "pl011 \<Rightarrow> u8 \<Rightarrow> pl011" where
  "transmit u b = track_marker (u\<lparr>uart_out := uart_out u @ [b]\<rparr>) b"

definition uart_write :: "pl011 \<Rightarrow> u64 \<Rightarrow> u64 \<Rightarrow> pl011" where
  "uart_write u off value =
     (let v = ucast value :: u32 in
      if off = UART_DR then transmit u (ucast value)
      else if off = UART_IMSC then u\<lparr>imsc := v\<rparr>
      else if off = UART_CR then u\<lparr>cr := v\<rparr>
      else if off = UART_IBRD then u\<lparr>ibrd := v\<rparr>
      else if off = UART_FBRD then u\<lparr>fbrd := v\<rparr>
      else if off = UART_LCR_H then u\<lparr>lcr_h := v\<rparr>
      else if off = UART_IFLS then u\<lparr>ifls := v\<rparr>
      else if off = UART_ICR then u\<lparr>ris := ris u AND NOT v\<rparr>
      else u)"

section \<open>Snapshot of the configuration registers\<close>

interpretation uart_snap: snapshot_part regs set_regs "\<lambda>_. True"
  by unfold_locales (simp_all add: regs_def set_regs_def)


section \<open>The console-output trigger\<close>

text \<open>What the trigger promises: the marker occurs in the output.\<close>

definition appeared :: "bytes \<Rightarrow> bytes \<Rightarrow> bool" where
  "appeared m out \<longleftrightarrow> (\<exists>k \<le> length out. suffix m (take k out))"

definition tail_of :: "nat \<Rightarrow> 'a list \<Rightarrow> 'a list" where
  "tail_of n xs = drop (length xs - n) xs"

lemma tail_of_snoc: "tail_of n (tail_of n xs @ [b]) = tail_of n (xs @ [b])"
  by (cases "length xs \<le> n") (auto simp: tail_of_def Suc_diff_le)

lemma suffix_tail_of: "suffix m xs \<longleftrightarrow> length m \<le> length xs \<and> tail_of (length m) xs = m"
  by (auto simp: suffix_def tail_of_def) (metis append_take_drop_id)

lemma appeared_snoc:
  "appeared m (out @ [b]) \<longleftrightarrow> appeared m out \<or> suffix m (out @ [b])"
proof -
  have "(\<exists>k \<le> Suc (length out). suffix m (take k (out @ [b]))) \<longleftrightarrow>
      (\<exists>k \<le> length out. suffix m (take k (out @ [b]))) \<or> suffix m (out @ [b])"
    by (auto simp: le_Suc_eq)
  then show ?thesis by (auto simp: appeared_def)
qed

definition marker_inv :: "bytes \<Rightarrow> bytes \<Rightarrow> pl011 \<Rightarrow> bool" where
  "marker_inv m out u \<longleftrightarrow>
     marker u = m \<and> marked u = appeared m out \<and> (\<not> marked u \<longrightarrow> tx_tail u = tail_of (length m) out)"

lemma marker_inv_transmit:
  assumes "m \<noteq> []" "marker_inv m out u"
  shows "marker_inv m (out @ [b]) (transmit u b)"
proof (cases "marked u")
  case True
  then show ?thesis using assms by (simp add: marker_inv_def transmit_def track_marker_def appeared_snoc)
next
  case False
  let ?t = "tail_of (length m) (tail_of (length m) out @ [b])"
  have t: "?t = tail_of (length m) (out @ [b])" by (rule tail_of_snoc)
  have "(length ?t = length m \<and> ?t = m) = suffix m (out @ [b])"
    unfolding t suffix_tail_of by (auto simp: tail_of_def)
  then show ?thesis
    using assms False t
    by (auto simp: marker_inv_def transmit_def track_marker_def Let_def appeared_snoc tail_of_def)
qed

lemma marker_inv_transmits:
  "\<lbrakk>m \<noteq> []; marker_inv m out u\<rbrakk> \<Longrightarrow> marker_inv m (out @ bs) (foldl transmit u bs)"
  by (induction bs arbitrary: u out) (simp, metis append.assoc append_Cons append_Nil foldl_Cons marker_inv_transmit)

lemma marker_inv_arm: "m \<noteq> [] \<Longrightarrow> marker_inv m [] (arm_marker u m)"
  by (simp add: marker_inv_def arm_marker_def appeared_def tail_of_def)

end
