(* ===== verification/Console_Props.thy ===== *)
theory Console_Props
  imports Pl011 Core
begin

text \<open>
  The properties of the console UART, of the exit decoder and of the CPU templates.
\<close>

section \<open>The console\<close>

lemma appeared_sublist: "appeared m out \<longleftrightarrow> sublist m out"
  unfolding appeared_def sublist_altdef
  by (metis append_eq_conv_conj le_cases prefixE prefix_length_le take_all take_is_prefix)

text \<open>The console trigger fires exactly when the armed marker occurs somewhere in the bytes the
  guest has transmitted since, and every transmitted byte reaches the host in order.\<close>

theorem uart_marker_latches:
  "(marked (foldl transmit (arm_marker u (x # m)) bs) \<longleftrightarrow> sublist (x # m) bs) \<and>
   uart_out (foldl transmit (arm_marker u (x # m)) bs) = uart_out u @ bs"
proof -
  have "marker_inv (x # m) ([] @ bs) (foldl transmit (arm_marker u (x # m)) bs)"
    by (rule marker_inv_transmits) (simp_all add: marker_inv_arm)
  moreover have "uart_out (foldl transmit v bs) = uart_out v @ bs" for v
    by (induction bs arbitrary: v) (simp_all add: transmit_def track_marker_def Let_def)
  ultimately show ?thesis by (simp add: marker_inv_def appeared_sublist arm_marker_def)
qed

text \<open>Reading the data register \<open>n\<close> times.\<close>

fun read_bytes :: "pl011 \<Rightarrow> nat \<Rightarrow> pl011 \<times> u8 list" where
  "read_bytes u 0 = (u, [])"
| "read_bytes u (Suc n) =
     (case uart_read u UART_DR of (u1, v) \<Rightarrow> (case read_bytes u1 n of (u2, vs) \<Rightarrow> (u2, ucast v # vs)))"

lemma uart_read_dr:
  "uart_read u UART_DR =
     (if tl (uart_rx u) = [] then u\<lparr>uart_rx := [], ris := ris u AND NOT (INT_RX OR INT_RT)\<rparr>
      else u\<lparr>uart_rx := tl (uart_rx u)\<rparr>,
      ucast (case uart_rx u of [] \<Rightarrow> 0 | x # _ \<Rightarrow> x))"
  by (simp add: uart_read_def UART_DR_def UART_ID_def Let_def)

lemma read_bytes_all:
  "bs \<noteq> [] \<Longrightarrow> uart_rx u = bs \<Longrightarrow>
     read_bytes u (length bs) = (u\<lparr>uart_rx := [], ris := ris u AND NOT (INT_RX OR INT_RT)\<rparr>, bs)"
proof (induction bs arbitrary: u)
  case (Cons b bs)
  then show ?case by (cases bs) (simp_all add: uart_read_dr)
qed simp

lemma push_rx_all:
  "bs \<noteq> [] \<Longrightarrow> foldl push_rx u bs = u\<lparr>uart_rx := uart_rx u @ bs, ris := ris u OR (INT_RX OR INT_RT)\<rparr>"
proof (induction bs rule: rev_induct)
  case (snoc b bs)
  then show ?case by (cases "bs = []") (simp_all add: push_rx_def or.assoc)
qed simp

text \<open>The receive FIFO is faithful: host bytes pushed into an empty UART are read back by the
  guest in order, the receive interrupt stays asserted while any is left and is withdrawn with the
  last one.\<close>

theorem uart_rx_roundtrip:
  assumes "uart_rx u = []" "bs \<noteq> []"
  shows "uart_irq_level (foldl push_rx (u\<lparr>imsc := INT_RX\<rparr>) bs) \<and>
    snd (read_bytes (foldl push_rx u bs) (length bs)) = bs \<and>
    uart_rx (fst (read_bytes (foldl push_rx u bs) (length bs))) = [] \<and>
    ris (fst (read_bytes (foldl push_rx u bs) (length bs))) = ris u AND NOT (INT_RX OR INT_RT)"
proof -
  let ?v = "foldl push_rx u bs"
  have "uart_rx ?v = bs" using assms by (simp add: push_rx_all)
  from read_bytes_all [OF assms(2) this] assms show ?thesis
    by (simp add: push_rx_all uart_irq_level_def INT_RX_def INT_RT_def bit.conj_disj_distrib2)
qed

theorem uart_rx_roundtrip_witness:
  "snd (read_bytes (foldl push_rx pl011_new [104, 105]) 2) = [104, 105]"
  using uart_rx_roundtrip [of pl011_new "[104, 105]"] by (simp add: pl011_new_def numeral_2_eq_2)


section \<open>Exits\<close>

text \<open>The syndrome of a data abort with valid instruction information, from its fields.\<close>

definition abort_syndrome :: "u64 \<Rightarrow> u64 \<Rightarrow> bool \<Rightarrow> u64" where
  "abort_syndrome sas srt w =
     push_bit 26 0x24 OR push_bit 24 1 OR push_bit 22 (take_bit 2 sas) OR push_bit 16 (take_bit 5 srt) OR
     (if w then push_bit 6 1 else 0)"

lemma bit_abort_syndrome:
  "bit (abort_syndrome sas srt w) k \<longleftrightarrow>
     k = 28 \<or> k = 31 \<or> k = 24 \<or> 22 \<le> k \<and> k < 24 \<and> bit sas (k - 22) \<or>
     16 \<le> k \<and> k < 21 \<and> bit srt (k - 16) \<or> w \<and> k = 6"
proof -
  have ec: "(0x24 :: u64) = push_bit 5 1 OR push_bit 2 1" by simp
  note bits = bit_push_bit_iff bit_or_iff bit_1_iff bit_take_bit_iff possible_bit_word
  have 1: "bit (push_bit 26 0x24 :: u64) k \<longleftrightarrow> k = 28 \<or> k = 31" "bit (push_bit 24 1 :: u64) k \<longleftrightarrow> k = 24"
    "bit (push_bit 6 1 :: u64) k \<longleftrightarrow> k = 6"
    unfolding ec bits by auto
  have "bit (push_bit 22 (take_bit 2 sas)) k \<longleftrightarrow> 22 \<le> k \<and> k < 24 \<and> bit sas (k - 22)"
    "bit (push_bit 16 (take_bit 5 srt)) k \<longleftrightarrow> 16 \<le> k \<and> k < 21 \<and> bit srt (k - 16)"
    unfolding bits by auto
  with 1 show ?thesis by (simp add: abort_syndrome_def bit_or_iff)
qed

lemma syndrome_fields:
  fixes sas srt :: u64 and w :: bool
  defines "S \<equiv> abort_syndrome sas srt w"
  shows "take_bit 6 (drop_bit 26 S) = push_bit 5 1 OR push_bit 2 1"
    "take_bit 1 (drop_bit 24 (take_bit 25 S)) = 1"
    "take_bit 2 (drop_bit 22 (take_bit 25 S)) = take_bit 2 sas"
    "take_bit 5 (drop_bit 16 (take_bit 25 S)) = take_bit 5 srt"
    "take_bit 1 (drop_bit 6 (take_bit 25 S)) = (if w then 1 else 0)"
  unfolding S_def
  by (rule bit_word_eqI;
      simp only: bit_take_bit_iff bit_drop_bit_eq comp_def bit_or_iff bit_push_bit_iff bit_1_iff
        bit_abort_syndrome possible_bit_word;
      auto simp: bit_1_iff)+

text \<open>The exit decoder inverts the architecture's encoding: from the syndrome of a trapped
  access it recovers the access size, the transfer register, the direction and, for a store, the
  value of that register.\<close>

theorem decode_abort_syndrome:
  "decode_data_abort (abort_syndrome sas srt w) ipa get_x =
     Some (\<lparr>ma_ipa = ipa, ma_size = push_bit (unat (take_bit 2 sas)) 1,
            ma_write = (if w then Some (get_x (ucast (take_bit 5 srt))) else None)\<rparr>,
           ucast (take_bit 5 srt))"
proof -
  have m: "(0x3f :: u64) = mask 6" "(0x1ffffff :: u64) = mask 25" "(3 :: u64) = mask 2" "(0x1f :: u64) = mask 5"
    "x AND 1 = take_bit 1 x" for x :: u64
    by (simp_all add: mask_eq_exp_minus_1 take_bit_eq_mask)
  show ?thesis
    unfolding decode_data_abort_def Let_def m take_bit_eq_mask [symmetric] syndrome_fields by simp
qed

section \<open>CPU templates\<close>

text \<open>The \<open>no-crypto\<close> template hides exactly the cryptography fields of the instruction-set
  register, bits 4 to 15 and 32 to 43, and changes no other bit of it and no other register; the
  \<open>host\<close> template changes nothing.\<close>

theorem cpu_templates_mask:
  fixes idr :: "u32 \<Rightarrow> u64"
  shows
  "map (\<lambda>n. map_option (\<lambda>t. apply_cpu_template t idr) (by_name n)) [''host'', ''no-crypto'', ''x''] =
     [Some idr, Some (\<lambda>r. if r = ID_AA64ISAR0_EL1 then idr r AND NOT CRYPTO_FIELDS else idr r), None] \<and>
   (bit (idr ID_AA64ISAR0_EL1 AND NOT CRYPTO_FIELDS) b \<longleftrightarrow>
      bit (idr ID_AA64ISAR0_EL1) b \<and> b \<notin> {4..15} \<union> {32..43})"
proof
  show "map (\<lambda>n. map_option (\<lambda>t. apply_cpu_template t idr) (by_name n)) [''host'', ''no-crypto'', ''x''] =
     [Some idr, Some (\<lambda>r. if r = ID_AA64ISAR0_EL1 then idr r AND NOT CRYPTO_FIELDS else idr r), None]"
    by (auto simp: by_name_def TEMPLATES_def NO_CRYPTO_def apply_cpu_template_def apply_override_def)
  have m: "(0xfff :: u64) = mask 12" by (simp add: mask_eq_exp_minus_1)
  have "bit CRYPTO_FIELDS b \<longleftrightarrow> b \<in> {4..15} \<union> {32..43}" for b
    unfolding CRYPTO_FIELDS_def m bit_or_iff bit_push_bit_iff bit_mask_iff possible_bit_word by auto
  then show "bit (idr ID_AA64ISAR0_EL1 AND NOT CRYPTO_FIELDS) b \<longleftrightarrow>
      bit (idr ID_AA64ISAR0_EL1) b \<and> b \<notin> {4..15} \<union> {32..43}"
    unfolding bit_and_iff bit_not_iff possible_bit_word using bit_imp_le_length [of "idr ID_AA64ISAR0_EL1" b]
    by fastforce
qed

end
