(* ===== verification/Devices.thy ===== *)
theory Devices
  imports Blk Rng_Balloon Net Vsock_Laws
begin

text \<open>
  \<open>Box<dyn VirtioDevice>\<close>: the five devices in one type, and the operation table of each lifted
  to it.  Lifting keeps the contract of the transport, so that a machine's device list can be
  reasoned about uniformly.  The host's side of all devices is the record \<open>vm_host\<close>.
\<close>

datatype ('nb, 'vb, 's) device =
    DBlk (un_blk: blk_device)
  | DRng (un_rng: rng_device)
  | DNet (un_net: "'nb net_device")
  | DVsock (un_vsock: "('vb, 's) vsock_device")
  | DBalloon (un_balloon: balloon_device)

record ('nb, 'vb, 's) vm_host =
  vm_disk :: disk_host
  vm_entropy :: "nat \<Rightarrow> u8"
  vm_rng_fails :: "nat \<Rightarrow> bool"
  vm_net :: "'nb net_backend"
  vm_clock :: "nat \<Rightarrow> rat"
  vm_vsock :: "('vb, 's) vsock_host"
  vm_drops :: "nat \<Rightarrow> bool"

definition lift_ops :: "('a \<Rightarrow> 'b) \<Rightarrow> ('b \<Rightarrow> 'a) \<Rightarrow> 'a virtio_ops \<Rightarrow> 'b virtio_ops" where
  "lift_ops wrap unwrap ops =
     \<lparr>op_device_id = op_device_id ops,
      op_device_features = (\<lambda>d. op_device_features ops (unwrap d)),
      op_config = (\<lambda>d. op_config ops (unwrap d)),
      op_num_queues = op_num_queues ops,
      op_config_changed = (\<lambda>d. op_config_changed ops (unwrap d)),
      op_ack_config = (\<lambda>d. wrap (op_ack_config ops (unwrap d))),
      op_handle = (\<lambda>d q ram bufs. case op_handle ops (unwrap d) q ram bufs of (x, r) \<Rightarrow> (wrap x, r)),
      op_rx_queue = op_rx_queue ops,
      op_event_queue = op_event_queue ops,
      op_poll_rx = (\<lambda>d n. case op_poll_rx ops (unwrap d) n of (x, r) \<Rightarrow> (wrap x, r)),
      op_wants_poll = (\<lambda>d. op_wants_poll ops (unwrap d)),
      op_take_throttle = (\<lambda>d. case op_take_throttle ops (unwrap d) of (x, r) \<Rightarrow> (wrap x, r))\<rparr>"

definition device_ops ::
  "('nb, 'vb, 's) vm_host \<Rightarrow> ('nb, 'vb, 's) device \<Rightarrow> ('nb, 'vb, 's) device virtio_ops" where
  "device_ops H d =
     (case d of
        DBlk _ \<Rightarrow> lift_ops DBlk un_blk (blk_ops (vm_disk H))
      | DRng _ \<Rightarrow> lift_ops DRng un_rng (rng_ops (vm_entropy H) (vm_rng_fails H))
      | DNet _ \<Rightarrow> lift_ops DNet un_net (net_ops (vm_net H) (vm_clock H))
      | DVsock _ \<Rightarrow> lift_ops DVsock un_vsock (vsock_ops (vm_vsock H))
      | DBalloon _ \<Rightarrow> lift_ops DBalloon un_balloon (balloon_ops (vm_drops H)))"

text \<open>The invariants of the five devices, as one.\<close>

definition dev_ok :: "('nb, 'vb, 's) device \<Rightarrow> bool" where
  "dev_ok d \<longleftrightarrow>
     (case d of DBlk b \<Rightarrow> blk_ok b | DNet n \<Rightarrow> net_ok n | DVsock v \<Rightarrow> vsock_ok v | _ \<Rightarrow> True)"

definition same_kind :: "('nb, 'vb, 's) device \<Rightarrow> ('nb, 'vb, 's) device \<Rightarrow> bool" where
  "same_kind d e \<longleftrightarrow>
     (case d of DBlk _ \<Rightarrow> is_DBlk e | DRng _ \<Rightarrow> is_DRng e | DNet _ \<Rightarrow> is_DNet e
      | DVsock _ \<Rightarrow> is_DVsock e | DBalloon _ \<Rightarrow> is_DBalloon e)"

lemma same_kind_refl [simp]: "same_kind d d"
  by (cases d) (simp_all add: same_kind_def)

lemma device_ops_kind: "same_kind d e \<Longrightarrow> device_ops H e = device_ops H d"
  by (cases d; cases e) (simp_all add: same_kind_def device_ops_def)

lemma same_kind_trans: "\<lbrakk>same_kind d e; same_kind e f\<rbrakk> \<Longrightarrow> same_kind d f"
  by (cases d; cases e; cases f) (simp_all add: same_kind_def)

lemma lift_device:
  assumes dev: "virtio_device ops dinv" and unwrap: "\<And>x. unwrap (wrap x) = x"
  shows "virtio_device (lift_ops wrap unwrap ops) (\<lambda>d. \<exists>x. d = wrap x \<and> dinv x)"
proof unfold_locales
  show "changes_only UNIV ram (fst (snd (op_handle (lift_ops wrap unwrap ops) d qidx ram bufs)))"
    for ram d qidx bufs
    using virtio_device.handle_shape [OF dev, of ram "unwrap d" qidx bufs] by (simp add: lift_ops_def split_beta)
qed (use virtio_device.handle_inv [OF dev] virtio_device.ack_inv [OF dev] virtio_device.poll_inv [OF dev]
    virtio_device.throttle_inv [OF dev] in \<open>auto simp: lift_ops_def split_beta unwrap\<close>)

lemma device_contract: "virtio_device (device_ops H d) (\<lambda>e. same_kind d e \<and> dev_ok e)"
proof -
  have eq: "virtio_device ops P \<Longrightarrow> P = Q \<Longrightarrow> virtio_device ops Q" for ops :: "('a, 'b, 'c) device virtio_ops" and P Q
    by simp
  show ?thesis
  proof (cases d)
    case (DBlk x)
    then show ?thesis
      by (auto simp: device_ops_def same_kind_def dev_ok_def is_DBlk_def
          intro!: eq [OF lift_device [OF blk.virtio_device_axioms]])
  next
    case (DRng x)
    then show ?thesis
      by (auto simp: device_ops_def same_kind_def dev_ok_def is_DRng_def
          intro!: eq [OF lift_device [OF rng.virtio_device_axioms]])
  next
    case (DNet x)
    then show ?thesis
      by (auto simp: device_ops_def same_kind_def dev_ok_def is_DNet_def
          intro!: eq [OF lift_device [OF net.virtio_device_axioms]])
  next
    case (DVsock x)
    then show ?thesis
      by (auto simp: device_ops_def same_kind_def dev_ok_def is_DVsock_def
          intro!: eq [OF lift_device [OF vsock.virtio_device_axioms]])
  next
    case (DBalloon x)
    then show ?thesis
      by (auto simp: device_ops_def same_kind_def dev_ok_def is_DBalloon_def
          intro!: eq [OF lift_device [OF balloon.virtio_device_axioms]])
  qed
qed

interpretation machine_device: virtio_device "device_ops H d" "\<lambda>e. same_kind d e \<and> dev_ok e" for H d
  by (rule device_contract)

end
