(* ===== verification/Snapshot.thy ===== *)
theory Snapshot
  imports Virtio Text
begin

text \<open>
  The on-disk snapshot, \<open>amber-core/src/snapshot.rs\<close>: the captured state and the directory that
  holds it.  A directory is a partial map from file names to contents.  The JSON encoding comes
  from the serde crates and is the record \<open>serde\<close>, an argument; what the host file system may do
  beyond storing files (refuse a directory, fail a write after leaving some contents, fail a read)
  is the record \<open>snap_fs\<close>.
\<close>

section \<open>What is captured\<close>

record cpu_snapshot =
  cs_x :: "u64 list"
  cs_pc :: u64
  cs_cpsr :: u64
  cs_fpcr :: u64
  cs_fpsr :: u64
  vtimer_offset :: u64
  mono :: u64
  sysregs :: "(u16 \<times> u64) list"
  cs_fp :: "bytes list"
  kvm_regs :: "(u64 \<times> bytes) list"

record snap_meta =
  mem_base :: u64
  meta_mem_size :: u64
  meta_disk :: "string option"
  meta_gic_kind :: "string option"
  meta_net :: bool
  meta_vsock :: bool
  meta_vcpus :: nat

record dev_state =
  ds_pl011 :: "u32 list"
  ds_virtio :: "virtio_dev_state list"

definition dev_state_default :: dev_state where
  "dev_state_default = \<lparr>ds_pl011 = [], ds_virtio = []\<rparr>"

record loaded =
  ld_meta :: snap_meta
  ld_cpu :: cpu_snapshot
  ld_cpus :: "cpu_snapshot list"
  ld_gic :: bytes
  ld_dev :: dev_state

definition gic_kind_str :: "gic_kind \<Rightarrow> string" where
  "gic_kind_str k = (case k of V2 \<Rightarrow> ''v2'' | V3 \<Rightarrow> ''v3'')"


section \<open>Encoding and files\<close>

record serde =
  meta_to :: "snap_meta \<Rightarrow> bytes option"
  meta_from :: "bytes \<Rightarrow> snap_meta option"
  cpu_to :: "cpu_snapshot \<Rightarrow> bytes option"
  cpu_from :: "bytes \<Rightarrow> cpu_snapshot option"
  dev_to :: "dev_state \<Rightarrow> bytes option"
  dev_from :: "bytes \<Rightarrow> dev_state option"

type_synonym snap_dir = "string \<Rightarrow> bytes option"

record snap_fs =
  mkdir_err :: bool
  put_err :: "string \<Rightarrow> bytes option"
  get_err :: "string \<Rightarrow> bool"

definition cpu_file :: "nat \<Rightarrow> string" where
  "cpu_file i = (if i = 0 then ''cpu.json'' else ''cpu'' @ show_nat i @ ''.json'')"

text \<open>The writes in order; the first failure ends them.  A failed write leaves whatever the host
  left in the file.\<close>

fun put_files :: "snap_fs \<Rightarrow> (string \<times> bytes option) list \<Rightarrow> snap_dir \<Rightarrow> snap_dir \<times> (error + unit)" where
  "put_files fs [] dir = (dir, Inr ())"
| "put_files fs ((name, None) # rest) dir = (dir, Inl error.Snapshot)"
| "put_files fs ((name, Some bs) # rest) dir =
     (case put_err fs name of
        Some junk \<Rightarrow> (dir(name \<mapsto> junk), Inl error.Snapshot)
      | None \<Rightarrow> put_files fs rest (dir(name \<mapsto> bs)))"

definition snapshot_write ::
  "serde \<Rightarrow> snap_fs \<Rightarrow> snap_dir \<Rightarrow> guest_ram \<Rightarrow> cpu_snapshot list \<Rightarrow> bytes \<Rightarrow> string option \<Rightarrow>
     gic_kind option \<Rightarrow> dev_state \<Rightarrow> bool \<Rightarrow> bool \<Rightarrow> snap_dir \<times> (error + unit)" where
  "snapshot_write sd fs dir ram cpus gic dk kd ds net vsock =
     (if mkdir_err fs then (dir, Inl error.Snapshot)
      else
        let meta = \<lparr>mem_base = base ram, meta_mem_size = of_nat (length (mem ram)), meta_disk = dk,
                    meta_gic_kind = map_option gic_kind_str kd, meta_net = net, meta_vsock = vsock,
                    meta_vcpus = max (length cpus) 1\<rparr>
        in put_files fs
             ([(''dev.json'', dev_to sd ds), (''mem.bin'', Some (mem ram)), (''gic.bin'', Some gic),
               (''meta.json'', meta_to sd meta)] @
              map (\<lambda>i. (cpu_file i, cpu_to sd (cpus ! i))) [0..<length cpus]) dir)"

text \<open>A read that must succeed and decode, and the reader of the secondaries' files.\<close>

definition read_decode :: "snap_fs \<Rightarrow> snap_dir \<Rightarrow> string \<Rightarrow> (bytes \<Rightarrow> 'a option) \<Rightarrow> error + 'a" where
  "read_decode fs dir name dec =
     (if get_err fs name then Inl error.Snapshot
      else case dir name of
        None \<Rightarrow> Inl error.Snapshot
      | Some bs \<Rightarrow> (case dec bs of None \<Rightarrow> Inl error.Snapshot | Some x \<Rightarrow> Inr x))"

fun read_cpus :: "serde \<Rightarrow> snap_fs \<Rightarrow> snap_dir \<Rightarrow> nat list \<Rightarrow> error + cpu_snapshot list" where
  "read_cpus sd fs dir [] = Inr []"
| "read_cpus sd fs dir (i # is) =
     (case read_decode fs dir (cpu_file i) (cpu_from sd) of
        Inl e \<Rightarrow> Inl e
      | Inr c \<Rightarrow> (case read_cpus sd fs dir is of Inl e \<Rightarrow> Inl e | Inr cs \<Rightarrow> Inr (c # cs)))"

definition read_dev :: "serde \<Rightarrow> snap_fs \<Rightarrow> snap_dir \<Rightarrow> error + dev_state" where
  "read_dev sd fs dir =
     (if get_err fs ''dev.json'' then Inl error.Snapshot
      else case dir ''dev.json'' of
        None \<Rightarrow> Inr dev_state_default
      | Some bs \<Rightarrow> (case dev_from sd bs of None \<Rightarrow> Inl error.Snapshot | Some d \<Rightarrow> Inr d))"

definition snapshot_read :: "serde \<Rightarrow> snap_fs \<Rightarrow> snap_dir \<Rightarrow> error + loaded" where
  "snapshot_read sd fs dir =
     (case read_decode fs dir ''meta.json'' (meta_from sd) of
        Inl e \<Rightarrow> Inl e
      | Inr m \<Rightarrow>
      (case read_decode fs dir ''cpu.json'' (cpu_from sd) of
        Inl e \<Rightarrow> Inl e
      | Inr c \<Rightarrow>
      (case read_cpus sd fs dir [1..<meta_vcpus m] of
        Inl e \<Rightarrow> Inl e
      | Inr cs \<Rightarrow>
      (case read_decode fs dir ''gic.bin'' Some of
        Inl e \<Rightarrow> Inl e
      | Inr g \<Rightarrow>
      (case read_dev sd fs dir of
        Inl e \<Rightarrow> Inl e
      | Inr d \<Rightarrow> Inr \<lparr>ld_meta = m, ld_cpu = c, ld_cpus = cs, ld_gic = g, ld_dev = d\<rparr>)))))"

definition load_mem :: "snap_fs \<Rightarrow> snap_dir \<Rightarrow> guest_ram \<Rightarrow> error + guest_ram" where
  "load_mem fs dir ram =
     (case read_decode fs dir ''mem.bin'' Some of
        Inl e \<Rightarrow> Inl e
      | Inr bs \<Rightarrow> guest_memory_write ram (base ram) bs)"


section \<open>What the encoding is relied on for\<close>

definition serde_ok :: "serde \<Rightarrow> bool" where
  "serde_ok sd \<longleftrightarrow>
     (\<forall>m. \<exists>bs. meta_to sd m = Some bs \<and> meta_from sd bs = Some m) \<and>
     (\<forall>c. \<exists>bs. cpu_to sd c = Some bs \<and> cpu_from sd bs = Some c) \<and>
     (\<forall>d. \<exists>bs. dev_to sd d = Some bs \<and> dev_from sd bs = Some d)"

definition fs_quiet :: "snap_fs \<Rightarrow> bool" where
  "fs_quiet fs \<longleftrightarrow> \<not> mkdir_err fs \<and> (\<forall>n. put_err fs n = None) \<and> (\<forall>n. \<not> get_err fs n)"

text \<open>Writing a list of distinctly named files stores exactly them.\<close>

lemma put_files_map:
  assumes "fs_quiet fs" "distinct (map fst xs)" "\<forall>x \<in> set xs. snd x \<noteq> None"
  shows "\<exists>dir'. put_files fs xs dir = (dir', Inr ()) \<and>
     (\<forall>n. dir' n = (case map_of xs n of Some v \<Rightarrow> v | None \<Rightarrow> dir n))"
  using assms
proof (induction fs xs dir rule: put_files.induct)
  case (3 fs name bs rest dir)
  have q: "put_err fs name = None" using "3.prems"(1) by (simp add: fs_quiet_def)
  have "\<exists>dir'. put_files fs rest (dir(name \<mapsto> bs)) = (dir', Inr ()) \<and>
      (\<forall>n. dir' n = (case map_of rest n of Some v \<Rightarrow> v | None \<Rightarrow> (dir(name \<mapsto> bs)) n))"
    by (rule "3.IH") (use q "3.prems" in simp_all)
  moreover have "map_of rest name = None" using "3.prems"(2) by (simp add: map_of_eq_None_iff)
  ultimately show ?case using q by (fastforce split: option.splits)
qed auto

lemma cpu_file_inject: "cpu_file i = cpu_file j \<longleftrightarrow> i = j"
  by (auto simp: cpu_file_def)

lemma cpu_file_other [simp]:
  "cpu_file i \<noteq> ''dev.json''" "cpu_file i \<noteq> ''mem.bin''" "cpu_file i \<noteq> ''gic.bin''" "cpu_file i \<noteq> ''meta.json''"
  by (simp_all add: cpu_file_def)

lemma read_cpus_all:
  assumes "\<And>i. i \<in> set is \<Longrightarrow> read_decode fs dir (cpu_file i) (cpu_from sd) = Inr (f i)"
  shows "read_cpus sd fs dir is = Inr (map f is)"
  using assms by (induction "is") simp_all

definition write_meta :: "guest_ram \<Rightarrow> cpu_snapshot list \<Rightarrow> string option \<Rightarrow> gic_kind option \<Rightarrow> bool \<Rightarrow> bool \<Rightarrow> snap_meta"
  where
  "write_meta ram cpus dk kd net vsock =
     \<lparr>mem_base = base ram, meta_mem_size = of_nat (length (mem ram)), meta_disk = dk,
      meta_gic_kind = map_option gic_kind_str kd, meta_net = net, meta_vsock = vsock,
      meta_vcpus = max (length cpus) 1\<rparr>"

text \<open>The directory after a write that met no host error: every file holds its encoding.\<close>

lemma snapshot_write_files:
  assumes "serde_ok sd" "fs_quiet fs"
  obtains dir' where "snapshot_write sd fs dir ram cpus gic dk kd ds net vsock = (dir', Inr ())"
    "dir' ''dev.json'' = dev_to sd ds" "dir' ''mem.bin'' = Some (mem ram)" "dir' ''gic.bin'' = Some gic"
    "dir' ''meta.json'' = meta_to sd (write_meta ram cpus dk kd net vsock)"
    "\<And>i. i < length cpus \<Longrightarrow> dir' (cpu_file i) = cpu_to sd (cpus ! i)"
proof -
  let ?cs = "map (\<lambda>i. (cpu_file i, cpu_to sd (cpus ! i))) [0..<length cpus]"
  let ?xs = "[(''dev.json'', dev_to sd ds), (''mem.bin'', Some (mem ram)), (''gic.bin'', Some gic),
              (''meta.json'', meta_to sd (write_meta ram cpus dk kd net vsock))] @ ?cs"
  have d: "distinct (map fst ?xs)"
    by (simp add: o_def distinct_map inj_on_def cpu_file_inject image_iff cpu_file_other [THEN not_sym])
  have e: "\<forall>x \<in> set ?xs. snd x \<noteq> None"
    using assms(1) unfolding serde_ok_def by (simp add: image_iff) (metis option.distinct(1))
  from put_files_map [OF assms(2) d e] obtain dir' where
    w: "put_files fs ?xs dir = (dir', Inr ())" and
    m: "\<And>n. dir' n = (case map_of ?xs n of Some v \<Rightarrow> v | None \<Rightarrow> dir n)" by blast
  have c: "dir' (cpu_file i) = cpu_to sd (cpus ! i)" if "i < length cpus" for i
  proof -
    have "(cpu_file i, cpu_to sd (cpus ! i)) \<in> set ?xs" using that by simp
    from map_of_is_SomeI [OF d this] show ?thesis by (simp only: m option.case)
  qed
  show thesis
  proof (rule that)
    show "snapshot_write sd fs dir ram cpus gic dk kd ds net vsock = (dir', Inr ())"
      using w assms(2) by (simp add: snapshot_write_def Let_def write_meta_def fs_quiet_def)
  qed (auto intro: c simp: m [of "''dev.json''"] m [of "''mem.bin''"] m [of "''gic.bin''"] m [of "''meta.json''"])
qed

lemma read_decode_enc:
  "\<lbrakk>fs_quiet fs; dir n = v; \<exists>bs. v = Some bs \<and> g bs = Some x\<rbrakk> \<Longrightarrow> read_decode fs dir n g = Inr x"
  by (auto simp: read_decode_def fs_quiet_def)

lemma snapshot_read_written:
  assumes ok: "serde_ok sd" "fs_quiet fs" and ne: "cpus \<noteq> []"
    and w: "snapshot_write sd fs dir ram cpus gic dk kd ds net vsock = (dir', Inr ())"
  shows "snapshot_read sd fs dir' =
      Inr \<lparr>ld_meta = write_meta ram cpus dk kd net vsock, ld_cpu = hd cpus, ld_cpus = tl cpus,
           ld_gic = gic, ld_dev = ds\<rparr>"
    "dir' ''mem.bin'' = Some (mem ram)"
proof -
  obtain dir1 where "snapshot_write sd fs dir ram cpus gic dk kd ds net vsock = (dir1, Inr ())"
    and f: "dir1 ''dev.json'' = dev_to sd ds" "dir1 ''mem.bin'' = Some (mem ram)" "dir1 ''gic.bin'' = Some gic"
      "dir1 ''meta.json'' = meta_to sd (write_meta ram cpus dk kd net vsock)"
      "\<And>i. i < length cpus \<Longrightarrow> dir1 (cpu_file i) = cpu_to sd (cpus ! i)"
    by (rule snapshot_write_files [OF ok]) (rule that)
  with w have dir1: "dir1 = dir'" by simp
  have q: "\<not> get_err fs n" for n using ok(2) by (simp add: fs_quiet_def)
  have cpu: "read_decode fs dir' (cpu_file i) (cpu_from sd) = Inr (cpus ! i)" if "i < length cpus" for i
    by (rule read_decode_enc [OF ok(2), where v = "cpu_to sd (cpus ! i)"]) (use f(5) [OF that] ok(1) dir1 in \<open>simp_all add: serde_ok_def\<close>)
  have "read_cpus sd fs dir' [1..<length cpus] = Inr (map ((!) cpus) [1..<length cpus])"
    by (rule read_cpus_all) (simp add: cpu)
  also have "map ((!) cpus) [1..<length cpus] = tl cpus"
    by (rule nth_equalityI) (simp_all add: nth_tl)
  finally have sec: "read_cpus sd fs dir' [1..<length cpus] = Inr (tl cpus)" .
  have vc: "meta_vcpus (write_meta ram cpus dk kd net vsock) = length cpus"
    using ne by (cases cpus) (simp_all add: write_meta_def)
  have "read_decode fs dir' ''meta.json'' (meta_from sd) = Inr (write_meta ram cpus dk kd net vsock)"
    by (rule read_decode_enc [OF ok(2), of dir' "''meta.json''", OF f(4) [unfolded dir1]]) (use ok(1) in \<open>simp add: serde_ok_def\<close>)
  moreover have "read_decode fs dir' ''cpu.json'' (cpu_from sd) = Inr (hd cpus)"
    using cpu [of 0] ne by (simp add: cpu_file_def hd_conv_nth)
  moreover have "read_decode fs dir' ''gic.bin'' Some = Inr gic"
    by (rule read_decode_enc [OF ok(2), of dir' "''gic.bin''", OF f(3) [unfolded dir1]]) simp
  moreover have "read_dev sd fs dir' = Inr ds"
    using f(1) ok(1) dir1 q unfolding read_dev_def serde_ok_def by (metis (no_types, lifting) option.simps(5))
  ultimately show "snapshot_read sd fs dir' =
      Inr \<lparr>ld_meta = write_meta ram cpus dk kd net vsock, ld_cpu = hd cpus, ld_cpus = tl cpus,
           ld_gic = gic, ld_dev = ds\<rparr>"
    using sec by (simp add: snapshot_read_def vc)
  show "dir' ''mem.bin'' = Some (mem ram)" using f(2) dir1 by simp
qed

end
