(* ===== verification/Loader.thy ===== *)
theory Loader
  imports Memory
begin

text \<open>
  The arm64 \<open>Image\<close> loader, \<open>amber-core/src/loader.rs\<close>: header check, placement of the kernel and
  of the initial RAM disk.
\<close>

definition ARM64_MAGIC :: u32 where "ARM64_MAGIC = 0x644d5241"

definition load_kernel :: "guest_ram \<Rightarrow> bytes \<Rightarrow> error + guest_ram \<times> u64" where
  "load_kernel ram img =
     (if length img < 64 then Inl error.Loader
      else if from_le (bslice 0x38 4 img) \<noteq> ARM64_MAGIC then Inl error.Loader
      else
        let text_offset = from_le (bslice 8 8 img) :: u64;
            load_off = (if text_offset = 0 then KERNEL_OFFSET else text_offset);
            entry = base ram + load_off
        in (case guest_memory_write ram entry img of Inl e \<Rightarrow> Inl e | Inr ram' \<Rightarrow> Inr (ram', entry)))"

definition load_initramfs :: "guest_ram \<Rightarrow> bytes option \<Rightarrow> error + guest_ram \<times> (u64 \<times> u64) option" where
  "load_initramfs ram initrd =
     (case initrd of
        None \<Rightarrow> Inr (ram, None)
      | Some data \<Rightarrow>
          let start0 = base ram + (of_nat (length (mem ram)) div 4) * 3;
              start = (start0 + 0xfff) AND NOT 0xfff
          in (case guest_memory_write ram start data of
                Inl e \<Rightarrow> Inl e
              | Inr ram' \<Rightarrow> Inr (ram', Some (start, start + of_nat (length data)))))"

text \<open>A successful load leaves the img at its entry point and changes nothing else.\<close>

lemma load_kernel_Inr:
  assumes "load_kernel ram img = Inr (ram', entry)"
  shows "in_range ram entry (length img)" "ram' = ram_put ram entry img"
    "ram_bytes ram' entry (length img) = img"
    "changes_only (gpa_range entry (length img)) ram ram'"
proof -
  have w: "guest_memory_write ram entry img = Inr ram'"
    using assms by (auto simp: load_kernel_def Let_def split: if_splits sum.splits)
  then show r: "in_range ram entry (length img)" and p: "ram' = ram_put ram entry img"
    by (simp_all add: guest_memory_write_eq split: if_splits)
  show "ram_bytes ram' entry (length img) = img" unfolding p by (rule ram.rd_wr_same [OF r])
  show "changes_only (gpa_range entry (length img)) ram ram'" unfolding p by (rule changes_only_put) simp
qed

lemma load_initramfs_Inr:
  assumes "load_initramfs ram (Some data) = Inr (ram', r)"
  obtains start where "r = Some (start, start + of_nat (length data))"
    "ram_bytes ram' start (length data) = data"
    "changes_only (gpa_range start (length data)) ram ram'" "take_bit 12 start = 0"
proof -
  define start where "start = (base ram + (of_nat (length (mem ram)) div 4) * 3 + 0xfff) AND NOT (0xfff :: u64)"
  have m: "(0xfff :: u64) = mask 12" by (simp add: mask_eq_exp_minus_1)
  have al: "take_bit 12 start = 0"
    unfolding start_def m by (rule bit_word_eqI) (auto simp: bit_simps)
  have w: "guest_memory_write ram start data = Inr ram'" "r = Some (start, start + of_nat (length data))"
    using assms by (auto simp: load_initramfs_def Let_def start_def split: sum.splits)
  then have i: "in_range ram start (length data)" and p: "ram' = ram_put ram start data"
    by (simp_all add: guest_memory_write_eq split: if_splits)
  show thesis
    using that [OF w(2)] al ram.rd_wr_same [OF i] changes_only_put [of start data "gpa_range start (length data)" ram]
    unfolding p by simp
qed

end
