(* ===== verification/Dtb.thy ===== *)
theory Dtb
  imports Core Text
begin

text \<open>
  The device tree, \<open>amber-core/src/dtb.rs\<close>: the sequence of writer calls \<open>build\<close> makes.  The
  writer itself is the \<open>vm-fdt\<close> crate, the argument \<open>finish\<close>: it turns the calls into a blob or
  refuses them.
\<close>

datatype fdt_op =
    BeginNode string
  | EndNode
  | PropString string string
  | PropStrings string "string list"
  | PropU32 string u32
  | PropU64 string u64
  | PropArrayU32 string "u32 list"
  | PropArrayU64 string "u64 list"
  | PropBytes string bytes
  | PropNull string

record dtb_params =
  dp_mem_size :: u64
  dp_vcpus :: nat
  dp_cmdline :: string
  dp_initrd :: "(u64 \<times> u64) option"
  dp_gic :: "gic_info option"
  dp_virtio :: "(u64 \<times> u64 \<times> u32) list"
  dp_rng_seed :: bytes

definition GIC_PHANDLE :: u32 where "GIC_PHANDLE = 1"
definition APB_PCLK_PHANDLE :: u32 where "APB_PCLK_PHANDLE = 2"

definition chosen_node :: "dtb_params \<Rightarrow> fdt_op list" where
  "chosen_node p =
     [BeginNode ''chosen'', PropString ''bootargs'' (dp_cmdline p),
      PropString ''stdout-path'' ''/pl011@9000000''] @
     (case dp_initrd p of None \<Rightarrow> []
      | Some (start, stop) \<Rightarrow> [PropU64 ''linux,initrd-start'' start, PropU64 ''linux,initrd-end'' stop]) @
     (if dp_rng_seed p = [] then [] else [PropBytes ''rng-seed'' (dp_rng_seed p)]) @
     [EndNode]"

definition memory_node :: "dtb_params \<Rightarrow> fdt_op list" where
  "memory_node p =
     [BeginNode ''memory@40000000'', PropString ''device_type'' ''memory'',
      PropArrayU64 ''reg'' [RAM_BASE, dp_mem_size p], EndNode]"

definition cpu_node :: "nat \<Rightarrow> fdt_op list" where
  "cpu_node i =
     [BeginNode (''cpu@'' @ show_nat i), PropString ''device_type'' ''cpu'',
      PropString ''compatible'' ''arm,arm-v8'', PropU32 ''reg'' (of_nat i),
      PropString ''enable-method'' ''psci'', EndNode]"

definition cpus_node :: "dtb_params \<Rightarrow> fdt_op list" where
  "cpus_node p =
     [BeginNode ''cpus'', PropU32 ''#address-cells'' 1, PropU32 ''#size-cells'' 0] @
     concat (map cpu_node [0..<max (dp_vcpus p) 1]) @ [EndNode]"

definition psci_node :: "fdt_op list" where
  "psci_node =
     [BeginNode ''psci'', PropStrings ''compatible'' [''arm,psci-1.0'', ''arm,psci-0.2''],
      PropString ''method'' ''hvc'', EndNode]"

definition intc_node :: "dtb_params \<Rightarrow> fdt_op list" where
  "intc_node p =
     (case dp_gic p of
        Some g \<Rightarrow>
          [BeginNode (''intc@'' @ show_hex (unat (dist_base g))),
           PropString ''compatible'' (case kind g of V3 \<Rightarrow> ''arm,gic-v3'' | V2 \<Rightarrow> ''arm,cortex-a15-gic''),
           PropU32 ''#interrupt-cells'' 3, PropNull ''interrupt-controller'',
           PropArrayU64 ''reg'' [dist_base g, dist_size g, redist_base g, redist_size g],
           PropU32 ''phandle'' GIC_PHANDLE, EndNode]
      | None \<Rightarrow>
          [BeginNode ''intc@8000000'', PropString ''compatible'' ''arm,cortex-a15-gic'',
           PropU32 ''#interrupt-cells'' 3, PropNull ''interrupt-controller'',
           PropArrayU64 ''reg'' [GIC_DIST_BASE, GIC_DIST_SIZE, GIC_CPU_BASE, GIC_CPU_SIZE],
           PropU32 ''phandle'' GIC_PHANDLE, EndNode])"

definition timer_node :: "fdt_op list" where
  "timer_node =
     [BeginNode ''timer'', PropString ''compatible'' ''arm,armv8-timer'',
      PropU32 ''interrupt-parent'' GIC_PHANDLE,
      PropArrayU32 ''interrupts'' [1, 13, 0xf08, 1, 14, 0xf08, 1, 11, 0xf08, 1, 10, 0xf08], EndNode]"

definition clock_node :: "fdt_op list" where
  "clock_node =
     [BeginNode ''apb-pclk'', PropString ''compatible'' ''fixed-clock'', PropU32 ''#clock-cells'' 0,
      PropU32 ''clock-frequency'' 24000000, PropString ''clock-output-names'' ''uartclk'',
      PropU32 ''phandle'' APB_PCLK_PHANDLE, EndNode]"

definition uart_node :: "fdt_op list" where
  "uart_node =
     [BeginNode ''pl011@9000000'', PropStrings ''compatible'' [''arm,pl011'', ''arm,primecell''],
      PropArrayU64 ''reg'' [PL011_BASE, PL011_SIZE], PropU32 ''interrupt-parent'' GIC_PHANDLE,
      PropArrayU32 ''interrupts'' [0, 1, 4], PropArrayU32 ''clocks'' [APB_PCLK_PHANDLE, APB_PCLK_PHANDLE],
      PropStrings ''clock-names'' [''uartclk'', ''apb_pclk''], EndNode]"

definition virtio_node :: "u64 \<times> u64 \<times> u32 \<Rightarrow> fdt_op list" where
  "virtio_node v =
     (case v of (b, sz, spi) \<Rightarrow>
        [BeginNode (''virtio_mmio@'' @ show_hex (unat b)), PropString ''compatible'' ''virtio,mmio'',
         PropArrayU64 ''reg'' [b, sz], PropU32 ''interrupt-parent'' GIC_PHANDLE,
         PropArrayU32 ''interrupts'' [0, spi, 4], EndNode])"

definition dtb_ops :: "dtb_params \<Rightarrow> fdt_op list" where
  "dtb_ops p =
     [BeginNode [], PropString ''compatible'' ''linux,dummy-virt'', PropU32 ''#address-cells'' 2,
      PropU32 ''#size-cells'' 2, PropString ''model'' ''amber''] @
     chosen_node p @ memory_node p @ cpus_node p @ psci_node @ intc_node p @ timer_node @
     clock_node @ uart_node @ concat (map virtio_node (dp_virtio p)) @ [EndNode]"

definition dtb_build :: "(fdt_op list \<Rightarrow> bytes option) \<Rightarrow> dtb_params \<Rightarrow> error + bytes" where
  "dtb_build finish p = (case finish (dtb_ops p) of None \<Rightarrow> Inl Fdt | Some blob \<Rightarrow> Inr blob)"


section \<open>The tree is well formed\<close>

text \<open>Running the calls against the stack of open nodes: a property needs an open node, an end
  needs one to close.  \<open>None\<close> is a call the writer refuses.\<close>

fun fdt_run :: "fdt_op list \<Rightarrow> nat \<Rightarrow> nat option" where
  "fdt_run [] n = Some n"
| "fdt_run (BeginNode s # ops) n = fdt_run ops (Suc n)"
| "fdt_run (EndNode # ops) n = (if n = 0 then None else fdt_run ops (n - 1))"
| "fdt_run (_ # ops) n = (if n = 0 then None else fdt_run ops n)"

lemma fdt_run_append: "fdt_run (xs @ ys) n = (case fdt_run xs n of None \<Rightarrow> None | Some m \<Rightarrow> fdt_run ys m)"
  by (induction xs n rule: fdt_run.induct) simp_all

text \<open>A sequence that is a node, or a list of nodes, leaves an open parent as it was.\<close>

definition is_node :: "fdt_op list \<Rightarrow> bool" where
  "is_node ops \<longleftrightarrow> (\<forall>n. fdt_run ops (Suc n) = Some (Suc n))"

lemma is_node_append: "\<lbrakk>is_node xs; is_node ys\<rbrakk> \<Longrightarrow> is_node (xs @ ys)"
  by (simp add: is_node_def fdt_run_append)

lemma is_node_Nil [simp]: "is_node []"
  by (simp add: is_node_def)

lemma is_node_concat: "(\<And>x. x \<in> set xs \<Longrightarrow> is_node x) \<Longrightarrow> is_node (concat xs)"
  by (induction xs) (simp_all add: is_node_append)

lemma cpus_is_node: "is_node (cpus_node p)"
proof -
  have "is_node (concat (map cpu_node [0..<k]))" for k
    by (rule is_node_concat) (auto simp: is_node_def cpu_node_def)
  then show ?thesis by (simp add: cpus_node_def is_node_def fdt_run_append)
qed

lemma other_nodes:
  "is_node (chosen_node p)" "is_node (memory_node p)" "is_node psci_node" "is_node (intc_node p)"
  "is_node timer_node" "is_node clock_node" "is_node uart_node" "is_node (virtio_node v)"
  by (auto simp: is_node_def chosen_node_def memory_node_def psci_node_def intc_node_def timer_node_def
      clock_node_def uart_node_def virtio_node_def split: option.split prod.split)

lemma dtb_balanced: "fdt_run (dtb_ops p) 0 = Some 0"
proof -
  have "is_node (concat (map virtio_node vs))" for vs
    by (rule is_node_concat) (auto simp: other_nodes)
  then show ?thesis
    using other_nodes cpus_is_node unfolding is_node_def
    by (simp add: dtb_ops_def fdt_run_append)
qed

end
