(* ===== verification/Vm.thy ===== *)
theory Vm
  imports Devices Snapshot Loader Dtb Pl011
begin

text \<open>
  The machine, \<open>amber-core/src/vm.rs\<close>: building the device set for a boot and for a restore,
  servicing the exits of a vcpu against the devices, the receive pump, the console and control
  readers, the pause gate and the snapshot.  The backend (the \<open>Hypervisor\<close> and \<open>Vcpu\<close> traits) is
  the record \<open>hv_ops\<close> over a backend state; the environment of the process (files, sockets,
  variables, clock) is the record \<open>vm_env\<close>.  Mutexes make the operations here atomic; threads are
  sequences of them.
\<close>

section \<open>Devices on the bus\<close>

record 'd virtio_dev =
  vd_base :: u64
  vd_size :: u64
  vd_intid :: u32
  vd_ops :: "'d virtio_ops"
  vd_mmio :: "'d virtio_mmio"

type_synonym ('nb, 'vb, 's) vdevs = "('nb, 'vb, 's) device virtio_dev list"

definition virtio_dev_new :: "nat \<Rightarrow> 'd virtio_ops \<Rightarrow> 'd \<Rightarrow> 'd virtio_dev" where
  "virtio_dev_new i ops d =
     \<lparr>vd_base = VIRTIO_MMIO_BASE + of_nat i * VIRTIO_MMIO_STRIDE, vd_size = VIRTIO_MMIO_STRIDE,
      vd_intid = GIC_SPI_BASE + VIRTIO_SPI_BASE + of_nat i, vd_ops = ops, vd_mmio = virtio_new ops d\<rparr>"

definition vd_contains :: "'d virtio_dev \<Rightarrow> u64 \<Rightarrow> bool" where
  "vd_contains v ipa \<longleftrightarrow> vd_base v \<le> ipa \<and> ipa < vd_base v + vd_size v"

definition push_dev ::
  "('nb, 'vb, 's) vm_host \<Rightarrow> ('nb, 'vb, 's) vdevs \<Rightarrow> ('nb, 'vb, 's) device \<Rightarrow> ('nb, 'vb, 's) vdevs" where
  "push_dev H devs d = devs @ [virtio_dev_new (length devs) (device_ops H d) d]"

text \<open>The balloon's shared handle is the device's place in the list.\<close>

definition push_balloon ::
  "('nb, 'vb, 's) vm_host \<Rightarrow> ('nb, 'vb, 's) vdevs \<Rightarrow> ('nb, 'vb, 's) vdevs \<times> nat \<times> u32" where
  "push_balloon H devs =
     (push_dev H devs (DBalloon \<lparr>target_pages = 0, config_dirty = False\<rparr>), length devs,
      GIC_SPI_BASE + VIRTIO_SPI_BASE + of_nat (length devs))"


section \<open>Configuration and state\<close>

record snapshot_req =
  sr_after :: rat
  sr_dir :: string
  sr_marker :: "bytes option"

record vm_config =
  cfg_mem_size :: nat
  cfg_vcpus :: nat
  cfg_kernel :: bytes
  cfg_initrd :: "bytes option"
  cfg_cmdline :: string
  cfg_disk :: "string option"
  cfg_data_disks :: "(string \<times> bool) list"
  cfg_vsock :: "string option"
  cfg_cpu_template :: "string option"
  cfg_snapshot :: "snapshot_req option"
  cfg_control_fd :: "int option"

definition vm_config_default :: vm_config where
  "vm_config_default =
     \<lparr>cfg_mem_size = 512 * 1024 * 1024, cfg_vcpus = 1, cfg_kernel = [], cfg_initrd = None,
      cfg_cmdline = ''console=ttyAMA0 quiet'', cfg_disk = None, cfg_data_disks = [], cfg_vsock = None,
      cfg_cpu_template = None, cfg_snapshot = None, cfg_control_fd = None\<rparr>"

record ('nb, 'vb, 's) vm =
  v_mem :: guest_ram
  v_vcpus :: nat
  v_pl011 :: pl011
  v_virtio :: "('nb, 'vb, 's) vdevs"
  v_balloon :: "nat \<times> u32"
  v_control_fd :: "int option"
  v_paused :: bool
  v_snapshot :: "snapshot_req option"
  v_disk_path :: "string option"
  v_cpu_template :: "string option"
  v_restore :: "loaded option"
  v_entry :: u64
  v_dtb_addr :: u64
  v_mem_size :: u64
  v_cmdline :: string
  v_initrd :: "(u64 \<times> u64) option"

record 'vb vm_env =
  env_mmap :: bool
  env_file :: "string \<Rightarrow> bytes option"
  env_urandom :: bool
  env_bind :: "string \<Rightarrow> 'vb option"
  env_var :: "string \<Rightarrow> string option"
  env_now :: rat


section \<open>Building the machine\<close>

fun open_disks ::
  "'vb vm_env \<Rightarrow> ('nb, 'vb, 's) vm_host \<Rightarrow> (string \<times> bool) list \<Rightarrow> ('nb, 'vb, 's) vdevs \<Rightarrow>
     error + ('nb, 'vb, 's) vdevs" where
  "open_disks E H [] devs = Inr devs"
| "open_disks E H ((path, w) # rest) devs =
     (case blk_open_with (env_file E path) w (env_var E ''AMBER_DISK_BPS'') (env_now E) of
        Inl e \<Rightarrow> Inl e
      | Inr b \<Rightarrow> open_disks E H rest (push_dev H devs (DBlk b)))"

definition push_rng :: "'vb vm_env \<Rightarrow> ('nb, 'vb, 's) vm_host \<Rightarrow> ('nb, 'vb, 's) vdevs \<Rightarrow> error + ('nb, 'vb, 's) vdevs" where
  "push_rng E H devs =
     (if env_urandom E then Inr (push_dev H devs (DRng \<lparr>rng_pos = 0, rng_calls = 0\<rparr>)) else Inl Device)"

definition push_net :: "'vb vm_env \<Rightarrow> ('nb, 'vb, 's) vm_host \<Rightarrow> 'nb \<Rightarrow> ('nb, 'vb, 's) vdevs \<Rightarrow> ('nb, 'vb, 's) vdevs" where
  "push_net E H b devs =
     push_dev H devs (DNet (net_new (vm_net H) b (env_var E ''AMBER_NET_BPS'') (env_now E) (env_now E)))"

definition push_vsock :: "('nb, 'vb, 's) vm_host \<Rightarrow> 'vb \<Rightarrow> ('nb, 'vb, 's) vdevs \<Rightarrow> ('nb, 'vb, 's) vdevs" where
  "push_vsock H b devs = push_dev H devs (DVsock (vsock_new 3 b))"

definition prepare_devices ::
  "'vb vm_env \<Rightarrow> ('nb, 'vb, 's) vm_host \<Rightarrow> vm_config \<Rightarrow> 'nb option \<Rightarrow> error + ('nb, 'vb, 's) vdevs" where
  "prepare_devices E H cfg net =
     (case open_disks E H ((case cfg_disk cfg of None \<Rightarrow> [] | Some p \<Rightarrow> [(p, False)]) @ cfg_data_disks cfg) [] of
        Inl e \<Rightarrow> Inl e
      | Inr devs \<Rightarrow>
      (case push_rng E H devs of
        Inl e \<Rightarrow> Inl e
      | Inr devs1 \<Rightarrow>
          let devs2 = (case net of None \<Rightarrow> devs1 | Some b \<Rightarrow> push_net E H b devs1)
          in Inr (case cfg_vsock cfg of
                    None \<Rightarrow> devs2
                  | Some p \<Rightarrow> (case env_bind E p of None \<Rightarrow> devs2 | Some b \<Rightarrow> push_vsock H b devs2))))"

definition prepare ::
  "'vb vm_env \<Rightarrow> ('nb, 'vb, 's) vm_host \<Rightarrow> vm_config \<Rightarrow> 'nb option \<Rightarrow> error + ('nb, 'vb, 's) vm" where
  "prepare E H cfg net =
     (case guest_memory_new (env_mmap E) RAM_BASE (cfg_mem_size cfg) of
        Inl e \<Rightarrow> Inl e
      | Inr ram \<Rightarrow>
      (case load_kernel ram (cfg_kernel cfg) of
        Inl e \<Rightarrow> Inl e
      | Inr (ram1, entry) \<Rightarrow>
      (case load_initramfs ram1 (cfg_initrd cfg) of
        Inl e \<Rightarrow> Inl e
      | Inr (ram2, ird) \<Rightarrow>
      (case prepare_devices E H cfg net of
        Inl e \<Rightarrow> Inl e
      | Inr devs \<Rightarrow>
          let (devs', bl) = push_balloon H devs
          in Inr \<lparr>v_mem = ram2, v_vcpus = max 1 (min (cfg_vcpus cfg) 8), v_pl011 = pl011_new,
                  v_virtio = devs', v_balloon = bl, v_control_fd = cfg_control_fd cfg, v_paused = False,
                  v_snapshot = cfg_snapshot cfg, v_disk_path = cfg_disk cfg,
                  v_cpu_template = cfg_cpu_template cfg, v_restore = None, v_entry = entry,
                  v_dtb_addr = base ram2 + DTB_OFFSET, v_mem_size = of_nat (cfg_mem_size cfg),
                  v_cmdline = cfg_cmdline cfg, v_initrd = ird\<rparr>))))"

definition restore_devices ::
  "'vb vm_env \<Rightarrow> ('nb, 'vb, 's) vm_host \<Rightarrow> snap_meta \<Rightarrow> 'nb option \<Rightarrow> string option \<Rightarrow>
     error + ('nb, 'vb, 's) vdevs" where
  "restore_devices E H meta net vsock =
     (case open_disks E H (case meta_disk meta of None \<Rightarrow> [] | Some p \<Rightarrow> [(p, False)]) [] of
        Inl e \<Rightarrow> Inl e
      | Inr devs \<Rightarrow>
      (case push_rng E H devs of
        Inl e \<Rightarrow> Inl e
      | Inr devs1 \<Rightarrow>
      (case (if meta_net meta
             then (case net of None \<Rightarrow> Inl error.Snapshot | Some b \<Rightarrow> Inr (push_net E H b devs1))
             else Inr devs1) of
        Inl e \<Rightarrow> Inl e
      | Inr devs2 \<Rightarrow>
          if meta_vsock meta
          then (case vsock of
                  None \<Rightarrow> Inl error.Snapshot
                | Some p \<Rightarrow>
                    (case env_bind E p of None \<Rightarrow> Inl error.Snapshot | Some b \<Rightarrow> Inr (push_vsock H b devs2)))
          else Inr devs2)))"

definition restore_from ::
  "'vb vm_env \<Rightarrow> ('nb, 'vb, 's) vm_host \<Rightarrow> serde \<Rightarrow> snap_fs \<Rightarrow> snap_dir \<Rightarrow> 'nb option \<Rightarrow> string option \<Rightarrow>
     error + ('nb, 'vb, 's) vm" where
  "restore_from E H sd fs dir net vsock =
     (case snapshot_read sd fs dir of
        Inl e \<Rightarrow> Inl e
      | Inr ld \<Rightarrow>
      (case from_snapshot_cow (env_mmap E) (mem_base (ld_meta ld)) (dir ''mem.bin'') of
        Inl e \<Rightarrow> Inl e
      | Inr ram \<Rightarrow>
      (case restore_devices E H (ld_meta ld) net vsock of
        Inl e \<Rightarrow> Inl e
      | Inr devs \<Rightarrow>
          let (devs', bl) = push_balloon H devs
          in if length devs' \<noteq> length (ds_virtio (ld_dev ld)) then Inl error.Snapshot
             else Inr \<lparr>v_mem = ram, v_vcpus = max 1 (min (meta_vcpus (ld_meta ld)) 8), v_pl011 = pl011_new,
                       v_virtio = devs', v_balloon = bl, v_control_fd = None, v_paused = False,
                       v_snapshot = None, v_disk_path = meta_disk (ld_meta ld), v_cpu_template = None,
                       v_restore = Some ld, v_entry = 0, v_dtb_addr = 0, v_mem_size = 0,
                       v_cmdline = [], v_initrd = None\<rparr>)))"

definition with_control :: "('nb, 'vb, 's) vm \<Rightarrow> int \<Rightarrow> bool \<Rightarrow> ('nb, 'vb, 's) vm" where
  "with_control vm fd p = vm\<lparr>v_control_fd := Some fd, v_paused := p\<rparr>"


section \<open>The backend\<close>

record 'h hv_ops =
  hv_create :: "guest_ram \<Rightarrow> nat \<Rightarrow> error + 'h"
  hv_create_vcpu :: "'h \<Rightarrow> nat \<Rightarrow> error + 'h"
  hv_gic :: "'h \<Rightarrow> gic_info option"
  hv_set_irq :: "'h \<Rightarrow> u32 \<Rightarrow> bool \<Rightarrow> error + 'h"
  hv_capture_gic :: "'h \<Rightarrow> error + bytes"
  hv_restore_gic :: "'h \<Rightarrow> bytes \<Rightarrow> error + 'h"
  hv_set_yield :: "'h \<Rightarrow> bool \<Rightarrow> 'h"
  hv_kick :: "'h \<Rightarrow> 'h"
  hv_request_stop :: "'h \<Rightarrow> 'h"
  vc_apply_template :: "'h \<Rightarrow> nat \<Rightarrow> cpu_template \<Rightarrow> error + 'h"
  vc_set_boot :: "'h \<Rightarrow> nat \<Rightarrow> u64 \<Rightarrow> u64 \<Rightarrow> error + 'h"
  vc_run :: "'h \<Rightarrow> nat \<Rightarrow> guest_ram \<Rightarrow> 'h \<times> guest_ram \<times> (error + vm_exit)"
  vc_complete_read :: "'h \<Rightarrow> nat \<Rightarrow> u64 \<Rightarrow> error + 'h"
  vc_advance :: "'h \<Rightarrow> nat \<Rightarrow> error + 'h"
  vc_timer_ns :: "'h \<Rightarrow> nat \<Rightarrow> error + nat option"
  vc_capture :: "'h \<Rightarrow> nat \<Rightarrow> error + cpu_snapshot"
  vc_restore :: "'h \<Rightarrow> nat \<Rightarrow> cpu_snapshot \<Rightarrow> error + 'h"


section \<open>Starting\<close>

definition cpu_tmpl :: "('nb, 'vb, 's) vm \<Rightarrow> cpu_template option" where
  "cpu_tmpl vm = Option.bind (v_cpu_template vm) by_name"

definition attach_all :: "('nb, 'vb, 's) vm \<Rightarrow> ('nb, 'vb, 's) vm" where
  "attach_all vm = vm\<lparr>v_virtio := map (\<lambda>d. d\<lparr>vd_mmio := attach (vd_mmio d)\<rparr>) (v_virtio vm)\<rparr>"

fun restore_zip :: "'d virtio_dev list \<Rightarrow> virtio_dev_state list \<Rightarrow> 'd virtio_dev list" where
  "restore_zip (d # ds) (s # ss) = d\<lparr>vd_mmio := restore s (vd_mmio d)\<rparr> # restore_zip ds ss"
| "restore_zip ds _ = ds"

definition restore_uart :: "u32 list \<Rightarrow> pl011 \<Rightarrow> pl011" where
  "restore_uart r u =
     (if length r = 6 then set_regs (r ! 0, r ! 1, r ! 2, r ! 3, r ! 4, r ! 5) u else u)"

definition gic_mismatch :: "'h hv_ops \<Rightarrow> 'h \<Rightarrow> snap_meta \<Rightarrow> bool" where
  "gic_mismatch hv h meta =
     (case (meta_gic_kind meta, hv_gic hv h) of
        (Some want, Some have) \<Rightarrow> want \<noteq> gic_kind_str (kind have)
      | _ \<Rightarrow> False)"

definition start_restored ::
  "'h hv_ops \<Rightarrow> 'h \<Rightarrow> loaded \<Rightarrow> ('nb, 'vb, 's) vm \<Rightarrow> error + ('nb, 'vb, 's) vm \<times> 'h" where
  "start_restored hv h ld vm =
     (if gic_mismatch hv h (ld_meta ld) then Inl error.Snapshot
      else case hv_restore_gic hv h (ld_gic ld) of
        Inl e \<Rightarrow> Inl e
      | Inr h1 \<Rightarrow>
          (case vc_restore hv h1 0 (ld_cpu ld) of
             Inl e \<Rightarrow> Inl e
           | Inr h2 \<Rightarrow>
               Inr (vm\<lparr>v_pl011 := restore_uart (ds_pl011 (ld_dev ld)) (v_pl011 vm),
                       v_virtio := restore_zip (v_virtio vm) (ds_virtio (ld_dev ld))\<rparr>, h2)))"

definition virtio_nodes :: "'d virtio_dev list \<Rightarrow> (u64 \<times> u64 \<times> u32) list" where
  "virtio_nodes devs = map (\<lambda>d. (vd_base d, vd_size d, vd_intid d - GIC_SPI_BASE)) devs"

definition start_boot ::
  "'h hv_ops \<Rightarrow> (fdt_op list \<Rightarrow> bytes option) \<Rightarrow> 'h \<Rightarrow> bytes \<Rightarrow> ('nb, 'vb, 's) vm \<Rightarrow>
     error + ('nb, 'vb, 's) vm \<times> 'h" where
  "start_boot hv fin h seed vm =
     (case dtb_build fin
             \<lparr>dp_mem_size = v_mem_size vm, dp_vcpus = v_vcpus vm, dp_cmdline = v_cmdline vm,
              dp_initrd = v_initrd vm, dp_gic = hv_gic hv h, dp_virtio = virtio_nodes (v_virtio vm),
              dp_rng_seed = seed\<rparr> of
        Inl e \<Rightarrow> Inl e
      | Inr blob \<Rightarrow>
      (case guest_memory_write (v_mem vm) (v_dtb_addr vm) blob of
        Inl e \<Rightarrow> Inl e
      | Inr ram \<Rightarrow>
      (case (case cpu_tmpl vm of None \<Rightarrow> Inr h | Some t \<Rightarrow> vc_apply_template hv h 0 t) of
        Inl e \<Rightarrow> Inl e
      | Inr h1 \<Rightarrow>
      (case vc_set_boot hv h1 0 (v_entry vm) (v_dtb_addr vm) of
        Inl e \<Rightarrow> Inl e
      | Inr h2 \<Rightarrow> Inr (vm\<lparr>v_mem := ram\<rparr>, h2)))))"

text \<open>What the process may still do once the guest runs: write below the snapshot directory, and
  open sockets only for a network or a vsock device.  Applying the policy is the platform's.\<close>

definition lockdown_policy :: "('nb, 'vb, 's) vm \<Rightarrow> string list \<times> bool" where
  "lockdown_policy vm =
     (case v_snapshot vm of None \<Rightarrow> [] | Some req \<Rightarrow> [sr_dir req],
      list_ex (\<lambda>d. op_device_id (vd_ops d) = 1 \<or> op_device_id (vd_ops d) = 19) (v_virtio vm))"

definition start_vm ::
  "'h hv_ops \<Rightarrow> (fdt_op list \<Rightarrow> bytes option) \<Rightarrow> (string list \<times> bool \<Rightarrow> bool) \<Rightarrow> bytes \<Rightarrow>
     ('nb, 'vb, 's) vm \<Rightarrow> error + ('nb, 'vb, 's) vm \<times> 'h" where
  "start_vm hv fin lockdown seed vm =
     (case hv_create hv (v_mem vm) (v_vcpus vm) of
        Inl e \<Rightarrow> Inl e
      | Inr h0 \<Rightarrow>
      (case hv_create_vcpu hv h0 0 of
        Inl e \<Rightarrow> Inl e
      | Inr h \<Rightarrow>
      let vm1 = attach_all vm in
      (case (case v_restore vm1 of
              Some ld \<Rightarrow> start_restored hv h ld vm1
            | None \<Rightarrow> start_boot hv fin h seed vm1) of
        Inl e \<Rightarrow> Inl e
      | Inr (vm2, h2) \<Rightarrow>
          if \<not> lockdown (lockdown_policy vm2) then Inl Backend
          else
            Inr (case Option.bind (v_snapshot vm2) sr_marker of
                   None \<Rightarrow> vm2 | Some m \<Rightarrow> vm2\<lparr>v_pl011 := arm_marker (v_pl011 vm2) m\<rparr>, h2))))"


section \<open>Servicing an MMIO exit\<close>

definition pl011_intid :: u32 where
  "pl011_intid = GIC_SPI_BASE + PL011_SPI"

definition in_uart :: "u64 \<Rightarrow> bool" where
  "in_uart ipa \<longleftrightarrow> PL011_BASE \<le> ipa \<and> ipa < PL011_BASE + PL011_SIZE"

definition serve_uart ::
  "'h hv_ops \<Rightarrow> 'h \<Rightarrow> nat \<Rightarrow> mmio_access \<Rightarrow> pl011 \<Rightarrow> pl011 \<times> (error + 'h)" where
  "serve_uart hv h cpu acc u =
     (let off = ma_ipa acc - PL011_BASE;
          (u', r) = (case ma_write acc of
                       Some v \<Rightarrow> (uart_write u off v, Inr h)
                     | None \<Rightarrow> (case uart_read u off of (u', v) \<Rightarrow> (u', vc_complete_read hv h cpu v)))
      in (u', case r of Inl e \<Rightarrow> Inl e | Inr h' \<Rightarrow> hv_set_irq hv h' pl011_intid (uart_irq_level u')))"

text \<open>The access to one device: its new state, RAM, the outcome, and the deficit to sleep off.\<close>

definition serve_virtio ::
  "'h hv_ops \<Rightarrow> 'h \<Rightarrow> nat \<Rightarrow> mmio_access \<Rightarrow> guest_ram \<Rightarrow> 'd virtio_dev \<Rightarrow>
     'd virtio_dev \<times> guest_ram \<times> (error + 'h \<times> rat option)" where
  "serve_virtio hv h cpu acc ram d =
     (let off = ma_ipa acc - vd_base d; ops = vd_ops d;
          (m, ram', r) = (case ma_write acc of
                            Some v \<Rightarrow> (case mmio_write ops (vd_mmio d) ram off v of (m, ram') \<Rightarrow> (m, ram', Inr h))
                          | None \<Rightarrow> (vd_mmio d, ram, vc_complete_read hv h cpu (mmio_read ops (vd_mmio d) off)))
      in case r of
           Inl e \<Rightarrow> (d\<lparr>vd_mmio := m\<rparr>, ram', Inl e)
         | Inr h1 \<Rightarrow>
             (case hv_set_irq hv h1 (vd_intid d) (irq_level ops m) of
                Inl e \<Rightarrow> (d\<lparr>vd_mmio := m\<rparr>, ram', Inl e)
              | Inr h2 \<Rightarrow>
                  (case take_throttle ops m of (m', t) \<Rightarrow> (d\<lparr>vd_mmio := m'\<rparr>, ram', Inr (h2, t)))))"

fun find_dev :: "u64 \<Rightarrow> 'd virtio_dev list \<Rightarrow> nat option" where
  "find_dev ipa [] = None"
| "find_dev ipa (d # ds) = (if vd_contains d ipa then Some 0 else map_option Suc (find_dev ipa ds))"

definition dispatch_mmio ::
  "'h hv_ops \<Rightarrow> 'h \<Rightarrow> nat \<Rightarrow> mmio_access \<Rightarrow> ('nb, 'vb, 's) vm \<Rightarrow>
     ('nb, 'vb, 's) vm \<times> (error + 'h \<times> rat option)" where
  "dispatch_mmio hv h cpu acc vm =
     (let (vm', r) =
        (if in_uart (ma_ipa acc) then
           (case serve_uart hv h cpu acc (v_pl011 vm) of
              (u, r) \<Rightarrow> (vm\<lparr>v_pl011 := u\<rparr>, case r of Inl e \<Rightarrow> Inl e | Inr h' \<Rightarrow> Inr (h', None)))
         else case find_dev (ma_ipa acc) (v_virtio vm) of
           Some i \<Rightarrow>
             (case serve_virtio hv h cpu acc (v_mem vm) (v_virtio vm ! i) of
                (d, ram, r) \<Rightarrow> (vm\<lparr>v_virtio := (v_virtio vm)[i := d], v_mem := ram\<rparr>, r))
         | None \<Rightarrow>
             (vm, case ma_write acc of
                    Some _ \<Rightarrow> Inr (h, None)
                  | None \<Rightarrow> (case vc_complete_read hv h cpu 0 of Inl e \<Rightarrow> Inl e | Inr h' \<Rightarrow> Inr (h', None))))
      in (vm', case r of
                 Inl e \<Rightarrow> Inl e
               | Inr (h', t) \<Rightarrow> (case vc_advance hv h' cpu of Inl e \<Rightarrow> Inl e | Inr h'' \<Rightarrow> Inr (h'', t))))"

end
