(* ===== verification/Machine.thy ===== *)
theory Machine
  imports Vm
begin

text \<open>
  The running machine, \<open>Vm::run\<close> and the threads it starts: the primary vcpu's loop, the secondary
  vcpus, the console and control readers and the snapshot kicker.  Each function is what one thread
  does between two points where it may block or where it releases the locks; the relation \<open>mstep\<close>
  interleaves them.  The delays a thread sleeps are returned as a \<open>nap\<close>.
\<close>

section \<open>Pieces of the loop\<close>

fun pump_devs ::
  "'h hv_ops \<Rightarrow> 'h \<Rightarrow> guest_ram \<Rightarrow> 'd virtio_dev list \<Rightarrow>
     ('d virtio_dev list \<times> guest_ram \<times> (error + 'h)) option" where
  "pump_devs hv h ram [] = Some ([], ram, Inr h)"
| "pump_devs hv h ram (d # ds) =
     (case pump_rx (vd_ops d) (vd_mmio d) ram of
        None \<Rightarrow> None
      | Some (posted, m, ram') \<Rightarrow>
          (case (if posted then hv_set_irq hv h (vd_intid d) (irq_level (vd_ops d) m) else Inr h) of
             Inl e \<Rightarrow> Some (d\<lparr>vd_mmio := m\<rparr> # ds, ram', Inl e)
           | Inr h' \<Rightarrow>
               map_option (\<lambda>(ds', r). (d\<lparr>vd_mmio := m\<rparr> # ds', r)) (pump_devs hv h' ram' ds)))"

definition snapshot_due :: "snapshot_req \<Rightarrow> pl011 \<Rightarrow> rat \<Rightarrow> bool" where
  "snapshot_due req u elapsed \<longleftrightarrow> (sr_marker req \<noteq> None \<and> marked u) \<or> sr_after req \<le> elapsed"

definition uart_words :: "pl011 \<Rightarrow> u32 list" where
  "uart_words u = (case regs u of (a, b, c, d, e, f) \<Rightarrow> [a, b, c, d, e, f])"

definition capture_devices :: "('nb, 'vb, 's) vm \<Rightarrow> dev_state" where
  "capture_devices vm =
     \<lparr>ds_pl011 = uart_words (v_pl011 vm), ds_virtio = map (\<lambda>d. capture (vd_mmio d)) (v_virtio vm)\<rparr>"

definition has_device :: "u32 \<Rightarrow> ('nb, 'vb, 's) vm \<Rightarrow> bool" where
  "has_device k vm = list_ex (\<lambda>d. op_device_id (vd_ops d) = k) (v_virtio vm)"

definition write_snapshot ::
  "'h hv_ops \<Rightarrow> serde \<Rightarrow> snap_fs \<Rightarrow> 'h \<Rightarrow> snap_dir \<Rightarrow> ('nb, 'vb, 's) vm \<Rightarrow> cpu_snapshot list \<Rightarrow>
     snap_dir \<times> (error + unit)" where
  "write_snapshot hv sd fs h dir vm cpus =
     (case hv_capture_gic hv h of
        Inl e \<Rightarrow> (dir, Inl e)
      | Inr gic \<Rightarrow>
          snapshot_write sd fs dir (v_mem vm) cpus gic (v_disk_path vm) (map_option kind (hv_gic hv h))
            (capture_devices vm) (has_device 1 vm) (has_device 19 vm))"

definition idle_cap :: "('nb, 'vb, 's) vm \<Rightarrow> nat" where
  "idle_cap vm = (if list_ex (\<lambda>d. wants_poll (vd_ops d) (vd_mmio d)) (v_virtio vm) then 1000000 else 50000000)"

definition park_ns :: "'h hv_ops \<Rightarrow> 'h \<Rightarrow> nat \<Rightarrow> nat \<Rightarrow> nat" where
  "park_ns hv h cpu cap = (case vc_timer_ns hv h cpu of Inr (Some n) \<Rightarrow> min n cap | _ \<Rightarrow> cap)"


section \<open>The machine\<close>

datatype primary = PLoop | PGate | PQuiesce cpu_snapshot | PDone "error + unit"

datatype secondary = SInit | SLoop | SGate | SDone

datatype nap = NoNap | Park nat | Throttle rat

text \<open>\<open>m_control\<close> and \<open>m_stdin\<close> are what the two readers have still to read before the other end
  closes, \<open>None\<close> once the reader has ended.\<close>

record ('nb, 'vb, 's, 'h) machine =
  m_vm :: "('nb, 'vb, 's) vm"
  m_h :: 'h
  m_running :: bool
  m_pause :: bool
  m_primary :: primary
  m_want :: bool
  m_states :: "cpu_snapshot option list"
  m_sec :: "secondary list"
  m_control :: "bytes option"
  m_stdin :: "bytes option"
  m_dir :: snap_dir

definition machine_init ::
  "('nb, 'vb, 's) vm \<Rightarrow> 'h \<Rightarrow> bytes option \<Rightarrow> bytes \<Rightarrow> snap_dir \<Rightarrow> ('nb, 'vb, 's, 'h) machine" where
  "machine_init vm h ctl inp dir =
     \<lparr>m_vm = vm, m_h = h, m_running = True, m_pause = False, m_primary = PLoop, m_want = False,
      m_states = replicate (v_vcpus vm - 1) None, m_sec = replicate (v_vcpus vm - 1) SInit,
      m_control = (if v_control_fd vm = None then None else ctl), m_stdin = Some inp, m_dir = dir\<rparr>"


section \<open>The primary vcpu\<close>

definition stop_primary ::
  "'h hv_ops \<Rightarrow> error + unit \<Rightarrow> ('nb, 'vb, 's, 'h) machine \<Rightarrow> ('nb, 'vb, 's, 'h) machine" where
  "stop_primary hv r m =
     m\<lparr>m_running := False, m_h := hv_request_stop hv (m_h m), m_primary := PDone r\<rparr>"

definition primary_exit ::
  "'h hv_ops \<Rightarrow> ('nb, 'vb, 's, 'h) machine \<Rightarrow> ('nb, 'vb, 's, 'h) machine \<times> nap" where
  "primary_exit hv m =
     (case vc_run hv (m_h m) 0 (v_mem (m_vm m)) of
        (h, ram, r) \<Rightarrow>
          let m1 = m\<lparr>m_h := h, m_vm := (m_vm m)\<lparr>v_mem := ram\<rparr>, m_primary := PLoop\<rparr>
          in case r of
               Inl e \<Rightarrow> (stop_primary hv (Inl e) m1, NoNap)
             | Inr (Mmio acc) \<Rightarrow>
                 (case dispatch_mmio hv h 0 acc (m_vm m1) of
                    (vm, Inl e) \<Rightarrow> (stop_primary hv (Inl e) (m1\<lparr>m_vm := vm\<rparr>), NoNap)
                  | (vm, Inr (h', t)) \<Rightarrow>
                      (m1\<lparr>m_vm := vm, m_h := h'\<rparr>, case t of None \<Rightarrow> NoNap | Some w \<Rightarrow> Throttle w))
             | Inr Idle \<Rightarrow> (m1, Park (park_ns hv h 0 (idle_cap (m_vm m1))))
             | Inr Shutdown \<Rightarrow> (stop_primary hv (Inr ()) m1, NoNap)
             | Inr (Fault pc esr ipa) \<Rightarrow> (stop_primary hv (Inl (GuestFault pc esr ipa)) m1, NoNap))"

definition write_and_stop ::
  "'h hv_ops \<Rightarrow> serde \<Rightarrow> snap_fs \<Rightarrow> cpu_snapshot list \<Rightarrow> ('nb, 'vb, 's, 'h) machine \<Rightarrow>
     ('nb, 'vb, 's, 'h) machine" where
  "write_and_stop hv sd fs cpus m =
     (case write_snapshot hv sd fs (m_h m) (m_dir m) (m_vm m) cpus of
        (dir, r) \<Rightarrow> stop_primary hv r (m\<lparr>m_dir := dir\<rparr>))"

text \<open>The snapshot point: the primary captures itself; with secondaries it then asks them to
  quiesce and waits.\<close>

definition begin_capture ::
  "'h hv_ops \<Rightarrow> serde \<Rightarrow> snap_fs \<Rightarrow> ('nb, 'vb, 's, 'h) machine \<Rightarrow> ('nb, 'vb, 's, 'h) machine" where
  "begin_capture hv sd fs m =
     (case vc_capture hv (m_h m) 0 of
        Inl e \<Rightarrow> stop_primary hv (Inl e) m
      | Inr c \<Rightarrow>
          if 1 < v_vcpus (m_vm m)
          then m\<lparr>m_want := True, m_h := hv_set_yield hv (m_h m) True, m_primary := PQuiesce c\<rparr>
          else write_and_stop hv sd fs [c] m)"

definition quiesce_step ::
  "'h hv_ops \<Rightarrow> serde \<Rightarrow> snap_fs \<Rightarrow> bool \<Rightarrow> cpu_snapshot \<Rightarrow> ('nb, 'vb, 's, 'h) machine \<Rightarrow>
     ('nb, 'vb, 's, 'h) machine" where
  "quiesce_step hv sd fs late c m =
     (if None \<in> set (m_states m) then (if late then stop_primary hv (Inl error.Snapshot) m else m)
      else write_and_stop hv sd fs (c # map the (m_states m)) m)"

definition primary_step ::
  "'h hv_ops \<Rightarrow> serde \<Rightarrow> snap_fs \<Rightarrow> rat \<Rightarrow> bool \<Rightarrow> ('nb, 'vb, 's, 'h) machine \<Rightarrow>
     (('nb, 'vb, 's, 'h) machine \<times> nap) option" where
  "primary_step hv sd fs elapsed late m =
     (case m_primary m of
        PLoop \<Rightarrow>
          Some (if m_running m then m\<lparr>m_primary := PGate\<rparr> else stop_primary hv (Inr ()) m, NoNap)
      | PGate \<Rightarrow>
          if m_pause m then Some (m, NoNap)
          else
            (case pump_devs hv (m_h m) (v_mem (m_vm m)) (v_virtio (m_vm m)) of
               None \<Rightarrow> None
             | Some (devs, ram, r) \<Rightarrow>
                 let m1 = m\<lparr>m_vm := (m_vm m)\<lparr>v_virtio := devs, v_mem := ram\<rparr>\<rparr>
                 in case r of
                      Inl e \<Rightarrow> Some (stop_primary hv (Inl e) m1, NoNap)
                    | Inr h \<Rightarrow>
                        let m2 = m1\<lparr>m_h := h\<rparr>
                        in if (case v_snapshot (m_vm m2) of
                                 None \<Rightarrow> False | Some req \<Rightarrow> snapshot_due req (v_pl011 (m_vm m2)) elapsed)
                           then Some (begin_capture hv sd fs m2, NoNap)
                           else Some (primary_exit hv m2))
      | PQuiesce c \<Rightarrow> Some (quiesce_step hv sd fs late c m, NoNap)
      | PDone r \<Rightarrow> Some (m, NoNap))"


section \<open>A secondary vcpu\<close>

definition stop_all :: "'h hv_ops \<Rightarrow> ('nb, 'vb, 's, 'h) machine \<Rightarrow> ('nb, 'vb, 's, 'h) machine" where
  "stop_all hv m = m\<lparr>m_running := False, m_h := hv_request_stop hv (m_h m)\<rparr>"

definition set_sec :: "nat \<Rightarrow> secondary \<Rightarrow> ('nb, 'vb, 's, 'h) machine \<Rightarrow> ('nb, 'vb, 's, 'h) machine" where
  "set_sec i p m = m\<lparr>m_sec := (m_sec m)[i - 1 := p]\<rparr>"

definition secondary_start ::
  "'h hv_ops \<Rightarrow> nat \<Rightarrow> ('nb, 'vb, 's, 'h) machine \<Rightarrow> ('nb, 'vb, 's, 'h) machine" where
  "secondary_start hv i m =
     (let init = Option.bind (v_restore (m_vm m))
                   (\<lambda>l. if i - 1 < length (ld_cpus l) then Some (ld_cpus l ! (i - 1)) else None)
      in case (case hv_create_vcpu hv (m_h m) i of
                 Inl e \<Rightarrow> Inl e
               | Inr h \<Rightarrow>
                   (case init of
                      Some s \<Rightarrow> vc_restore hv h i s
                    | None \<Rightarrow> (case cpu_tmpl (m_vm m) of None \<Rightarrow> Inr h | Some t \<Rightarrow> vc_apply_template hv h i t))) of
           Inl e \<Rightarrow> set_sec i SDone (stop_all hv m)
         | Inr h \<Rightarrow> set_sec i SLoop (m\<lparr>m_h := h\<rparr>))"

definition deposit ::
  "'h hv_ops \<Rightarrow> nat \<Rightarrow> ('nb, 'vb, 's, 'h) machine \<Rightarrow> ('nb, 'vb, 's, 'h) machine" where
  "deposit hv i m =
     (if m_states m ! (i - 1) = None
      then (case vc_capture hv (m_h m) i of
              Inl e \<Rightarrow> stop_all hv m
            | Inr c \<Rightarrow> m\<lparr>m_states := (m_states m)[i - 1 := Some c]\<rparr>)
      else m)"

definition secondary_exit ::
  "'h hv_ops \<Rightarrow> nat \<Rightarrow> ('nb, 'vb, 's, 'h) machine \<Rightarrow> ('nb, 'vb, 's, 'h) machine \<times> nap" where
  "secondary_exit hv i m =
     (case vc_run hv (m_h m) i (v_mem (m_vm m)) of
        (h, ram, r) \<Rightarrow>
          let m1 = set_sec i SLoop (m\<lparr>m_h := h, m_vm := (m_vm m)\<lparr>v_mem := ram\<rparr>\<rparr>)
          in case r of
               Inl e \<Rightarrow> (stop_all hv m1, NoNap)
             | Inr (Mmio acc) \<Rightarrow>
                 (case dispatch_mmio hv h i acc (m_vm m1) of
                    (vm, Inl e) \<Rightarrow> (stop_all hv (m1\<lparr>m_vm := vm\<rparr>), NoNap)
                  | (vm, Inr (h', t)) \<Rightarrow>
                      (m1\<lparr>m_vm := vm, m_h := h'\<rparr>, case t of None \<Rightarrow> NoNap | Some w \<Rightarrow> Throttle w))
             | Inr Idle \<Rightarrow> (m1, Park (park_ns hv h i 2000000))
             | Inr Shutdown \<Rightarrow> (stop_all hv m1, NoNap)
             | Inr (Fault pc esr ipa) \<Rightarrow> (stop_all hv m1, NoNap))"

definition secondary_step ::
  "'h hv_ops \<Rightarrow> nat \<Rightarrow> ('nb, 'vb, 's, 'h) machine \<Rightarrow> ('nb, 'vb, 's, 'h) machine \<times> nap" where
  "secondary_step hv i m =
     (case m_sec m ! (i - 1) of
        SInit \<Rightarrow> (secondary_start hv i m, NoNap)
      | SLoop \<Rightarrow>
          (if \<not> m_running m then set_sec i SDone m
           else if m_want m then deposit hv i m
           else set_sec i SGate m, NoNap)
      | SGate \<Rightarrow> if m_pause m \<and> m_running m then (m, NoNap) else secondary_exit hv i m
      | SDone \<Rightarrow> (m, NoNap))"


section \<open>The readers\<close>

text \<open>One poll of the console: up to \<open>n\<close> bytes of a buffer of 64 are there.\<close>

definition console_step ::
  "'h hv_ops \<Rightarrow> nat \<Rightarrow> ('nb, 'vb, 's, 'h) machine \<Rightarrow> ('nb, 'vb, 's, 'h) machine" where
  "console_step hv n m =
     (case m_stdin m of
        None \<Rightarrow> m
      | Some inp \<Rightarrow>
          if \<not> m_running m then m\<lparr>m_stdin := None\<rparr>
          else if n = 0 then m
          else if inp = [] then m\<lparr>m_stdin := None\<rparr>
          else
            let u = fold (\<lambda>b u. push_rx u b) (take (min n 64) inp) (v_pl011 (m_vm m))
            in m\<lparr>m_stdin := Some (drop (min n 64) inp), m_vm := (m_vm m)\<lparr>v_pl011 := u\<rparr>,
                 m_h := (case hv_set_irq hv (m_h m) pl011_intid (uart_irq_level u) of
                           Inl e \<Rightarrow> m_h m | Inr h \<Rightarrow> h)\<rparr>)"

definition read_exact_fd :: "nat \<Rightarrow> bytes \<Rightarrow> (bytes \<times> bytes) option" where
  "read_exact_fd n inp = (if n \<le> length inp then Some (take n inp, drop n inp) else None)"

text \<open>The control thread's half of the balloon handle; the product wraps, as in a release build.\<close>

definition set_balloon :: "u64 \<Rightarrow> ('nb, 'vb, 's) device \<Rightarrow> ('nb, 'vb, 's) device" where
  "set_balloon pages d =
     (case d of DBalloon b \<Rightarrow> DBalloon (b\<lparr>target_pages := pages, config_dirty := True\<rparr>) | _ \<Rightarrow> d)"

definition balloon_target :: "u64 \<Rightarrow> ('nb, 'vb, 's) vm \<Rightarrow> ('nb, 'vb, 's) vm" where
  "balloon_target pages vm =
     (let i = fst (v_balloon vm); d = v_virtio vm ! i
      in vm\<lparr>v_virtio := (v_virtio vm)[i := d\<lparr>vd_mmio := (vd_mmio d)\<lparr>dev := set_balloon pages (dev (vd_mmio d))\<rparr>\<rparr>]\<rparr>)"

definition control_frame ::
  "'h hv_ops \<Rightarrow> u8 \<Rightarrow> bytes \<Rightarrow> ('nb, 'vb, 's, 'h) machine \<Rightarrow> ('nb, 'vb, 's, 'h) machine" where
  "control_frame hv op rest m =
     (if op = BALLOON then
        (case read_exact_fd 8 rest of
           None \<Rightarrow> m\<lparr>m_control := None\<rparr>
         | Some (buf, rest') \<Rightarrow>
             m\<lparr>m_control := Some rest',
               m_vm := balloon_target (from_le buf * 256) (m_vm m),
               m_h := (case hv_set_irq hv (m_h m) (snd (v_balloon (m_vm m))) True of
                         Inl e \<Rightarrow> m_h m | Inr h \<Rightarrow> h)\<rparr>)
      else if op = PAUSE then
        m\<lparr>m_control := Some rest, m_pause := True, m_h := hv_kick hv (hv_set_yield hv (m_h m) True)\<rparr>
      else if op = RESUME then
        m\<lparr>m_control := Some rest, m_pause := False, m_h := hv_set_yield hv (m_h m) False\<rparr>
      else m\<lparr>m_control := Some rest\<rparr>)"

definition control_step ::
  "'h hv_ops \<Rightarrow> ('nb, 'vb, 's, 'h) machine \<Rightarrow> ('nb, 'vb, 's, 'h) machine" where
  "control_step hv m =
     (case m_control m of
        None \<Rightarrow> m
      | Some inp \<Rightarrow>
          if \<not> m_running m then m\<lparr>m_control := None\<rparr>
          else (case inp of
                  [] \<Rightarrow> m\<lparr>m_control := None, m_running := False,
                          m_h := hv_kick hv (hv_set_yield hv (m_h m) True)\<rparr>
                | op # rest \<Rightarrow> control_frame hv op rest m))"

text \<open>The gate of a pooled worker: it is let go by any byte on the control channel, or its end, and the
  control thread reads what follows.\<close>

definition warm_gate :: "bool \<Rightarrow> bytes \<Rightarrow> bytes" where
  "warm_gate paused inp = (if paused then drop 1 inp else inp)"

definition kicker_step ::
  "'h hv_ops \<Rightarrow> rat \<Rightarrow> ('nb, 'vb, 's, 'h) machine \<Rightarrow> ('nb, 'vb, 's, 'h) machine" where
  "kicker_step hv elapsed m =
     (case v_snapshot (m_vm m) of
        None \<Rightarrow> m
      | Some req \<Rightarrow>
          if m_running m \<and> sr_after req \<le> elapsed then m\<lparr>m_h := hv_kick hv (m_h m)\<rparr> else m)"


section \<open>Interleaving\<close>

inductive mstep ::
  "'h hv_ops \<Rightarrow> serde \<Rightarrow> snap_fs \<Rightarrow> ('nb, 'vb, 's, 'h) machine \<Rightarrow> ('nb, 'vb, 's, 'h) machine \<Rightarrow> bool"
  for hv sd fs where
  primary: "primary_step hv sd fs elapsed late m = Some (m', nap) \<Longrightarrow> mstep hv sd fs m m'"
| secondary: "\<lbrakk>1 \<le> i; i < v_vcpus (m_vm m); secondary_step hv i m = (m', nap)\<rbrakk> \<Longrightarrow> mstep hv sd fs m m'"
| console: "mstep hv sd fs m (console_step hv n m)"
| control: "mstep hv sd fs m (control_step hv m)"
| kicker: "mstep hv sd fs m (kicker_step hv elapsed m)"

inductive_cases mstep_cases [consumes 1, case_names primary secondary console control kicker]:
  "mstep hv sd fs m m'"

definition mreach ::
  "'h hv_ops \<Rightarrow> serde \<Rightarrow> snap_fs \<Rightarrow> ('nb, 'vb, 's, 'h) machine \<Rightarrow> ('nb, 'vb, 's, 'h) machine \<Rightarrow> bool" where
  "mreach hv sd fs = (mstep hv sd fs)\<^sup>*\<^sup>*"

end
