(* ===== verification/Machine_Laws.thy ===== *)
theory Machine_Laws
  imports Machine
begin

text \<open>
  Laws of the machine: servicing exits, pumping and the control channel keep every device in its
  slot, of its kind, with its invariant, and RAM in its place (\<open>vm_ok\<close>, \<open>vm_step\<close>); the quiesce
  protocol of the snapshot (\<open>protocol_ok\<close>); and both on every reachable machine.
\<close>

section \<open>Devices keep their slot\<close>

definition vdev_good :: "('nb, 'vb, 's) vm_host \<Rightarrow> ('nb, 'vb, 's) device virtio_dev \<Rightarrow> bool" where
  "vdev_good H v \<longleftrightarrow>
     vd_ops v = device_ops H (dev (vd_mmio v)) \<and> dev_ok (dev (vd_mmio v)) \<and> mmio_ok (vd_ops v) (vd_mmio v)"

definition vdev_step ::
  "('nb, 'vb, 's) device virtio_dev \<Rightarrow> ('nb, 'vb, 's) device virtio_dev \<Rightarrow> bool" where
  "vdev_step v w \<longleftrightarrow>
     vd_base w = vd_base v \<and> vd_size w = vd_size v \<and> vd_intid w = vd_intid v \<and> vd_ops w = vd_ops v \<and>
     same_kind (dev (vd_mmio v)) (dev (vd_mmio w))"

definition vm_ok :: "('nb, 'vb, 's) vm_host \<Rightarrow> ('nb, 'vb, 's) vm \<Rightarrow> bool" where
  "vm_ok H vm = list_all (vdev_good H) (v_virtio vm)"

definition vm_step :: "('nb, 'vb, 's) vm \<Rightarrow> ('nb, 'vb, 's) vm \<Rightarrow> bool" where
  "vm_step vm vm' \<longleftrightarrow>
     list_all2 vdev_step (v_virtio vm) (v_virtio vm') \<and> changes_only UNIV (v_mem vm) (v_mem vm') \<and>
     vm' = vm\<lparr>v_virtio := v_virtio vm', v_mem := v_mem vm', v_pl011 := v_pl011 vm'\<rparr>"

lemma vdev_step_refl [simp]: "vdev_step v v"
  by (simp add: vdev_step_def)

lemma vdev_step_trans: "\<lbrakk>vdev_step u v; vdev_step v w\<rbrakk> \<Longrightarrow> vdev_step u w"
  by (auto simp: vdev_step_def intro: same_kind_trans)

lemma vdevs_step_refl [simp]: "list_all2 vdev_step ds ds"
  by (rule list_all2_refl) simp

lemma vm_step_refl [simp]: "vm_step vm vm"
  by (simp add: vm_step_def)

lemma vm_step_trans:
  assumes "vm_step a b" "vm_step b c"
  shows "vm_step a c"
proof -
  have "list_all2 vdev_step (v_virtio a) (v_virtio c)"
    using assms list_all2_trans [of vdev_step vdev_step vdev_step, OF vdev_step_trans]
    by (auto simp: vm_step_def)
  moreover have "changes_only UNIV (v_mem a) (v_mem c)"
    using assms by (auto simp: vm_step_def intro: changes_only_step)
  moreover have "c = a\<lparr>v_virtio := v_virtio c, v_mem := v_mem c, v_pl011 := v_pl011 c\<rparr>"
  proof -
    have "b = a\<lparr>v_virtio := v_virtio b, v_mem := v_mem b, v_pl011 := v_pl011 b\<rparr>"
      using assms(1) by (simp add: vm_step_def)
    moreover have "c = b\<lparr>v_virtio := v_virtio c, v_mem := v_mem c, v_pl011 := v_pl011 c\<rparr>"
      using assms(2) by (simp add: vm_step_def)
    ultimately show ?thesis by (cases a; cases b; cases c) simp
  qed
  ultimately show ?thesis by (simp add: vm_step_def)
qed

text \<open>Updates of one part.\<close>

lemma vm_step_uart [simp]: "vm_step vm (vm\<lparr>v_pl011 := u\<rparr>)"
  by (simp add: vm_step_def)

lemma vm_step_mem: "changes_only UNIV (v_mem vm) ram \<Longrightarrow> vm_step vm (vm\<lparr>v_mem := ram\<rparr>)"
  by (simp add: vm_step_def)

lemma vm_step_devs:
  "\<lbrakk>list_all2 vdev_step (v_virtio vm) ds; changes_only UNIV (v_mem vm) ram\<rbrakk> \<Longrightarrow>
     vm_step vm (vm\<lparr>v_virtio := ds, v_mem := ram\<rparr>)"
  by (simp add: vm_step_def)

lemma vm_ok_upd [simp]:
  "vm_ok H (vm\<lparr>v_pl011 := u\<rparr>) = vm_ok H vm" "vm_ok H (vm\<lparr>v_mem := ram\<rparr>) = vm_ok H vm"
  "vm_ok H (vm\<lparr>v_virtio := ds\<rparr>) = list_all (vdev_good H) ds"
  by (simp_all add: vm_ok_def)

text \<open>A new transport state of the same device keeps both.\<close>

lemma vdev_upd:
  assumes "vdev_good H v" "mmio_ok (vd_ops v) m" "same_kind (dev (vd_mmio v)) (dev m)" "dev_ok (dev m)"
  shows "vdev_good H (v\<lparr>vd_mmio := m\<rparr>) \<and> vdev_step v (v\<lparr>vd_mmio := m\<rparr>)"
  using assms device_ops_kind [OF assms(3), of H] by (simp add: vdev_good_def vdev_step_def)

lemma vdev_goodD:
  "vdev_good H v \<Longrightarrow> vd_ops v = device_ops H (dev (vd_mmio v))"
  "vdev_good H v \<Longrightarrow> dev_ok (dev (vd_mmio v))"
  "vdev_good H v \<Longrightarrow> mmio_ok (device_ops H (dev (vd_mmio v))) (vd_mmio v)"
  by (auto simp: vdev_good_def)

lemma vdev_write:
  assumes "vdev_good H v" "mmio_write (vd_ops v) (vd_mmio v) ram off x = (m, ram')"
  shows "vdev_good H (v\<lparr>vd_mmio := m\<rparr>) \<and> vdev_step v (v\<lparr>vd_mmio := m\<rparr>) \<and> changes_only UNIV ram ram'"
  using machine_device.mmio_write_inv [of H "dev (vd_mmio v)" "vd_mmio v" ram off x, OF vdev_goodD(3)]
    assms vdev_upd [OF assms(1), of m]
  by (simp add: vdev_goodD)

lemma vdev_pump:
  assumes "vdev_good H v" "pump_rx (vd_ops v) (vd_mmio v) ram = Some (b, m, ram')"
  shows "vdev_good H (v\<lparr>vd_mmio := m\<rparr>) \<and> vdev_step v (v\<lparr>vd_mmio := m\<rparr>) \<and> changes_only UNIV ram ram'"
  using machine_device.pump_rx_inv [of H "dev (vd_mmio v)" "vd_mmio v" ram b m ram', OF _ vdev_goodD(3)]
    assms vdev_upd [OF assms(1), of m]
  by (simp add: vdev_goodD)

lemma vdev_throttle:
  assumes "vdev_good H v" "take_throttle (vd_ops v) (vd_mmio v) = (m, t)"
  shows "vdev_good H (v\<lparr>vd_mmio := m\<rparr>) \<and> vdev_step v (v\<lparr>vd_mmio := m\<rparr>)"
proof -
  obtain d where m: "m = (vd_mmio v)\<lparr>dev := d\<rparr>" "d = fst (op_take_throttle (vd_ops v) (dev (vd_mmio v)))"
    using assms(2) by (auto simp: take_throttle_def split: prod.splits)
  have "same_kind (dev (vd_mmio v)) d \<and> dev_ok d"
    using machine_device.throttle_inv [of "dev (vd_mmio v)" "dev (vd_mmio v)" H] assms(1) m(2)
    by (simp add: vdev_good_def)
  moreover have "mmio_ok (vd_ops v) m" using vdev_goodD [OF assms(1)] m(1) by (simp add: mmio_ok_def)
  ultimately show ?thesis using vdev_upd [OF assms(1), of m] m(1) by simp
qed

lemma serve_virtio_good:
  assumes "vdev_good H v" "serve_virtio hv h cpu acc ram v = (v', ram', r)"
  shows "vdev_good H v' \<and> vdev_step v v' \<and> changes_only UNIV ram ram'"
proof (cases "ma_write acc")
  case None
  have id: "v\<lparr>vd_mmio := vd_mmio v\<rparr> = v" by simp
  show ?thesis
    using assms None vdev_throttle [OF assms(1)]
    by (auto simp: serve_virtio_def Let_def split: sum.splits prod.splits)
next
  case (Some x)
  obtain m ram1 where w: "mmio_write (vd_ops v) (vd_mmio v) ram (ma_ipa acc - vd_base v) x = (m, ram1)"
    by fastforce
  note g = vdev_write [OF assms(1) w]
  show ?thesis
    using assms(2) Some w g vdev_throttle [of H "v\<lparr>vd_mmio := m\<rparr>"] vdev_step_trans
    by (fastforce simp: serve_virtio_def Let_def split: sum.splits prod.splits)
qed

lemma pump_devs_good:
  "\<lbrakk>pump_devs hv h ram ds = Some (ds', ram', r); list_all (vdev_good H) ds\<rbrakk> \<Longrightarrow>
     list_all (vdev_good H) ds' \<and> list_all2 vdev_step ds ds' \<and> changes_only UNIV ram ram'"
proof (induction hv h ram ds arbitrary: ds' rule: pump_devs.induct)
  case (2 hv h ram d ds)
  from "2.prems"(1) obtain b m ram1 where p: "pump_rx (vd_ops d) (vd_mmio d) ram = Some (b, m, ram1)"
    by (auto split: option.splits)
  have g: "vdev_good H (d\<lparr>vd_mmio := m\<rparr>)" "vdev_step d (d\<lparr>vd_mmio := m\<rparr>)" "changes_only UNIV ram ram1"
    using vdev_pump [of H, OF _ p] "2.prems"(2) by simp_all
  let ?s = "if b then hv_set_irq hv h (vd_intid d) (irq_level (vd_ops d) m) else Inr h"
  show ?case
  proof (cases ?s)
    case (Inl e)
    with "2.prems" p g show ?thesis by auto
  next
    case (Inr h')
    with "2.prems" p obtain ds1 where q: "pump_devs hv h' ram1 ds = Some (ds1, ram', r)"
      "ds' = d\<lparr>vd_mmio := m\<rparr> # ds1" by auto
    have "list_all (vdev_good H) ds1 \<and> list_all2 vdev_step ds ds1 \<and> changes_only UNIV ram1 ram'"
      by (rule "2.IH") (use p Inr q(1) "2.prems"(2) in simp_all)
    with q(2) g show ?thesis by (auto intro: changes_only_step)
  qed
qed auto


section \<open>One exit\<close>

lemma find_dev_Some: "find_dev ipa ds = Some i \<Longrightarrow> i < length ds \<and> vd_contains (ds ! i) ipa"
  by (induction ds arbitrary: i) (auto split: if_splits)

lemma find_dev_None: "find_dev ipa ds = None \<longleftrightarrow> (\<forall>d \<in> set ds. \<not> vd_contains d ipa)"
  by (induction ds) auto

lemma list_all_update: "\<lbrakk>list_all P xs; P x\<rbrakk> \<Longrightarrow> list_all P (xs[i := x])"
  by (auto simp: list_all_iff dest: set_update_subset_insert [THEN subsetD])

lemma vdevs_step_update:
  "\<lbrakk>i < length ds; vdev_step (ds ! i) d\<rbrakk> \<Longrightarrow> list_all2 vdev_step ds (ds[i := d])"
  by (auto simp: list_all2_conv_all_nth nth_list_update)

lemma dispatch_mmio_ok:
  assumes "dispatch_mmio hv h cpu acc vm = (vm', r)" "vm_ok H vm"
  shows "vm_ok H vm' \<and> vm_step vm vm'"
proof (cases "in_uart (ma_ipa acc)")
  case True
  then show ?thesis
    using assms by (auto simp: dispatch_mmio_def Let_def split: prod.splits)
next
  case False
  show ?thesis
  proof (cases "find_dev (ma_ipa acc) (v_virtio vm)")
    case None
    with False assms show ?thesis by (auto simp: dispatch_mmio_def Let_def)
  next
    case (Some i)
    obtain d ram r1 where s: "serve_virtio hv h cpu acc (v_mem vm) (v_virtio vm ! i) = (d, ram, r1)"
      by (metis prod_cases3)
    have i: "i < length (v_virtio vm)" using find_dev_Some [OF Some] by simp
    then have "vdev_good H (v_virtio vm ! i)" using assms(2) by (simp add: vm_ok_def list_all_length)
    from serve_virtio_good [OF this s] assms(2) i
    have "list_all (vdev_good H) ((v_virtio vm)[i := d])"
      "vm_step vm (vm\<lparr>v_virtio := (v_virtio vm)[i := d], v_mem := ram\<rparr>)"
      by (auto simp: vm_ok_def intro!: list_all_update vm_step_devs vdevs_step_update)
    with False Some s assms(1) show ?thesis by (auto simp: dispatch_mmio_def Let_def)
  qed
qed

lemma balloon_target_ok:
  assumes "vm_ok H vm"
  shows "vm_ok H (balloon_target pages vm) \<and> vm_step vm (balloon_target pages vm)"
proof (cases "fst (v_balloon vm) < length (v_virtio vm)")
  case True
  let ?d = "v_virtio vm ! fst (v_balloon vm)"
  let ?m = "(vd_mmio ?d)\<lparr>dev := set_balloon pages (dev (vd_mmio ?d))\<rparr>"
  have g: "vdev_good H ?d" using assms True by (simp add: vm_ok_def list_all_length)
  have "same_kind (dev (vd_mmio ?d)) (dev ?m)" "dev_ok (dev ?m)"
    using vdev_goodD(2) [OF g] by (auto simp: set_balloon_def same_kind_def dev_ok_def split: device.splits)
  moreover have "mmio_ok (vd_ops ?d) ?m" using vdev_goodD(1,3) [OF g] by (simp add: mmio_ok_def)
  ultimately have "vdev_good H (?d\<lparr>vd_mmio := ?m\<rparr>)" "vdev_step ?d (?d\<lparr>vd_mmio := ?m\<rparr>)"
    using vdev_upd [OF g] by simp_all
  with True assms vm_step_devs [of vm "(v_virtio vm)[fst (v_balloon vm) := ?d\<lparr>vd_mmio := ?m\<rparr>]" "v_mem vm"]
  show ?thesis by (simp add: balloon_target_def Let_def vm_ok_def list_all_update vdevs_step_update)
next
  case False
  with assms show ?thesis by (simp add: balloon_target_def Let_def not_less list_update_beyond vm_ok_def)
qed


section \<open>The machine invariant\<close>

text \<open>What is relied on of the backend: the guest runs in the RAM it was given.\<close>

definition hv_ok :: "'h hv_ops \<Rightarrow> bool" where
  "hv_ok hv \<longleftrightarrow> (\<forall>h i ram. changes_only UNIV ram (fst (snd (vc_run hv h i ram))))"

text \<open>The quiesce protocol: slots are filled only once the primary has asked and waits; a vcpu whose
  slot is filled is out of the guest.\<close>

definition protocol_ok ::
  "nat \<Rightarrow> bool \<Rightarrow> primary \<Rightarrow> bool \<Rightarrow> cpu_snapshot option list \<Rightarrow> secondary list \<Rightarrow> bool" where
  "protocol_ok n running primary want states sec \<longleftrightarrow>
     length states = n - 1 \<and> length sec = n - 1 \<and> (want \<longrightarrow> primary \<noteq> PLoop \<and> primary \<noteq> PGate) \<and>
     (\<forall>c. primary = PQuiesce c \<longrightarrow> want) \<and> (\<forall>r. primary = PDone r \<longrightarrow> \<not> running) \<and>
     (\<forall>k < length states. states ! k \<noteq> None \<longrightarrow> want \<and> (sec ! k = SLoop \<or> sec ! k = SDone))"

definition machine_ok ::
  "('nb, 'vb, 's) vm_host \<Rightarrow> ('nb, 'vb, 's) vm \<Rightarrow> ('nb, 'vb, 's, 'h) machine \<Rightarrow> bool" where
  "machine_ok H vm0 m \<longleftrightarrow> vm_ok H (m_vm m) \<and> vm_step vm0 (m_vm m) \<and>
     protocol_ok (v_vcpus (m_vm m)) (m_running m) (m_primary m) (m_want m) (m_states m) (m_sec m)"

lemma vm_step_vcpus: "vm_step vm vm' \<Longrightarrow> v_vcpus vm' = v_vcpus vm"
  by (cases vm; cases vm') (simp add: vm_step_def)

text \<open>A step of the machine's data that leaves the protocol alone.\<close>

lemma machine_ok_data:
  assumes "machine_ok H vm0 m" "vm_ok H vm" "vm_step (m_vm m) vm"
  shows "machine_ok H vm0 (m\<lparr>m_vm := vm\<rparr>)"
  using assms vm_step_trans [of vm0 "m_vm m" vm] vm_step_vcpus [OF assms(3)]
  by (auto simp: machine_ok_def protocol_ok_def)

lemma machine_ok_upd [simp]:
  "machine_ok H vm0 (m\<lparr>m_h := h\<rparr>) = machine_ok H vm0 m"
  "machine_ok H vm0 (m\<lparr>m_pause := p\<rparr>) = machine_ok H vm0 m"
  "machine_ok H vm0 (m\<lparr>m_control := c\<rparr>) = machine_ok H vm0 m"
  "machine_ok H vm0 (m\<lparr>m_stdin := c\<rparr>) = machine_ok H vm0 m"
  "machine_ok H vm0 (m\<lparr>m_dir := dir\<rparr>) = machine_ok H vm0 m"
  by (simp_all add: machine_ok_def protocol_ok_def)

lemma machine_ok_stop:
  "machine_ok H vm0 m \<Longrightarrow> machine_ok H vm0 (m\<lparr>m_running := False\<rparr>)"
  "machine_ok H vm0 m \<Longrightarrow> machine_ok H vm0 (stop_primary hv r m)"
  "machine_ok H vm0 m \<Longrightarrow> machine_ok H vm0 (stop_all hv m)"
  by (auto simp: machine_ok_def protocol_ok_def stop_primary_def stop_all_def)

lemma machine_ok_loop:
  "\<lbrakk>machine_ok H vm0 m; m_primary m = PGate; p = PLoop \<or> p = PGate\<rbrakk> \<Longrightarrow> machine_ok H vm0 (m\<lparr>m_primary := p\<rparr>)"
  by (auto simp: machine_ok_def protocol_ok_def)

lemma nth_update_if: "k < length xs \<Longrightarrow> xs[i := x] ! k = (if i = k then x else xs ! k)"
  by (cases "i = k") simp_all

lemma machine_ok_sec:
  assumes "machine_ok H vm0 m" "p = SLoop \<or> p = SDone \<or> \<not> m_want m"
  shows "machine_ok H vm0 (set_sec i p m)"
  using assms by (auto simp: machine_ok_def protocol_ok_def set_sec_def nth_update_if)

text \<open>A run of the guest and the service of its exit, as both vcpu loops do it.\<close>

lemma run_guest_ok:
  assumes "machine_ok H vm0 m" "hv_ok hv" "vc_run hv h i (v_mem (m_vm m)) = (h', ram, r)"
  shows "machine_ok H vm0 (m\<lparr>m_vm := (m_vm m)\<lparr>v_mem := ram\<rparr>\<rparr>)"
proof (rule machine_ok_data [OF assms(1)])
  have "changes_only UNIV (v_mem (m_vm m)) ram"
    using assms(2,3) unfolding hv_ok_def by (metis fst_conv snd_conv)
  then show "vm_step (m_vm m) ((m_vm m)\<lparr>v_mem := ram\<rparr>)" by (rule vm_step_mem)
qed (use assms(1) in \<open>simp add: machine_ok_def\<close>)

lemma dispatched_ok:
  assumes "machine_ok H vm0 m" "dispatch_mmio hv h i acc (m_vm m) = (vm, r)"
  shows "machine_ok H vm0 (m\<lparr>m_vm := vm\<rparr>)"
  using dispatch_mmio_ok [OF assms(2)] assms(1) machine_ok_data [OF assms(1)] by (auto simp: machine_ok_def)

lemma primary_exit_ok:
  assumes "machine_ok H vm0 m" "hv_ok hv" "m_primary m = PGate"
  shows "machine_ok H vm0 (fst (primary_exit hv m))"
proof -
  obtain h ram r where run: "vc_run hv (m_h m) 0 (v_mem (m_vm m)) = (h, ram, r)" by (metis prod_cases3)
  let ?m1 = "m\<lparr>m_h := h, m_vm := (m_vm m)\<lparr>v_mem := ram\<rparr>, m_primary := PLoop\<rparr>"
  have ok: "machine_ok H vm0 ?m1"
    using machine_ok_loop [OF run_guest_ok [of H vm0 "m\<lparr>m_h := h\<rparr>", OF _ assms(2)], of _ _ h ram r PLoop]
      assms(1,3) run by simp
  have disp: "machine_ok H vm0 (?m1\<lparr>m_vm := vm\<rparr>)"
    if "dispatch_mmio hv h 0 acc (m_vm ?m1) = (vm, r')" for acc vm r'
    by (rule dispatched_ok [OF ok that])
  show ?thesis
    using ok disp run
    by (auto simp: primary_exit_def Let_def machine_ok_stop split: sum.splits vm_exit.splits prod.splits)
      (simp_all add: machine_ok_def)
qed

lemma secondary_exit_ok:
  assumes "machine_ok H vm0 m" "hv_ok hv"
  shows "machine_ok H vm0 (fst (secondary_exit hv i m))"
proof -
  obtain h ram r where run: "vc_run hv (m_h m) i (v_mem (m_vm m)) = (h, ram, r)" by (metis prod_cases3)
  let ?m1 = "set_sec i SLoop (m\<lparr>m_h := h, m_vm := (m_vm m)\<lparr>v_mem := ram\<rparr>\<rparr>)"
  have ok: "machine_ok H vm0 ?m1"
    using run_guest_ok [of H vm0 "m\<lparr>m_h := h\<rparr>", OF _ assms(2), of "m_h m" i h ram r] assms(1) run
    by (intro machine_ok_sec) simp_all
  have disp: "machine_ok H vm0 (?m1\<lparr>m_vm := vm\<rparr>)"
    if "dispatch_mmio hv h i acc (m_vm ?m1) = (vm, r')" for acc vm r'
    by (rule dispatched_ok [OF ok that])
  show ?thesis
    using ok disp run
    by (auto simp: secondary_exit_def Let_def machine_ok_stop split: sum.splits vm_exit.splits prod.splits)
qed

lemma begin_capture_ok:
  assumes "machine_ok H vm0 m"
  shows "machine_ok H vm0 (begin_capture hv sd fs m)"
proof -
  have "machine_ok H vm0 (m\<lparr>m_want := True, m_h := h, m_primary := PQuiesce c\<rparr>)" for h c
    using assms by (auto simp: machine_ok_def protocol_ok_def)
  with assms show ?thesis
    by (auto simp: begin_capture_def write_and_stop_def machine_ok_stop split: sum.splits prod.splits)
qed

lemma primary_step_ok:
  assumes "primary_step hv sd fs elapsed late m = Some (m', nap)" "machine_ok H vm0 m" "hv_ok hv"
  shows "machine_ok H vm0 m'"
proof (cases "m_primary m")
  case PLoop
  have "machine_ok H vm0 (m\<lparr>m_primary := PGate\<rparr>)"
    using assms(2) PLoop by (auto simp: machine_ok_def protocol_ok_def)
  with assms PLoop show ?thesis by (auto simp: primary_step_def machine_ok_stop)
next
  case (PQuiesce c)
  with assms show ?thesis
    by (auto simp: primary_step_def quiesce_step_def write_and_stop_def machine_ok_stop
        split: prod.splits if_splits)
next
  case (PDone r)
  with assms show ?thesis by (simp add: primary_step_def)
next
  case PGate
  show ?thesis
  proof (cases "m_pause m")
    case True
    with assms PGate show ?thesis by (simp add: primary_step_def)
  next
    case False
    with assms(1) PGate obtain devs ram r where
      p: "pump_devs hv (m_h m) (v_mem (m_vm m)) (v_virtio (m_vm m)) = Some (devs, ram, r)"
      by (auto simp: primary_step_def split: option.splits)
    let ?m1 = "m\<lparr>m_vm := (m_vm m)\<lparr>v_virtio := devs, v_mem := ram\<rparr>\<rparr>"
    have g: "list_all (vdev_good H) devs" "list_all2 vdev_step (v_virtio (m_vm m)) devs"
      "changes_only UNIV (v_mem (m_vm m)) ram"
      using pump_devs_good [OF p, of H] assms(2) by (auto simp: machine_ok_def vm_ok_def)
    have ok: "machine_ok H vm0 ?m1"
      by (rule machine_ok_data [OF assms(2)]) (simp_all add: g vm_step_devs)
    have ok2: "machine_ok H vm0 (?m1\<lparr>m_h := h\<rparr>)" for h using ok by simp
    note exit_ok = primary_exit_ok [OF ok2 assms(3)]
    show ?thesis
    proof (cases r)
      case (Inl e)
      with assms(1) p PGate False ok show ?thesis by (auto simp: primary_step_def machine_ok_stop)
    next
      case (Inr h)
      with assms(1) p PGate False
      have "m' = begin_capture hv sd fs (?m1\<lparr>m_h := h\<rparr>) \<or> m' = fst (primary_exit hv (?m1\<lparr>m_h := h\<rparr>))"
        by (auto simp: primary_step_def Let_def split: option.splits if_splits)
      then show ?thesis using begin_capture_ok [OF ok2] exit_ok PGate by auto
    qed
  qed
qed

lemma deposit_ok:
  assumes "machine_ok H vm0 m" "m_want m" "m_sec m ! (i - 1) = SLoop"
  shows "machine_ok H vm0 (deposit hv i m)"
proof -
  have "machine_ok H vm0 (m\<lparr>m_states := (m_states m)[i - 1 := Some c]\<rparr>)" for c
    using assms by (auto simp: machine_ok_def protocol_ok_def nth_update_if)
  with assms(1) show ?thesis by (auto simp: deposit_def machine_ok_stop split: sum.splits)
qed

lemma secondary_step_ok:
  assumes "secondary_step hv i m = (m', nap)" "machine_ok H vm0 m" "hv_ok hv"
  shows "machine_ok H vm0 m'"
proof (cases "m_sec m ! (i - 1)")
  case SInit
  have "machine_ok H vm0 (set_sec i SDone (stop_all hv m))" "machine_ok H vm0 (set_sec i SLoop (m\<lparr>m_h := h\<rparr>))" for h
    using assms(2) by (auto intro!: machine_ok_sec machine_ok_stop)
  with assms(1) SInit show ?thesis
    by (auto simp: secondary_step_def secondary_start_def Let_def split: sum.splits)
next
  case SLoop
  with assms deposit_ok [OF assms(2) _ SLoop] machine_ok_sec [OF assms(2)] show ?thesis
    by (auto simp: secondary_step_def split: if_splits)
next
  case SGate
  with assms secondary_exit_ok [OF assms(2,3), of i] show ?thesis
    by (auto simp: secondary_step_def split: if_splits)
qed (use assms in \<open>simp add: secondary_step_def\<close>)

lemma console_step_ok:
  assumes ok: "machine_ok H vm0 m"
  shows "machine_ok H vm0 (console_step hv n m)"
proof -
  have "machine_ok H vm0 (m\<lparr>m_stdin := s, m_vm := (m_vm m)\<lparr>v_pl011 := u\<rparr>, m_h := h\<rparr>)" for s u h
    using machine_ok_data [OF ok, of "(m_vm m)\<lparr>v_pl011 := u\<rparr>"] ok by (simp add: machine_ok_def)
  with ok show ?thesis by (auto simp: console_step_def Let_def split: option.splits)
qed

lemma control_step_ok:
  assumes ok: "machine_ok H vm0 m"
  shows "machine_ok H vm0 (control_step hv m)"
proof -
  have "machine_ok H vm0 (m\<lparr>m_control := c, m_vm := balloon_target pages (m_vm m), m_h := h\<rparr>)" for c pages h
    using machine_ok_data [OF ok, of "balloon_target pages (m_vm m)"] ok
      balloon_target_ok [of H "m_vm m" pages] by (simp add: machine_ok_def)
  moreover have "machine_ok H vm0 (m\<lparr>m_control := c, m_running := False, m_h := h\<rparr>)" for c h
    using machine_ok_stop(1) [OF ok] by (simp add: machine_ok_def)
  ultimately show ?thesis
    using ok by (auto simp: control_step_def control_frame_def split: option.splits list.splits)
qed

lemma mstep_ok:
  assumes "mstep hv sd fs m m'" "machine_ok H vm0 m" "hv_ok hv"
  shows "machine_ok H vm0 m'"
  using assms
  by (cases rule: mstep.cases)
    (auto simp: kicker_step_def intro: primary_step_ok secondary_step_ok console_step_ok control_step_ok
      split: option.splits)

lemma mreach_ok:
  assumes "mreach hv sd fs m m'" "machine_ok H vm0 m" "hv_ok hv"
  shows "machine_ok H vm0 m'"
  using assms(1) unfolding mreach_def by (induction rule: rtranclp_induct) (auto intro: assms(2,3) mstep_ok)

lemma machine_init_ok: "vm_ok H vm \<Longrightarrow> machine_ok H vm (machine_init vm h ctl inp dir)"
  by (simp add: machine_ok_def protocol_ok_def machine_init_def)

end
