(* ===== verification/Build_Laws.thy ===== *)
theory Build_Laws
  imports Machine_Laws
begin

text \<open>
  Laws of building a machine: booting (\<open>prepare\<close>) and restoring (\<open>restore_from\<close>) place devices in
  consecutive slots of the bus with consecutive interrupts, in the order of \<open>boot_plan\<close>, and leave
  them good; starting keeps that.  Windows of different slots do not overlap each other or the
  console.
\<close>

section \<open>Slots\<close>

definition slots :: "'d virtio_dev list \<Rightarrow> bool" where
  "slots devs \<longleftrightarrow>
     (\<forall>i < length devs.
        vd_base (devs ! i) = VIRTIO_MMIO_BASE + of_nat i * VIRTIO_MMIO_STRIDE \<and>
        vd_size (devs ! i) = VIRTIO_MMIO_STRIDE \<and>
        vd_intid (devs ! i) = GIC_SPI_BASE + VIRTIO_SPI_BASE + of_nat i)"

definition slot_ids :: "'d virtio_dev list \<Rightarrow> u32 list" where
  "slot_ids devs = map (\<lambda>d. op_device_id (vd_ops d)) devs"

definition devs_ok :: "('nb, 'vb, 's) vm_host \<Rightarrow> ('nb, 'vb, 's) vdevs \<Rightarrow> bool" where
  "devs_ok H devs \<longleftrightarrow> slots devs \<and> list_all (vdev_good H) devs"

lemma devs_ok_Nil [simp]: "devs_ok H []"
  by (simp add: devs_ok_def slots_def)

lemma slot_ids_Nil [simp]: "slot_ids [] = []"
  by (simp add: slot_ids_def)

lemma length_slot_ids [simp]: "length (slot_ids devs) = length devs"
  by (simp add: slot_ids_def)

lemma length_push_dev [simp]: "length (push_dev H devs d) = Suc (length devs)"
  by (simp add: push_dev_def)

lemma slot_ids_push [simp]: "slot_ids (push_dev H devs d) = slot_ids devs @ [op_device_id (device_ops H d)]"
  by (simp add: slot_ids_def push_dev_def virtio_dev_new_def)

lemma devs_ok_push: "\<lbrakk>devs_ok H devs; dev_ok d\<rbrakk> \<Longrightarrow> devs_ok H (push_dev H devs d)"
  by (auto simp: devs_ok_def slots_def push_dev_def virtio_dev_new_def vdev_good_def mmio_ok_new nth_append
      less_Suc_eq)

lemma device_ids [simp]:
  "op_device_id (device_ops H (DBlk b)) = 2" "op_device_id (device_ops H (DRng r)) = 4"
  "op_device_id (device_ops H (DNet n)) = 1" "op_device_id (device_ops H (DVsock v)) = 19"
  "op_device_id (device_ops H (DBalloon l)) = 5"
  by (simp_all add: device_ops_def lift_ops_def blk_ops_def rng_ops_def net_ops_def vsock_ops_def
      balloon_ops_def virtio_default_ops_def)

lemma dev_ok_fresh [simp]:
  "blk_open_with f w env now = Inr b \<Longrightarrow> dev_ok (DBlk b)" "dev_ok (DRng r)"
  "dev_ok (DNet (net_new nb x env now now'))" "dev_ok (DVsock (vsock_new cid y))" "dev_ok (DBalloon l)"
  by (auto simp: dev_ok_def blk_open_with_def blk_ok_def net_new_def net_ok_def vsock_new_def vsock_ok_def
      split: option.splits intro: from_env_ok)

lemma slots_step: "\<lbrakk>slots ds; list_all2 vdev_step ds ds'\<rbrakk> \<Longrightarrow> slots ds'"
  by (auto simp: slots_def list_all2_conv_all_nth vdev_step_def)

lemma slot_ids_step: "list_all2 vdev_step ds ds' \<Longrightarrow> slot_ids ds' = slot_ids ds"
  by (auto simp: slot_ids_def list_eq_iff_nth_eq list_all2_conv_all_nth vdev_step_def)


section \<open>Windows\<close>

text \<open>For up to a thousand devices, far more than a machine has.\<close>

lemma window_iff:
  assumes "slots devs" "i < length devs" "length devs \<le> 1000"
  shows "vd_contains (devs ! i) ipa \<longleftrightarrow>
     unat VIRTIO_MMIO_BASE + i * 0x200 \<le> unat ipa \<and> unat ipa < unat VIRTIO_MMIO_BASE + Suc i * 0x200"
proof -
  have i: "i < 1000" using assms(2,3) by simp
  have b: "unat (VIRTIO_MMIO_BASE + of_nat i * VIRTIO_MMIO_STRIDE) = 0xc000000 + i * 0x200"
    "unat (VIRTIO_MMIO_BASE + of_nat i * VIRTIO_MMIO_STRIDE + VIRTIO_MMIO_STRIDE) = 0xc000000 + i * 0x200 + 0x200"
    using i by (simp_all add: VIRTIO_MMIO_BASE_def VIRTIO_MMIO_STRIDE_def unat_word_ariths unat_of_nat)
  show ?thesis
    using assms b by (simp add: slots_def vd_contains_def word_le_nat_alt word_less_nat_alt)
      (simp add: VIRTIO_MMIO_BASE_def)
qed

lemma windows_disjoint:
  assumes "slots devs" "i < length devs" "j < length devs" "length devs \<le> 1000"
    "vd_contains (devs ! i) ipa" "vd_contains (devs ! j) ipa"
  shows "i = j"
proof (rule ccontr)
  assume "i \<noteq> j"
  then consider "Suc i \<le> j" | "Suc j \<le> i" by linarith
  then show False
    using assms(5,6) unfolding window_iff [OF assms(1,2,4)] window_iff [OF assms(1,3,4)] by cases simp_all
qed

lemma window_not_uart:
  assumes "slots devs" "i < length devs" "length devs \<le> 1000" "vd_contains (devs ! i) ipa"
  shows "\<not> in_uart ipa"
proof -
  have "0xc000000 \<le> unat ipa"
    using assms(4) unfolding window_iff [OF assms(1-3)] by (simp add: VIRTIO_MMIO_BASE_def)
  then show ?thesis by (simp add: in_uart_def PL011_BASE_def PL011_SIZE_def word_less_nat_alt)
qed

lemma find_dev_slot:
  assumes "slots devs" "i < length devs" "length devs \<le> 1000" "vd_contains (devs ! i) ipa"
  shows "find_dev ipa devs = Some i"
proof (cases "find_dev ipa devs")
  case None
  with assms(2,4) show ?thesis by (auto simp: find_dev_None)
next
  case (Some j)
  from find_dev_Some [OF this] windows_disjoint [OF assms(1) assms(2) _ assms(3,4)] show ?thesis
    using Some by auto
qed


section \<open>Building\<close>

text \<open>The order of the devices: disks, entropy, network, vsock, balloon.\<close>

definition boot_plan :: "nat \<Rightarrow> bool \<Rightarrow> bool \<Rightarrow> u32 list" where
  "boot_plan disks net vsock =
     replicate disks 2 @ [4] @ (if net then [1] else []) @ (if vsock then [19] else [])"

lemma open_disks_ok:
  "\<lbrakk>open_disks E H ps devs = Inr devs'; devs_ok H devs\<rbrakk> \<Longrightarrow>
     devs_ok H devs' \<and> slot_ids devs' = slot_ids devs @ replicate (length ps) 2"
proof (induction E H ps devs rule: open_disks.induct)
  case (2 E H path w rest devs)
  then obtain b where b: "blk_open_with (env_file E path) w (env_var E ''AMBER_DISK_BPS'') (env_now E) = Inr b"
    by (auto split: sum.splits)
  then have "open_disks E H rest (push_dev H devs (DBlk b)) = Inr devs'" "devs_ok H (push_dev H devs (DBlk b))"
    using "2.prems" by (simp_all add: devs_ok_push)
  from "2.IH" [OF b this] show ?case by simp
qed simp

lemma open_disks_exists:
  "\<forall>p \<in> set ps. env_file E (fst p) \<noteq> None \<Longrightarrow> \<exists>devs'. open_disks E H ps devs = Inr devs'"
proof (induction E H ps devs rule: open_disks.induct)
  case (2 E H path w rest devs)
  then obtain img where "env_file E path = Some img" by auto
  with 2 show ?case by (auto simp: blk_open_with_def)
qed simp

lemma prepare_devices_ok:
  assumes "prepare_devices E H cfg net = Inr devs"
  shows "devs_ok H devs \<and>
     slot_ids devs = boot_plan ((if cfg_disk cfg = None then 0 else 1) + length (cfg_data_disks cfg)) (net \<noteq> None)
       (Option.bind (cfg_vsock cfg) (env_bind E) \<noteq> None)"
proof -
  let ?ps = "(case cfg_disk cfg of None \<Rightarrow> [] | Some p \<Rightarrow> [(p, False)]) @ cfg_data_disks cfg"
  have len: "length ?ps = (if cfg_disk cfg = None then 0 else 1) + length (cfg_data_disks cfg)"
    by (simp split: option.split)
  obtain devs0 where d: "open_disks E H ?ps [] = Inr devs0"
    using assms by (auto simp: prepare_devices_def split: sum.splits)
  from open_disks_ok [OF d] have "devs_ok H devs0" "slot_ids devs0 = replicate (length ?ps) 2" by simp_all
  with assms d show ?thesis
    unfolding prepare_devices_def d len
    by (auto simp: push_rng_def push_net_def push_vsock_def Let_def boot_plan_def
        intro!: devs_ok_push split: if_splits option.splits)
qed

lemma restore_devices_ok:
  assumes "restore_devices E H meta net vs = Inr devs"
  shows "devs_ok H devs \<and>
     slot_ids devs = boot_plan (if meta_disk meta = None then 0 else 1) (meta_net meta) (meta_vsock meta)"
proof -
  let ?ps = "case meta_disk meta of None \<Rightarrow> [] | Some p \<Rightarrow> [(p, False)]"
  have len: "length ?ps = (if meta_disk meta = None then 0 else 1)" by (simp split: option.split)
  obtain devs0 where d: "open_disks E H ?ps [] = Inr devs0"
    using assms by (auto simp: restore_devices_def split: sum.splits)
  from open_disks_ok [OF d] have "devs_ok H devs0" "slot_ids devs0 = replicate (length ?ps) 2" by simp_all
  with assms d show ?thesis
    unfolding restore_devices_def d len
    by (auto simp: push_rng_def push_net_def push_vsock_def boot_plan_def
        intro!: devs_ok_push split: if_splits option.splits)
qed

lemma restore_devices_exists:
  assumes "\<forall>p. meta_disk meta = Some p \<longrightarrow> env_file E p \<noteq> None" "env_urandom E"
    "meta_net meta \<Longrightarrow> net \<noteq> None" "meta_vsock meta \<Longrightarrow> Option.bind vs (env_bind E) \<noteq> None"
  shows "\<exists>devs. restore_devices E H meta net vs = Inr devs"
proof -
  obtain devs0 where "open_disks E H (case meta_disk meta of None \<Rightarrow> [] | Some p \<Rightarrow> [(p, False)]) [] = Inr devs0"
    using open_disks_exists [of "case meta_disk meta of None \<Rightarrow> [] | Some p \<Rightarrow> [(p, False)]" E H "[]"] assms(1)
    by (auto split: option.splits)
  with assms show ?thesis
    by (cases vs) (auto simp: restore_devices_def push_rng_def split: option.splits)
qed

lemma push_balloon_ok:
  assumes "push_balloon H devs = (devs', bl)" "devs_ok H devs"
  shows "devs_ok H devs'" "slot_ids devs' = slot_ids devs @ [5]" "fst bl < length devs'"
  using assms by (auto simp: push_balloon_def devs_ok_push)

text \<open>What a built machine is: good devices in their slots, the balloon last.\<close>

definition vm_built :: "('nb, 'vb, 's) vm_host \<Rightarrow> ('nb, 'vb, 's) vm \<Rightarrow> bool" where
  "vm_built H vm \<longleftrightarrow> devs_ok H (v_virtio vm) \<and> 1 \<le> v_vcpus vm \<and> v_vcpus vm \<le> 8 \<and>
     fst (v_balloon vm) < length (v_virtio vm)"

lemma vm_built_ok: "vm_built H vm \<Longrightarrow> vm_ok H vm"
  by (simp add: vm_built_def devs_ok_def vm_ok_def)

lemma load_shape:
  "load_kernel ram img = Inr (ram', entry) \<Longrightarrow> base ram' = base ram \<and> length (mem ram') = length (mem ram)"
  "load_initramfs ram ird = Inr (ram', r) \<Longrightarrow> base ram' = base ram \<and> length (mem ram') = length (mem ram)"
proof -
  show "base ram' = base ram \<and> length (mem ram') = length (mem ram)"
    if "load_kernel ram img = Inr (ram', entry)"
    using load_kernel_Inr(4) [OF that] by (simp add: changes_only_def)
  show "base ram' = base ram \<and> length (mem ram') = length (mem ram)"
    if "load_initramfs ram ird = Inr (ram', r)"
  proof (cases ird)
    case None
    with that show ?thesis by (simp add: load_initramfs_def)
  next
    case (Some data)
    from load_initramfs_Inr [OF that [unfolded Some]] show ?thesis by (auto simp: changes_only_def)
  qed
qed

lemma prepare_built:
  assumes "prepare E H cfg net = Inr vm"
  shows "vm_built H vm" "v_restore vm = None" "v_disk_path vm = cfg_disk cfg" "v_paused vm = False"
    "slot_ids (v_virtio vm) =
       boot_plan ((if cfg_disk cfg = None then 0 else 1) + length (cfg_data_disks cfg)) (net \<noteq> None)
         (Option.bind (cfg_vsock cfg) (env_bind E) \<noteq> None) @ [5]"
    "base (v_mem vm) = RAM_BASE" "length (mem (v_mem vm)) = cfg_mem_size cfg"
    "v_vcpus vm = max 1 (min (cfg_vcpus cfg) 8)" "v_snapshot vm = cfg_snapshot cfg"
    "v_control_fd vm = cfg_control_fd cfg" "v_dtb_addr vm = RAM_BASE + DTB_OFFSET"
proof -
  obtain ram ram1 entry ram2 ird devs devs' bl where
    p: "guest_memory_new (env_mmap E) RAM_BASE (cfg_mem_size cfg) = Inr ram"
      "load_kernel ram (cfg_kernel cfg) = Inr (ram1, entry)" "load_initramfs ram1 (cfg_initrd cfg) = Inr (ram2, ird)"
      "prepare_devices E H cfg net = Inr devs" "push_balloon H devs = (devs', bl)"
    and vm: "v_virtio vm = devs'" "v_balloon vm = bl" "v_vcpus vm = max 1 (min (cfg_vcpus cfg) 8)"
      "v_mem vm = ram2" "v_restore vm = None" "v_disk_path vm = cfg_disk cfg" "v_paused vm = False"
      "v_snapshot vm = cfg_snapshot cfg" "v_control_fd vm = cfg_control_fd cfg" "v_dtb_addr vm = base ram2 + DTB_OFFSET"
    using assms by (auto simp: prepare_def Let_def split: sum.splits prod.splits)
  note d = prepare_devices_ok [OF p(4)]
  note b = push_balloon_ok [OF p(5) conjunct1 [OF d]]
  show "vm_built H vm" "v_restore vm = None" "v_disk_path vm = cfg_disk cfg" "v_paused vm = False"
    "v_vcpus vm = max 1 (min (cfg_vcpus cfg) 8)" "v_snapshot vm = cfg_snapshot cfg"
    "v_control_fd vm = cfg_control_fd cfg"
    using b vm by (simp_all add: vm_built_def)
  show "slot_ids (v_virtio vm) =
       boot_plan ((if cfg_disk cfg = None then 0 else 1) + length (cfg_data_disks cfg)) (net \<noteq> None)
         (Option.bind (cfg_vsock cfg) (env_bind E) \<noteq> None) @ [5]"
    using b(2) d vm(1) by simp
  show "base (v_mem vm) = RAM_BASE" "length (mem (v_mem vm)) = cfg_mem_size cfg"
    "v_dtb_addr vm = RAM_BASE + DTB_OFFSET"
    using load_shape(1) [OF p(2)] load_shape(2) [OF p(3)] p(1) vm(4,10)
    by (auto simp: guest_memory_new_def split: if_splits)
qed

lemma restore_from_built:
  assumes "restore_from E H sd fs dir net vs = Inr vm"
  obtains ld where "vm_built H vm" "snapshot_read sd fs dir = Inr ld" "v_restore vm = Some ld"
    "slot_ids (v_virtio vm) =
       boot_plan (if meta_disk (ld_meta ld) = None then 0 else 1) (meta_net (ld_meta ld)) (meta_vsock (ld_meta ld)) @ [5]"
    "length (v_virtio vm) = length (ds_virtio (ld_dev ld))"
proof -
  obtain ld ram devs devs' bl where
    p: "snapshot_read sd fs dir = Inr ld" "restore_devices E H (ld_meta ld) net vs = Inr devs"
      "push_balloon H devs = (devs', bl)"
    and vm: "v_virtio vm = devs'" "v_balloon vm = bl" "v_vcpus vm = max 1 (min (meta_vcpus (ld_meta ld)) 8)"
      "v_restore vm = Some ld" "length devs' = length (ds_virtio (ld_dev ld))"
    using assms by (auto simp: restore_from_def Let_def split: sum.splits prod.splits if_splits)
  note d = restore_devices_ok [OF p(2)]
  note b = push_balloon_ok [OF p(3) conjunct1 [OF d]]
  show thesis
    by (rule that [of ld]) (use b d p vm in \<open>simp_all add: vm_built_def\<close>)
qed


section \<open>Starting\<close>

lemma vdev_step_mmio [simp]: "dev m = dev (vd_mmio v) \<Longrightarrow> vdev_step v (v\<lparr>vd_mmio := m\<rparr>)"
  by (simp add: vdev_step_def)

lemma devs_ok_step:
  "\<lbrakk>devs_ok H ds; list_all2 vdev_step ds ds'; list_all (vdev_good H) ds'\<rbrakk> \<Longrightarrow> devs_ok H ds'"
  using slots_step by (auto simp: devs_ok_def)

lemma dev_restore [simp]: "dev (restore s m) = dev m"
  by (simp add: restore_def)

lemma restore_zip_step: "list_all2 vdev_step ds (restore_zip ds ss)"
  by (induction ds ss rule: restore_zip.induct) simp_all

lemma restore_zip_good: "list_all (vdev_good H) ds \<Longrightarrow> list_all (vdev_good H) (restore_zip ds ss)"
  by (induction ds ss rule: restore_zip.induct) (auto simp: vdev_good_def intro: mmio_ok_restore)

lemma attach_all_step:
  "list_all2 vdev_step ds (map (\<lambda>d. d\<lparr>vd_mmio := attach (vd_mmio d)\<rparr>) ds)"
  "list_all (vdev_good H) ds \<Longrightarrow> list_all (vdev_good H) (map (\<lambda>d. d\<lparr>vd_mmio := attach (vd_mmio d)\<rparr>) ds)"
  by (auto simp: list_all2_conv_all_nth attach_def list_all_iff vdev_good_def mmio_ok_def)

lemma vm_built_step:
  assumes "vm_built H vm" "vm_step vm vm'" "vm_ok H vm'"
  shows "vm_built H vm'"
proof -
  have "v_balloon vm' = v_balloon vm" using assms(2) by (cases vm; cases vm') (simp add: vm_step_def)
  moreover have "length (v_virtio vm') = length (v_virtio vm)"
    using assms(2) by (auto simp: vm_step_def list_all2_lengthD)
  moreover have "devs_ok H (v_virtio vm')"
    by (rule devs_ok_step [of H "v_virtio vm"]) (use assms in \<open>simp_all add: vm_built_def vm_step_def vm_ok_def\<close>)
  ultimately show ?thesis using assms(1) vm_step_vcpus [OF assms(2)] by (simp add: vm_built_def)
qed

lemma attach_all_ok: "vm_ok H vm \<Longrightarrow> vm_ok H (attach_all vm) \<and> vm_step vm (attach_all vm)"
  using attach_all_step(1) [of "v_virtio vm"] attach_all_step(2) [of H "v_virtio vm"]
  by (simp add: attach_all_def vm_ok_def vm_step_def)

lemma start_restored_ok:
  assumes "start_restored hv h ld vm = Inr (vm', h')" "vm_ok H vm"
  shows "vm_ok H vm' \<and> vm_step vm vm'"
  using assms restore_zip_step [of "v_virtio vm" "ds_virtio (ld_dev ld)"]
    restore_zip_good [of H "v_virtio vm" "ds_virtio (ld_dev ld)"]
  by (auto simp: start_restored_def vm_ok_def vm_step_def split: if_splits sum.splits)

lemma start_boot_ok:
  assumes "start_boot hv fin h seed vm = Inr (vm', h')" "vm_ok H vm"
  shows "vm_ok H vm' \<and> vm_step vm vm'"
proof -
  obtain blob ram where w: "guest_memory_write (v_mem vm) (v_dtb_addr vm) blob = Inr ram" "vm' = vm\<lparr>v_mem := ram\<rparr>"
    using assms(1) by (auto simp: start_boot_def split: sum.splits option.splits)
  then have "changes_only UNIV (v_mem vm) ram"
    by (auto simp: guest_memory_write_eq split: if_splits intro: changes_only_put)
  with w assms(2) show ?thesis by (simp add: vm_step_mem)
qed

lemma start_vm_ok:
  assumes "start_vm hv fin lockdown seed vm = Inr (vm', h')" "vm_ok H vm"
  shows "vm_ok H vm' \<and> vm_step vm vm'"
proof -
  note a = attach_all_ok [OF assms(2)]
  obtain h vm2 where s: "(case v_restore (attach_all vm) of
        Some ld \<Rightarrow> start_restored hv h ld (attach_all vm)
      | None \<Rightarrow> start_boot hv fin h seed (attach_all vm)) = Inr (vm2, h')"
    and e: "vm_step vm2 vm'" "vm_ok H vm' = vm_ok H vm2"
    using assms(1) by (auto simp: start_vm_def Let_def split: sum.splits if_splits option.splits)
  have "vm_ok H vm2 \<and> vm_step (attach_all vm) vm2"
    using s a start_restored_ok start_boot_ok by (fastforce split: option.splits)
  with a have "vm_ok H vm2 \<and> vm_step vm vm2" using vm_step_trans by blast
  with e show ?thesis using vm_step_trans by blast
qed

end
