(* ===== verification/Machine_Props.thy ===== *)
theory Machine_Props
  imports Build_Laws "HOL-Library.Countable"
begin

text \<open>
  Properties of the machine: routing of accesses, the invariant of every reachable machine and the
  quiesce protocol of a snapshot.
\<close>

section \<open>A machine to evaluate\<close>

definition demo_env :: "unit vm_env" where
  "demo_env = \<lparr>env_mmap = True, env_file = (\<lambda>_. Some []), env_urandom = True, env_bind = (\<lambda>_. None),
               env_var = (\<lambda>_. None), env_now = 0\<rparr>"

definition demo_image :: bytes where
  "demo_image = replicate 8 0 @ [0, 16] @ replicate 46 0 @ [0x41, 0x52, 0x4d, 0x64] @ replicate 4 0"

definition demo_cfg :: vm_config where
  "demo_cfg = vm_config_default\<lparr>cfg_mem_size := 0x200000, cfg_vcpus := 2, cfg_kernel := demo_image,
     cfg_snapshot := Some \<lparr>sr_after = 0, sr_dir = ''snap'', sr_marker = None\<rparr>, cfg_control_fd := Some 3\<rparr>"

definition demo_cpu :: cpu_snapshot where
  "demo_cpu = \<lparr>cs_x = [], cs_pc = 0, cs_cpsr = 0, cs_fpcr = 0, cs_fpsr = 0, vtimer_offset = 0, mono = 0,
               sysregs = [], cs_fp = [], kvm_regs = []\<rparr>"

definition demo_hv :: "unit hv_ops" where
  "demo_hv =
     \<lparr>hv_create = (\<lambda>_ _. Inr ()), hv_create_vcpu = (\<lambda>_ _. Inr ()), hv_gic = (\<lambda>_. None),
      hv_set_irq = (\<lambda>_ _ _. Inr ()), hv_capture_gic = (\<lambda>_. Inr [1]), hv_restore_gic = (\<lambda>_ _. Inr ()),
      hv_set_yield = (\<lambda>_ _. ()), hv_kick = (\<lambda>_. ()), hv_request_stop = (\<lambda>_. ()),
      vc_apply_template = (\<lambda>_ _ _. Inr ()), vc_set_boot = (\<lambda>_ _ _ _. Inr ()),
      vc_run = (\<lambda>_ _ ram. ((), ram, Inr Idle)), vc_complete_read = (\<lambda>_ _ _. Inr ()),
      vc_advance = (\<lambda>_ _. Inr ()), vc_timer_ns = (\<lambda>_ _. Inr None), vc_capture = (\<lambda>_ _. Inr demo_cpu),
      vc_restore = (\<lambda>_ _ _. Inr ())\<rparr>"

definition demo_fs :: snap_fs where
  "demo_fs = \<lparr>mkdir_err = False, put_err = (\<lambda>_. None), get_err = (\<lambda>_. False)\<rparr>"

text \<open>An encoding: unary over a numbering of the captured data.\<close>

definition unary :: "nat \<Rightarrow> bytes option" where
  "unary n = Some (replicate n 0)"

definition demo_serde :: serde where
  "demo_serde =
     \<lparr>meta_to = (\<lambda>m. unary (to_nat (mem_base m, meta_mem_size m, meta_disk m, meta_gic_kind m, meta_net m,
                   meta_vsock m, meta_vcpus m))),
      meta_from = (\<lambda>bs. case from_nat (length bs) of (a, b, c, d, e, f, g) \<Rightarrow>
                   Some \<lparr>mem_base = a, meta_mem_size = b, meta_disk = c, meta_gic_kind = d, meta_net = e,
                         meta_vsock = f, meta_vcpus = g\<rparr>),
      cpu_to = (\<lambda>c. unary (to_nat (cs_x c, cs_pc c, cs_cpsr c, cs_fpcr c, cs_fpsr c, vtimer_offset c, mono c,
                   sysregs c, cs_fp c, kvm_regs c))),
      cpu_from = (\<lambda>bs. case from_nat (length bs) of (a, b, c, d, e, f, g, h, i, j) \<Rightarrow>
                   Some \<lparr>cs_x = a, cs_pc = b, cs_cpsr = c, cs_fpcr = d, cs_fpsr = e, vtimer_offset = f,
                         mono = g, sysregs = h, cs_fp = i, kvm_regs = j\<rparr>),
      dev_to = (\<lambda>d. unary (to_nat (ds_pl011 d,
                   map (\<lambda>v. (ds_status v, ds_interrupt_status v, ds_queues v)) (ds_virtio d)))),
      dev_from = (\<lambda>bs. case from_nat (length bs) of (a, b) \<Rightarrow>
                   Some \<lparr>ds_pl011 = a,
                         ds_virtio = map (\<lambda>(s, i, q). \<lparr>ds_status = s, ds_interrupt_status = i, ds_queues = q\<rparr>) b\<rparr>)\<rparr>"

lemma dev_state_eta [simp]:
  "map (\<lambda>x. \<lparr>ds_status = ds_status x, ds_interrupt_status = ds_interrupt_status x, ds_queues = ds_queues x\<rparr>) vs = vs"
  by (rule map_idI) simp

lemma demo_ok: "serde_ok demo_serde" "fs_quiet demo_fs" "hv_ok demo_hv"
  by (auto simp: serde_ok_def demo_serde_def unary_def fs_quiet_def demo_fs_def hv_ok_def demo_hv_def o_def)

text \<open>Its boot succeeds, for every host behind the devices.\<close>

lemma demo_prepare_disks: "\<exists>vm. prepare demo_env H (demo_cfg\<lparr>cfg_data_disks := ds\<rparr>) None = Inr vm"
proof -
  have len: "length demo_image = 64" by (simp add: demo_image_def)
  have hdr: "from_le (bslice 0x38 4 demo_image) = ARM64_MAGIC" "from_le (bslice 8 8 demo_image) = (0x1000 :: u64)"
    by code_simp+
  obtain devs where "open_disks demo_env H ds [] = Inr devs"
    using open_disks_exists [of ds demo_env H "[]"] by (auto simp: demo_env_def)
  then show ?thesis
    by (simp add: prepare_def demo_cfg_def vm_config_default_def guest_memory_new_def load_kernel_def
        len hdr guest_memory_write_eq load_initramfs_def prepare_devices_def push_rng_def push_balloon_def
        in_range_iff RAM_BASE_def Let_def) (simp add: demo_env_def)
qed

lemma demo_prepare: "\<exists>vm. prepare demo_env H demo_cfg None = Inr vm"
proof -
  have "demo_cfg\<lparr>cfg_data_disks := []\<rparr> = demo_cfg" by (simp add: demo_cfg_def vm_config_default_def)
  then show ?thesis using demo_prepare_disks [of H "[]"] by simp
qed

lemma demo_start:
  assumes "prepare demo_env H demo_cfg None = Inr vm"
  shows "\<exists>vm' h'. start_vm demo_hv (\<lambda>_. Some []) (\<lambda>_. True) [] vm = Inr (vm', h')"
proof -
  note p = prepare_built [OF assms]
  have r: "v_restore (attach_all vm) = None" "v_mem (attach_all vm) = v_mem vm" "v_dtb_addr (attach_all vm) = v_dtb_addr vm"
    using p(2) by (simp_all add: attach_all_def)
  have "in_range (v_mem vm) (v_dtb_addr vm) 0"
    using p by (simp add: in_range_iff RAM_BASE_def DTB_OFFSET_def demo_cfg_def)
  then show ?thesis
    using r by (auto simp: start_vm_def demo_hv_def start_boot_def dtb_build_def guest_memory_write_eq Let_def
        split: option.splits)
qed

text \<open>A schedule: which thread moves next.  Running one is reaching its end.\<close>

datatype act = Primary rat bool | Secondary nat | Console nat | Control | Kicker rat

fun act_step ::
  "'h hv_ops \<Rightarrow> serde \<Rightarrow> snap_fs \<Rightarrow> act \<Rightarrow> ('nb, 'vb, 's, 'h) machine \<Rightarrow> ('nb, 'vb, 's, 'h) machine option" where
  "act_step hv sd fs (Primary t late) m = map_option fst (primary_step hv sd fs t late m)"
| "act_step hv sd fs (Secondary i) m =
     (if 1 \<le> i \<and> i < v_vcpus (m_vm m) then Some (fst (secondary_step hv i m)) else None)"
| "act_step hv sd fs (Console n) m = Some (console_step hv n m)"
| "act_step hv sd fs Control m = Some (control_step hv m)"
| "act_step hv sd fs (Kicker t) m = Some (kicker_step hv t m)"

fun run_acts ::
  "'h hv_ops \<Rightarrow> serde \<Rightarrow> snap_fs \<Rightarrow> act list \<Rightarrow> ('nb, 'vb, 's, 'h) machine \<Rightarrow> ('nb, 'vb, 's, 'h) machine option" where
  "run_acts hv sd fs [] m = Some m"
| "run_acts hv sd fs (a # as) m = Option.bind (act_step hv sd fs a m) (run_acts hv sd fs as)"

lemma act_step_mstep: "act_step hv sd fs a m = Some m' \<Longrightarrow> mstep hv sd fs m m'"
proof -
  have "mstep hv sd fs m (fst (secondary_step hv i m))" if "1 \<le> i" "i < v_vcpus (m_vm m)" for i
    by (rule mstep.secondary [OF that, where nap = "snd (secondary_step hv i m)"]) simp
  then show "act_step hv sd fs a m = Some m' \<Longrightarrow> mstep hv sd fs m m'"
    by (cases a) (auto split: if_splits intro: mstep.intros)
qed

lemma run_acts_mreach: "run_acts hv sd fs as m = Some m' \<Longrightarrow> mreach hv sd fs m m'"
  unfolding mreach_def
proof (induction "as" arbitrary: m)
  case (Cons a "as")
  then obtain m1 where "act_step hv sd fs a m = Some m1" "run_acts hv sd fs as m1 = Some m'"
    by (auto simp: Option.bind_eq_Some_conv)
  with Cons.IH act_step_mstep show ?case by (metis converse_rtranclp_into_rtranclp)
qed simp



section \<open>Properties\<close>

text \<open>C4. Routing of guest accesses: an access in the console's window touches the console only; an
  access in a device's window is served by that device alone, whose transport sees the offset in the
  window and which may change RAM, every other device and the console being as before; anywhere else
  a write changes nothing and a read completes with 0.\<close>

theorem dispatch_routes:
  assumes "slots (v_virtio vm)" "length (v_virtio vm) \<le> 1000"
    and "dispatch_mmio hv h cpu acc vm = (vm', r)"
  shows "(in_uart (ma_ipa acc) \<longrightarrow> vm' = vm\<lparr>v_pl011 := fst (serve_uart hv h cpu acc (v_pl011 vm))\<rparr>) \<and>
     (\<forall>i < length (v_virtio vm). vd_contains (v_virtio vm ! i) (ma_ipa acc) \<longrightarrow>
        (\<exists>d ram s. serve_virtio hv h cpu acc (v_mem vm) (v_virtio vm ! i) = (d, ram, s) \<and>
           vm' = vm\<lparr>v_virtio := (v_virtio vm)[i := d], v_mem := ram\<rparr> \<and>
           r = (case s of Inl e \<Rightarrow> Inl e
                | Inr (h', t) \<Rightarrow> (case vc_advance hv h' cpu of Inl e \<Rightarrow> Inl e | Inr h'' \<Rightarrow> Inr (h'', t))))) \<and>
     (\<not> in_uart (ma_ipa acc) \<and> (\<forall>d \<in> set (v_virtio vm). \<not> vd_contains d (ma_ipa acc)) \<longrightarrow>
        vm' = vm \<and>
        r = (case (if ma_write acc = None then vc_complete_read hv h cpu 0 else Inr h) of
               Inl e \<Rightarrow> Inl e
             | Inr h' \<Rightarrow> (case vc_advance hv h' cpu of Inl e \<Rightarrow> Inl e | Inr h'' \<Rightarrow> Inr (h'', None))))"
proof (intro conjI impI allI)
  assume "in_uart (ma_ipa acc)"
  then show "vm' = vm\<lparr>v_pl011 := fst (serve_uart hv h cpu acc (v_pl011 vm))\<rparr>"
    using assms(3) by (auto simp: dispatch_mmio_def Let_def split: prod.splits)
next
  fix i
  assume i: "i < length (v_virtio vm)" "vd_contains (v_virtio vm ! i) (ma_ipa acc)"
  obtain d ram s where s: "serve_virtio hv h cpu acc (v_mem vm) (v_virtio vm ! i) = (d, ram, s)"
    by (metis prod_cases3)
  with assms(3) find_dev_slot [OF assms(1) i(1) assms(2) i(2)] window_not_uart [OF assms(1) i(1) assms(2) i(2)]
  show "\<exists>d ram s. serve_virtio hv h cpu acc (v_mem vm) (v_virtio vm ! i) = (d, ram, s) \<and>
           vm' = vm\<lparr>v_virtio := (v_virtio vm)[i := d], v_mem := ram\<rparr> \<and>
           r = (case s of Inl e \<Rightarrow> Inl e
                | Inr (h', t) \<Rightarrow> (case vc_advance hv h' cpu of Inl e \<Rightarrow> Inl e | Inr h'' \<Rightarrow> Inr (h'', t)))"
    by (auto simp: dispatch_mmio_def Let_def)
next
  assume u: "\<not> in_uart (ma_ipa acc) \<and> (\<forall>d \<in> set (v_virtio vm). \<not> vd_contains d (ma_ipa acc))"
  then have "find_dev (ma_ipa acc) (v_virtio vm) = None" by (simp add: find_dev_None)
  with u assms(3) show "vm' = vm"
    "r = (case (if ma_write acc = None then vc_complete_read hv h cpu 0 else Inr h) of
            Inl e \<Rightarrow> Inl e
          | Inr h' \<Rightarrow> (case vc_advance hv h' cpu of Inl e \<Rightarrow> Inl e | Inr h'' \<Rightarrow> Inr (h'', None)))"
    by (auto simp: dispatch_mmio_def Let_def split: option.splits sum.splits)
qed

theorem dispatch_routes_witness:
  "\<forall>H :: (unit, unit, unit) vm_host. \<exists>vm. prepare demo_env H demo_cfg None = Inr vm \<and>
     fst (dispatch_mmio demo_hv () 0 \<lparr>ma_ipa = 0x20000000, ma_size = 4, ma_write = Some 5\<rparr> vm) = vm"
proof
  fix H :: "(unit, unit, unit) vm_host"
  obtain vm where p: "prepare demo_env H demo_cfg None = Inr vm" using demo_prepare by blast
  note b = prepare_built(1,5) [OF p]
  have n: "length (v_virtio vm) = 2"
    using arg_cong [OF b(2), of length] by (simp add: boot_plan_def demo_cfg_def vm_config_default_def)
  have sl: "slots (v_virtio vm)" using b(1) by (simp add: vm_built_def devs_ok_def)
  let ?acc = "\<lparr>ma_ipa = 0x20000000, ma_size = 4, ma_write = Some 5\<rparr> :: mmio_access"
  have "\<not> vd_contains d 0x20000000" if "d \<in> set (v_virtio vm)" for d
    using that window_iff [OF sl] n by (auto simp: in_set_conv_nth VIRTIO_MMIO_BASE_def less_2_cases_iff)
  moreover have "\<not> in_uart 0x20000000" by (simp add: in_uart_def PL011_BASE_def PL011_SIZE_def)
  moreover obtain vm' r where d: "dispatch_mmio demo_hv () 0 ?acc vm = (vm', r)" by fastforce
  ultimately have "fst (dispatch_mmio demo_hv () 0 ?acc vm) = vm"
    using dispatch_routes [OF sl _ d] n by simp
  with p show "\<exists>vm. prepare demo_env H demo_cfg None = Inr vm \<and> fst (dispatch_mmio demo_hv () 0 ?acc vm) = vm"
    by blast
qed

text \<open>C2. Every machine reachable from a boot keeps its shape: however the vcpus, the readers and the
  receive pump interleave, each device stays in its slot of the bus, of its kind, with its own and its
  transport's invariant; RAM stays where and as large as configured; a vcpu whose registers have been
  deposited for a snapshot is not in the guest.\<close>

theorem machine_reachable_ok:
  assumes "hv_ok hv" "prepare E H cfg net = Inr vm0"
    and "start_vm hv fin lockdown seed vm0 = Inr (vm1, h)"
    and "mreach hv sd fs (machine_init vm1 h ctl inp dir) m"
  shows "devs_ok H (v_virtio (m_vm m)) \<and>
     slot_ids (v_virtio (m_vm m)) =
       boot_plan ((if cfg_disk cfg = None then 0 else 1) + length (cfg_data_disks cfg)) (net \<noteq> None)
         (Option.bind (cfg_vsock cfg) (env_bind E) \<noteq> None) @ [5] \<and>
     base (v_mem (m_vm m)) = RAM_BASE \<and> length (mem (v_mem (m_vm m))) = cfg_mem_size cfg \<and>
     (\<forall>k < length (m_states m). m_states m ! k \<noteq> None \<longrightarrow> m_sec m ! k = SLoop \<or> m_sec m ! k = SDone)"
proof -
  note p = prepare_built [OF assms(2)]
  note s = start_vm_ok [OF assms(3) vm_built_ok [OF p(1)]]
  have ok: "machine_ok H vm1 m"
    by (rule mreach_ok [OF assms(4) _ assms(1)]) (rule machine_init_ok [OF conjunct1 [OF s]])
  then have st: "vm_step vm0 (m_vm m)" using s vm_step_trans by (auto simp: machine_ok_def)
  then have "vm_built H (m_vm m)" using vm_built_step [OF p(1)] ok by (simp add: machine_ok_def)
  moreover have "slot_ids (v_virtio (m_vm m)) = slot_ids (v_virtio vm0)"
    using st by (simp add: vm_step_def slot_ids_step)
  moreover have "base (v_mem (m_vm m)) = base (v_mem vm0) \<and> length (mem (v_mem (m_vm m))) = length (mem (v_mem vm0))"
    using st by (simp add: vm_step_def changes_only_def)
  ultimately show ?thesis using p ok by (auto simp: vm_built_def machine_ok_def protocol_ok_def)
qed

theorem machine_reachable_ok_witness:
  "\<forall>H :: (unit, unit, unit) vm_host. \<exists>vm0 vm1 h m. prepare demo_env H demo_cfg None = Inr vm0 \<and>
     start_vm demo_hv (\<lambda>_. Some []) (\<lambda>_. True) [] vm0 = Inr (vm1, h) \<and>
     m = control_step demo_hv (machine_init vm1 h (Some [2]) [] Map.empty) \<and> m_pause m \<and>
     slot_ids (v_virtio (m_vm m)) = [4, 5]"
proof
  fix H :: "(unit, unit, unit) vm_host"
  obtain vm0 where p: "prepare demo_env H demo_cfg None = Inr vm0" using demo_prepare by blast
  obtain vm1 h where s: "start_vm demo_hv (\<lambda>_. Some []) (\<lambda>_. True) [] vm0 = Inr (vm1, h)"
    using demo_start [OF p] by blast
  have "v_control_fd vm1 = v_control_fd vm0"
    using start_vm_ok [OF s vm_built_ok [OF prepare_built(1) [OF p]]] by (cases vm0; cases vm1) (simp add: vm_step_def)
  then have fd: "v_control_fd vm1 = Some 3" using prepare_built(10) [OF p] by (simp add: demo_cfg_def)
  let ?start = "machine_init vm1 h (Some [2]) [] Map.empty"
  let ?m = "control_step demo_hv ?start"
  have "mreach demo_hv demo_serde demo_fs ?start ?m" by (rule run_acts_mreach [of _ _ _ "[Control]"]) simp
  from machine_reachable_ok [OF demo_ok(3) p s this]
  have "slot_ids (v_virtio (m_vm ?m)) = [4, 5]" by (simp add: boot_plan_def demo_cfg_def vm_config_default_def)
  moreover have "m_pause ?m"
    using fd by (simp add: control_step_def control_frame_def machine_init_def PAUSE_def BALLOON_def)
  ultimately show "\<exists>vm0 vm1 h m. prepare demo_env H demo_cfg None = Inr vm0 \<and>
     start_vm demo_hv (\<lambda>_. Some []) (\<lambda>_. True) [] vm0 = Inr (vm1, h) \<and>
     m = control_step demo_hv (machine_init vm1 h (Some [2]) [] Map.empty) \<and> m_pause m \<and>
     slot_ids (v_virtio (m_vm m)) = [4, 5]"
    using p s by blast
qed

text \<open>Only the primary, at its snapshot point, touches the snapshot directory.\<close>

lemma dir_stop [simp]: "m_dir (stop_primary hv r x) = m_dir x" "m_dir (stop_all hv x) = m_dir x"
  by (simp_all add: stop_primary_def stop_all_def)

lemma dir_threads:
  "m_dir (fst (primary_exit hv x)) = m_dir x" "m_dir (fst (secondary_step hv i x)) = m_dir x"
  "m_dir (console_step hv n x) = m_dir x" "m_dir (control_step hv x) = m_dir x" "m_dir (kicker_step hv t x) = m_dir x"
  by (simp_all add: primary_exit_def secondary_step_def secondary_start_def deposit_def secondary_exit_def
      set_sec_def console_step_def control_step_def control_frame_def kicker_step_def Let_def
      split: prod.split sum.split vm_exit.split secondary.split option.split list.split)

lemma dir_step:
  assumes "mstep hv sd fs m m'" "m_dir m' \<noteq> m_dir m"
  shows "\<exists>t late nap. primary_step hv sd fs t late m = Some (m', nap)"
  using assms(1)
proof cases
  case (secondary i nap)
  with dir_threads(2) [of hv i m] assms(2) show ?thesis by simp
qed (use assms(2) in \<open>auto simp: dir_threads\<close>)

text \<open>C3. A snapshot is written only of a quiesced machine: whenever a step of a running machine touches
  the snapshot directory, every secondary vcpu has deposited its registers and none is in the guest,
  and what is written is the capture of the primary followed by all the deposits, one per vcpu.\<close>

theorem snapshot_quiesced:
  assumes "hv_ok hv" "vm_built H vm" "mreach hv sd fs (machine_init vm h ctl inp dir) m"
    and "mstep hv sd fs m m'" "m_dir m' \<noteq> m_dir m"
  shows "(\<exists>c h' vm'. fst (write_snapshot hv sd fs h' (m_dir m) vm' (c # map the (m_states m))) = m_dir m' \<and>
       length (c # map the (m_states m)) = v_vcpus (m_vm m) \<and>
       (1 < v_vcpus (m_vm m) \<longrightarrow> m_primary m = PQuiesce c \<and> h' = m_h m \<and> vm' = m_vm m)) \<and>
     (\<forall>k < length (m_sec m). m_states m ! k \<noteq> None \<and> (m_sec m ! k = SLoop \<or> m_sec m ! k = SDone))"
proof -
  have ok: "machine_ok H vm m"
    by (rule mreach_ok [OF assms(3) _ assms(1)]) (rule machine_init_ok [OF vm_built_ok [OF assms(2)]])
  then have pr: "protocol_ok (v_vcpus (m_vm m)) (m_running m) (m_primary m) (m_want m) (m_states m) (m_sec m)"
    and vc: "1 \<le> v_vcpus (m_vm m)"
    using assms(2) vm_step_vcpus by (fastforce simp: machine_ok_def vm_built_def)+
  obtain t late nap where st: "primary_step hv sd fs t late m = Some (m', nap)"
    using dir_step [OF assms(4,5)] by blast
  have wr: "m_dir (write_and_stop hv sd fs cpus x) = fst (write_snapshot hv sd fs (m_h x) (m_dir x) (m_vm x) cpus)"
    for cpus x by (simp add: write_and_stop_def split: prod.split)
  show ?thesis
  proof (cases "m_primary m")
    case (PQuiesce c)
    with st assms(5) have "None \<notin> set (m_states m)" "m' = write_and_stop hv sd fs (c # map the (m_states m)) m"
      by (auto simp: primary_step_def quiesce_step_def split: if_splits)
    with pr vc PQuiesce show ?thesis
      by (intro conjI exI [of _ c] exI [of _ "m_h m"] exI [of _ "m_vm m"])
        (auto simp: wr protocol_ok_def in_set_conv_nth)
  next
    case PGate
    then obtain devs ram r where p: "\<not> m_pause m"
      "pump_devs hv (m_h m) (v_mem (m_vm m)) (v_virtio (m_vm m)) = Some (devs, ram, r)"
      using st assms(5) by (auto simp: primary_step_def split: if_splits option.splits)
    show ?thesis
    proof (cases r)
      case (Inl e)
      with st p PGate assms(5) show ?thesis by (auto simp: primary_step_def)
    next
      case (Inr h1)
      let ?m1 = "m\<lparr>m_vm := (m_vm m)\<lparr>v_virtio := devs, v_mem := ram\<rparr>, m_h := h1\<rparr>"
      have "m' = begin_capture hv sd fs ?m1"
        using st p PGate Inr assms(5) dir_threads(1) [of hv ?m1] by (auto simp: primary_step_def Let_def split: option.splits if_splits)
      with assms(5) obtain c where "m' = write_and_stop hv sd fs [c] ?m1" "\<not> 1 < v_vcpus (m_vm m)"
        by (auto simp: begin_capture_def split: sum.splits if_splits)
      with pr vc show ?thesis
        by (intro conjI exI [of _ c] exI [of _ h1] exI [of _ "m_vm ?m1"]) (auto simp: wr protocol_ok_def)
    qed
  qed (use st assms(5) in \<open>auto simp: primary_step_def split: if_splits\<close>)
qed

text \<open>Devices without a receive queue are not pumped.\<close>

lemma pump_devs_idle:
  "list_all (\<lambda>d. op_rx_queue (vd_ops d) = None) ds \<Longrightarrow> pump_devs hv h ram ds = Some (ds, ram, Inr h)"
  by (induction ds) (simp_all add: pump_rx_def)

lemma no_rx_queue:
  assumes "vdev_good H v" "op_device_id (vd_ops v) \<noteq> 1" "op_device_id (vd_ops v) \<noteq> 19"
  shows "op_rx_queue (vd_ops v) = None"
  using assms vdev_goodD(1) [OF assms(1)]
  by (cases "dev (vd_mmio v)")
    (simp_all add: device_ops_def lift_ops_def blk_ops_def rng_ops_def balloon_ops_def net_ops_def vsock_ops_def
      virtio_default_ops_def)

lemma demo_started:
  obtains vm0 vm1 h where "prepare demo_env H demo_cfg None = Inr vm0"
    "start_vm demo_hv (\<lambda>_. Some []) (\<lambda>_. True) [] vm0 = Inr (vm1, h)" "vm_built H vm1"
    "v_vcpus vm1 = 2" "v_snapshot vm1 = cfg_snapshot demo_cfg" "v_control_fd vm1 = Some 3"
    "list_all (\<lambda>d. op_rx_queue (vd_ops d) = None) (v_virtio vm1)" "v_restore vm1 = None" "v_cpu_template vm1 = v_cpu_template vm0"
proof -
  obtain vm0 where p: "prepare demo_env H demo_cfg None = Inr vm0" using demo_prepare by blast
  obtain vm1 h where s: "start_vm demo_hv (\<lambda>_. Some []) (\<lambda>_. True) [] vm0 = Inr (vm1, h)"
    using demo_start [OF p] by blast
  note b = prepare_built [OF p]
  note st = start_vm_ok [OF s vm_built_ok [OF b(1)]]
  have eq: "v_vcpus vm1 = v_vcpus vm0" "v_snapshot vm1 = v_snapshot vm0" "v_control_fd vm1 = v_control_fd vm0"
    "v_restore vm1 = v_restore vm0" "v_cpu_template vm1 = v_cpu_template vm0"
    using st by (cases vm0; cases vm1; simp add: vm_step_def)+
  have built: "vm_built H vm1" using vm_built_step [OF b(1)] st by blast
  have ids: "slot_ids (v_virtio vm1) = [4, 5]"
    using slot_ids_step [of "v_virtio vm0" "v_virtio vm1"] st b(5)
    by (simp add: vm_step_def boot_plan_def demo_cfg_def vm_config_default_def)
  have "op_rx_queue (vd_ops d) = None" if "d \<in> set (v_virtio vm1)" for d
  proof (rule no_rx_queue)
    show "vdev_good H d" using built that by (auto simp: vm_built_def devs_ok_def list_all_iff)
    have "op_device_id (vd_ops d) \<in> set (slot_ids (v_virtio vm1))" using that by (simp add: slot_ids_def)
    then show "op_device_id (vd_ops d) \<noteq> 1" "op_device_id (vd_ops d) \<noteq> 19" by (auto simp: ids)
  qed
  then have idle: "list_all (\<lambda>d. op_rx_queue (vd_ops d) = None) (v_virtio vm1)" by (simp add: list_all_iff)
  show thesis
    by (rule that [OF p s built _ _ _ idle]) (use eq b in \<open>simp_all add: demo_cfg_def\<close>)
qed

theorem snapshot_quiesced_witness:
  "\<forall>H :: (unit, unit, unit) vm_host. \<exists>vm m m'. vm_built H vm \<and> v_vcpus vm = 2 \<and>
     run_acts demo_hv demo_serde demo_fs [Primary 0 False, Primary 0 False, Secondary 1, Secondary 1]
       (machine_init vm () None [] Map.empty) = Some m \<and>
     act_step demo_hv demo_serde demo_fs (Primary 0 False) m = Some m' \<and>
     m_dir m' \<noteq> m_dir m \<and> m_states m ! 0 \<noteq> None \<and> (m_sec m ! 0 = SLoop \<or> m_sec m ! 0 = SDone)"
proof
  fix H :: "(unit, unit, unit) vm_host"
  obtain vm0 vm where v: "prepare demo_env H demo_cfg None = Inr vm0" "vm_built H vm" "v_vcpus vm = 2"
    "v_snapshot vm = cfg_snapshot demo_cfg"
    "list_all (\<lambda>d. op_rx_queue (vd_ops d) = None) (v_virtio vm)" "v_restore vm = None"
    "v_cpu_template vm = v_cpu_template vm0"
    by (rule demo_started [of H]) (rule that)
  have "v_cpu_template vm0 = None"
    using v(1) by (auto simp: prepare_def Let_def demo_cfg_def vm_config_default_def split: sum.splits prod.splits)
  then have t: "cpu_tmpl vm = None" using v(7) by (simp add: cpu_tmpl_def)
  let ?start = "machine_init vm () None [] Map.empty"
  define m where "m = ?start\<lparr>m_want := True, m_primary := PQuiesce demo_cpu, m_states := [Some demo_cpu], m_sec := [SLoop]\<rparr>"
  have hv: "vc_capture demo_hv h i = Inr demo_cpu" "hv_create_vcpu demo_hv h i = Inr ()"
    "hv_capture_gic demo_hv h = Inr [1]" "hv_gic demo_hv h = None" for h i
    by (simp_all add: demo_hv_def)
  have run: "run_acts demo_hv demo_serde demo_fs [Primary 0 False, Primary 0 False, Secondary 1, Secondary 1]
       ?start = Some m"
    using v t
    by (simp add: pump_devs_idle Let_def machine_init_def primary_step_def begin_capture_def snapshot_due_def demo_cfg_def
        secondary_step_def secondary_start_def deposit_def set_sec_def m_def hv)
  let ?w = "write_and_stop demo_hv demo_serde demo_fs [demo_cpu, demo_cpu] m"
  have act: "act_step demo_hv demo_serde demo_fs (Primary 0 False) m = Some ?w"
    by (simp add: primary_step_def quiesce_step_def m_def)
  obtain dir' where w: "snapshot_write demo_serde demo_fs (m_dir m) (v_mem (m_vm m)) [demo_cpu, demo_cpu] [1]
        (v_disk_path (m_vm m)) None (capture_devices (m_vm m)) (has_device 1 (m_vm m)) (has_device 19 (m_vm m)) =
      (dir', Inr ())" "dir' ''mem.bin'' = Some (mem (v_mem (m_vm m)))"
    by (rule snapshot_write_files [OF demo_ok(1,2)]) (rule that)
  have "m_dir ?w ''mem.bin'' = Some (mem (v_mem (m_vm m)))"
    using w by (simp add: write_and_stop_def write_snapshot_def hv)
  then have ne: "m_dir ?w \<noteq> m_dir m" by (auto simp: m_def machine_init_def)
  from snapshot_quiesced [OF demo_ok(3) v(2) run_acts_mreach [OF run] act_step_mstep [OF act] ne]
  have "m_states m ! 0 \<noteq> None \<and> (m_sec m ! 0 = SLoop \<or> m_sec m ! 0 = SDone)"
    by (simp add: m_def)
  with v run act ne show "\<exists>vm m m'. vm_built H vm \<and> v_vcpus vm = 2 \<and>
     run_acts demo_hv demo_serde demo_fs [Primary 0 False, Primary 0 False, Secondary 1, Secondary 1]
       (machine_init vm () None [] Map.empty) = Some m \<and>
     act_step demo_hv demo_serde demo_fs (Primary 0 False) m = Some m' \<and>
     m_dir m' \<noteq> m_dir m \<and> m_states m ! 0 \<noteq> None \<and> (m_sec m ! 0 = SLoop \<or> m_sec m ! 0 = SDone)"
    by blast
qed

end
