(* ===== verification/Fork_Props.thy ===== *)
theory Fork_Props
  imports Machine_Props
begin

text \<open>
  Forking: a snapshot of a running machine, restored into a new process with new host backends, is
  that machine again.  And what a snapshot does not carry, or a control channel leaves behind.
\<close>

section \<open>Restored transports\<close>

lemma num_queues_id:
  "op_device_id (device_ops H d) = op_device_id (device_ops H' d') \<Longrightarrow>
     op_num_queues (device_ops H d) = op_num_queues (device_ops H' d')"
  by (cases d; cases d')
    (simp_all add: device_ops_def lift_ops_def blk_ops_def rng_ops_def balloon_ops_def net_ops_def vsock_ops_def
      virtio_default_ops_def)

lemma capture_restore:
  fixes v w :: "('nb, 'vb, 's) device virtio_dev"
  assumes "vdev_good H v" "vdev_good H' w" "op_device_id (vd_ops v) = op_device_id (vd_ops w)"
  shows "capture (restore (capture (vd_mmio v)) (vd_mmio w)) = capture (vd_mmio v)"
proof -
  have "op_num_queues (vd_ops w) = op_num_queues (vd_ops v)"
    using num_queues_id [of H "dev (vd_mmio v)" H' "dev (vd_mmio w)"] assms by (simp add: vdev_good_def)
  then have "mmio_ok (vd_ops v) (vd_mmio w)" using assms(2) by (simp add: vdev_good_def mmio_ok_def)
  moreover have "mmio_ok (vd_ops v) (vd_mmio v)" using assms(1) unfolding vdev_good_def by blast
  ultimately show ?thesis by (rule virtio_snap.cap_res [rotated])
qed

lemma restore_zip_capture:
  fixes ds ds' :: "('nb, 'vb, 's) vdevs"
  shows "\<lbrakk>list_all (vdev_good H) ds; list_all (vdev_good H') ds'; slot_ids ds' = slot_ids ds\<rbrakk> \<Longrightarrow>
     map (\<lambda>d. capture (vd_mmio d)) (restore_zip ds' (map (\<lambda>d. capture (vd_mmio d)) ds)) =
     map (\<lambda>d. capture (vd_mmio d)) ds"
proof (induction ds arbitrary: ds')
  case Nil
  then show ?case by (cases ds') (simp_all add: slot_ids_def)
next
  case (Cons v ds)
  then obtain w ws where ds': "ds' = w # ws" by (cases ds') (simp_all add: slot_ids_def)
  with Cons capture_restore [of H v H' w] show ?case by (simp add: slot_ids_def)
qed

lemma restore_uart_words [simp]: "uart_words (restore_uart (uart_words u) u') = uart_words u"
  by (simp add: uart_words_def restore_uart_def regs_def set_regs_def)

lemma has_device_ids: "has_device k vm \<longleftrightarrow> k \<in> set (slot_ids (v_virtio vm))"
  by (auto simp: has_device_def slot_ids_def list_ex_iff)

text \<open>The plan is read back from the device identifiers.\<close>

lemma boot_plan_ids [simp]:
  "1 \<in> set (boot_plan n net vs) \<longleftrightarrow> net" "19 \<in> set (boot_plan n net vs) \<longleftrightarrow> vs"
  by (auto simp: boot_plan_def)

lemma length_boot_plan [simp]:
  "length (boot_plan n net vs) = n + 1 + (if net then 1 else 0) + (if vs then 1 else 0)"
  by (simp add: boot_plan_def)

lemma restore_from_written:
  assumes ok: "serde_ok sd" "fs_quiet fs"
    and vm: "slot_ids (v_virtio vm) = boot_plan (if v_disk_path vm = None then 0 else 1) net vs @ [5]"
      "1 \<le> v_vcpus vm" "v_vcpus vm \<le> 8" "length cpus = v_vcpus vm"
    and w: "write_snapshot hv sd fs h dir vm cpus = (dir', Inr ())"
    and env: "env_mmap E" "env_urandom E" "\<forall>p. v_disk_path vm = Some p \<longrightarrow> env_file E p \<noteq> None"
      "net \<Longrightarrow> nb \<noteq> None" "vs \<Longrightarrow> Option.bind path (env_bind E) \<noteq> None"
  obtains vm' ld gic where "restore_from E H sd fs dir' nb path = Inr vm'" "v_mem vm' = v_mem vm"
    "v_vcpus vm' = v_vcpus vm" "slot_ids (v_virtio vm') = slot_ids (v_virtio vm)" "vm_built H vm'"
    "v_restore vm' = Some ld" "hv_capture_gic hv h = Inr gic" "ld_gic ld = gic" "ld_cpu ld = hd cpus"
    "ld_cpus ld = tl cpus" "ld_dev ld = capture_devices vm"
    "meta_gic_kind (ld_meta ld) = map_option (gic_kind_str \<circ> kind) (hv_gic hv h)"
proof -
  obtain gic where g: "hv_capture_gic hv h = Inr gic" using w by (auto simp: write_snapshot_def split: sum.splits)
  let ?meta = "write_meta (v_mem vm) cpus (v_disk_path vm) (map_option kind (hv_gic hv h)) net vs"
  let ?ld = "\<lparr>ld_meta = ?meta, ld_cpu = hd cpus, ld_cpus = tl cpus, ld_gic = gic, ld_dev = capture_devices vm\<rparr>"
  have dev: "has_device 1 vm = net" "has_device 19 vm = vs"
    unfolding has_device_ids vm(1) by simp_all
  have ne: "cpus \<noteq> []" using vm(2,4) by auto
  have w': "snapshot_write sd fs dir (v_mem vm) cpus gic (v_disk_path vm) (map_option kind (hv_gic hv h))
      (capture_devices vm) net vs = (dir', Inr ())"
    using w g dev by (simp add: write_snapshot_def)
  note r = snapshot_read_written [OF ok ne w']
  obtain devs where d: "restore_devices E H ?meta nb path = Inr devs"
    using restore_devices_exists [of ?meta E nb path H] env by (auto simp: write_meta_def)
  obtain devs' bl where b: "push_balloon H devs = (devs', bl)" by (cases "push_balloon H devs")
  have ids: "slot_ids devs' = slot_ids (v_virtio vm)"
    using push_balloon_ok(2) [OF b] restore_devices_ok [OF d] vm(1) by (simp add: write_meta_def)
  have "length devs' = length (ds_virtio (capture_devices vm))"
    using arg_cong [OF ids, of length] by (simp add: capture_devices_def)
  then have rf: "\<exists>vm'. restore_from E H sd fs dir' nb path = Inr vm' \<and> v_mem vm' = v_mem vm \<and>
      v_vcpus vm' = v_vcpus vm \<and> v_virtio vm' = devs' \<and> v_restore vm' = Some ?ld"
    using r d b env(1) vm(2-4)
    by (simp add: restore_from_def from_snapshot_cow_def write_meta_def)
  then obtain vm' where v: "restore_from E H sd fs dir' nb path = Inr vm'" "v_mem vm' = v_mem vm"
      "v_vcpus vm' = v_vcpus vm" "v_virtio vm' = devs'" "v_restore vm' = Some ?ld" by blast
  show thesis
    by (rule that [of vm' ?ld gic])
      (use v ids g restore_from_built [OF v(1)] in \<open>auto simp: write_meta_def option.map_comp\<close>)
qed


section \<open>Properties\<close>

text \<open>C1. Fork fidelity: take any machine reachable from a boot with at most a root disk, and write its
  snapshot with one captured state per vcpu.  In any later process that can map the snapshot, reopen
  the disk and supply the backends the machine had, restoring succeeds; the fork has the same RAM, the
  same number of vcpus and the same devices in the same slots; and once a backend of the same GIC kind
  has accepted the captured interrupt controller and registers, every transport and the console have
  the captured register state.\<close>

theorem fork_fidelity:
  fixes H H' :: "('nb, 'vb, 's) vm_host"
  assumes "serde_ok sd" "fs_quiet fs" "hv_ok hv"
    and "prepare E H cfg net = Inr vm0" "cfg_data_disks cfg = []"
    and "start_vm hv fin lockdown seed vm0 = Inr (vm1, h1)"
    and "mreach hv sd fs (machine_init vm1 h1 ctl inp dir0) m"
    and "length cpus = v_vcpus (m_vm m)" "write_snapshot hv sd fs h dir (m_vm m) cpus = (dir', Inr ())"
    and "env_mmap E'" "env_urandom E'" "\<forall>p. cfg_disk cfg = Some p \<longrightarrow> env_file E' p \<noteq> None"
    and "net \<noteq> None \<longrightarrow> nb \<noteq> None"
    and "Option.bind (cfg_vsock cfg) (env_bind E) \<noteq> None \<longrightarrow> Option.bind path (env_bind E') \<noteq> None"
  shows "\<exists>vm' ld. restore_from E' H' sd fs dir' nb path = Inr vm' \<and> v_restore vm' = Some ld \<and>
     v_mem vm' = v_mem (m_vm m) \<and> v_vcpus vm' = v_vcpus (m_vm m) \<and>
     slot_ids (v_virtio vm') = slot_ids (v_virtio (m_vm m)) \<and>
     ld_cpu ld # ld_cpus ld = cpus \<and> hv_capture_gic hv h = Inr (ld_gic ld) \<and>
     (\<forall>hv' h' h2. map_option kind (hv_gic hv' h') = map_option kind (hv_gic hv h) \<longrightarrow>
        hv_restore_gic hv' h' (ld_gic ld) = Inr h2 \<longrightarrow> (\<forall>h3. vc_restore hv' h2 0 (ld_cpu ld) = Inr h3 \<longrightarrow>
          (\<exists>vm2. start_restored hv' h' ld (attach_all vm') = Inr (vm2, h3) \<and>
             capture_devices vm2 = capture_devices (m_vm m) \<and> v_mem vm2 = v_mem (m_vm m))))"
proof -
  note p = prepare_built [OF assms(4)]
  note s = start_vm_ok [OF assms(6) vm_built_ok [OF p(1)]]
  have mok: "machine_ok H vm1 m"
    by (rule mreach_ok [OF assms(7) _ assms(3)]) (rule machine_init_ok [OF conjunct1 [OF s]])
  then have st: "vm_step vm0 (m_vm m)" and good: "list_all (vdev_good H) (v_virtio (m_vm m))"
    using s vm_step_trans by (auto simp: machine_ok_def vm_ok_def)
  have same: "v_disk_path (m_vm m) = cfg_disk cfg" "v_vcpus (m_vm m) = v_vcpus vm0"
    using st p(3) vm_step_vcpus [OF st] by (cases vm0; cases "m_vm m"; simp add: vm_step_def)+
  let ?vs = "Option.bind (cfg_vsock cfg) (env_bind E) \<noteq> None"
  have ids: "slot_ids (v_virtio (m_vm m)) =
      boot_plan (if v_disk_path (m_vm m) = None then 0 else 1) (net \<noteq> None) ?vs @ [5]"
    using slot_ids_step [of "v_virtio vm0" "v_virtio (m_vm m)"] st p(5) assms(5) same by (simp add: vm_step_def)
  have vc: "1 \<le> v_vcpus (m_vm m)" "v_vcpus (m_vm m) \<le> 8" using p(1) same by (simp_all add: vm_built_def)
  obtain vm' ld gic where r: "restore_from E' H' sd fs dir' nb path = Inr vm'" "v_mem vm' = v_mem (m_vm m)"
    "v_vcpus vm' = v_vcpus (m_vm m)" "slot_ids (v_virtio vm') = slot_ids (v_virtio (m_vm m))" "vm_built H' vm'"
    "v_restore vm' = Some ld" "hv_capture_gic hv h = Inr gic" "ld_gic ld = gic" "ld_cpu ld = hd cpus"
    "ld_cpus ld = tl cpus" "ld_dev ld = capture_devices (m_vm m)"
    "meta_gic_kind (ld_meta ld) = map_option (gic_kind_str \<circ> kind) (hv_gic hv h)"
    by (rule restore_from_written [OF assms(1,2) ids vc assms(8,9), of E' nb path H'])
      (use assms same in auto)
  have start: "\<exists>vm2. start_restored hv' h' ld (attach_all vm') = Inr (vm2, h3) \<and>
      capture_devices vm2 = capture_devices (m_vm m) \<and> v_mem vm2 = v_mem (m_vm m)"
    if "map_option kind (hv_gic hv' h') = map_option kind (hv_gic hv h)"
      "hv_restore_gic hv' h' (ld_gic ld) = Inr h2" "vc_restore hv' h2 0 (ld_cpu ld) = Inr h3" for hv' h' h2 h3
  proof -
    have gic: "\<not> gic_mismatch hv' h' (ld_meta ld)"
      using that(1) r(12) by (auto simp: gic_mismatch_def split: option.splits)
    have "list_all (vdev_good H') (v_virtio (attach_all vm'))"
      using attach_all_ok [of H' vm'] vm_built_ok [OF r(5)] by (simp add: vm_ok_def)
    moreover have "slot_ids (v_virtio (attach_all vm')) = slot_ids (v_virtio (m_vm m))"
      using r(4) by (simp add: attach_all_def slot_ids_def o_def)
    ultimately have "map (\<lambda>d. capture (vd_mmio d)) (restore_zip (v_virtio (attach_all vm'))
        (map (\<lambda>d. capture (vd_mmio d)) (v_virtio (m_vm m)))) = map (\<lambda>d. capture (vd_mmio d)) (v_virtio (m_vm m))"
      by (rule restore_zip_capture [OF good])
    with gic that(2,3) r(2,11) show ?thesis
      by (simp add: start_restored_def capture_devices_def) (simp add: attach_all_def)
  qed
  have "ld_cpu ld # ld_cpus ld = cpus" using r(9,10) assms(8) vc(1) by (cases cpus) auto
  with r show ?thesis
    by (intro exI [of _ vm'] exI [of _ ld] conjI allI impI start) simp_all
qed

theorem fork_fidelity_witness:
  "\<forall>H :: (unit, unit, unit) vm_host. \<exists>vm0 vm1 h1 dir' vm'. prepare demo_env H demo_cfg None = Inr vm0 \<and>
     start_vm demo_hv (\<lambda>_. Some []) (\<lambda>_. True) [] vm0 = Inr (vm1, h1) \<and>
     write_snapshot demo_hv demo_serde demo_fs () Map.empty vm1 [demo_cpu, demo_cpu] = (dir', Inr ()) \<and>
     restore_from demo_env H demo_serde demo_fs dir' None None = Inr vm' \<and> v_mem vm' = v_mem vm1 \<and>
     v_vcpus vm' = 2"
proof
  fix H :: "(unit, unit, unit) vm_host"
  obtain vm0 vm1 h1 where v: "prepare demo_env H demo_cfg None = Inr vm0"
    "start_vm demo_hv (\<lambda>_. Some []) (\<lambda>_. True) [] vm0 = Inr (vm1, h1)" "v_vcpus vm1 = 2"
    by (rule demo_started [of H]) (rule that)
  obtain dir' where "snapshot_write demo_serde demo_fs Map.empty (v_mem vm1) [demo_cpu, demo_cpu] [1]
        (v_disk_path vm1) None (capture_devices vm1) (has_device 1 vm1) (has_device 19 vm1) = (dir', Inr ())"
    by (rule snapshot_write_files [OF demo_ok(1,2)]) (rule that)
  then have w: "write_snapshot demo_hv demo_serde demo_fs () Map.empty vm1 [demo_cpu, demo_cpu] = (dir', Inr ())"
    by (simp add: write_snapshot_def demo_hv_def)
  let ?start = "machine_init vm1 h1 None [] Map.empty"
  have vm: "m_vm ?start = vm1" by (simp add: machine_init_def)
  have refl: "mreach demo_hv demo_serde demo_fs ?start ?start" by (simp add: mreach_def)
  have cfg: "cfg_data_disks demo_cfg = []" "cfg_disk demo_cfg = None" "cfg_vsock demo_cfg = None"
    "env_mmap demo_env" "env_urandom demo_env"
    by (simp_all add: demo_cfg_def vm_config_default_def demo_env_def)
  have "\<exists>vm'. restore_from demo_env H demo_serde demo_fs dir' None None = Inr vm' \<and> v_mem vm' = v_mem vm1 \<and>
      v_vcpus vm' = 2"
    using fork_fidelity [OF demo_ok v(1) cfg(1) v(2) refl, of "[demo_cpu, demo_cpu]" "()" Map.empty dir' demo_env None None H]
      v(3) w cfg vm by auto
  with v w show "\<exists>vm0 vm1 h1 dir' vm'. prepare demo_env H demo_cfg None = Inr vm0 \<and>
     start_vm demo_hv (\<lambda>_. Some []) (\<lambda>_. True) [] vm0 = Inr (vm1, h1) \<and>
     write_snapshot demo_hv demo_serde demo_fs () Map.empty vm1 [demo_cpu, demo_cpu] = (dir', Inr ()) \<and>
     restore_from demo_env H demo_serde demo_fs dir' None None = Inr vm' \<and> v_mem vm' = v_mem vm1 \<and>
     v_vcpus vm' = 2" by blast
qed

text \<open>C5. A machine with data disks snapshots but does not restore: the snapshot names only the root
  disk, so the rebuilt device set is shorter than the captured one and the restore is refused, in
  every environment.\<close>

theorem data_disks_unrestorable:
  assumes "serde_ok sd" "fs_quiet fs" "prepare E H cfg net = Inr vm0" "cfg_data_disks cfg \<noteq> []"
    and "vm_step vm0 vm" "cpus \<noteq> []" "write_snapshot hv sd fs h dir vm cpus = (dir', Inr ())"
  shows "\<exists>e. restore_from E' H' sd fs dir' nb path = Inl e"
proof (rule ccontr)
  assume "\<nexists>e. restore_from E' H' sd fs dir' nb path = Inl e"
  then obtain vm' where r: "restore_from E' H' sd fs dir' nb path = Inr vm'"
    by (cases "restore_from E' H' sd fs dir' nb path") auto
  obtain gic where g: "hv_capture_gic hv h = Inr gic" using assms(7) by (auto simp: write_snapshot_def split: sum.splits)
  have w: "snapshot_write sd fs dir (v_mem vm) cpus gic (v_disk_path vm) (map_option kind (hv_gic hv h))
      (capture_devices vm) (has_device 1 vm) (has_device 19 vm) = (dir', Inr ())"
    using assms(7) g by (simp add: write_snapshot_def)
  note rd = snapshot_read_written(1) [OF assms(1,2,6) w]
  note p = prepare_built [OF assms(3)]
  have dk: "v_disk_path vm = cfg_disk cfg"
    using assms(5) p(3) by (cases vm0; cases vm) (simp add: vm_step_def)
  have ids: "slot_ids (v_virtio vm) = slot_ids (v_virtio vm0)"
    using assms(5) by (simp add: vm_step_def slot_ids_step)
  have dev: "has_device 1 vm \<longleftrightarrow> net \<noteq> None"
      "has_device 19 vm \<longleftrightarrow> Option.bind (cfg_vsock cfg) (env_bind E) \<noteq> None"
    unfolding has_device_ids ids p(5) by simp_all
  obtain ld where ld: "snapshot_read sd fs dir' = Inr ld"
    "slot_ids (v_virtio vm') = boot_plan (if meta_disk (ld_meta ld) = None then 0 else 1)
       (meta_net (ld_meta ld)) (meta_vsock (ld_meta ld)) @ [5]"
    "length (v_virtio vm') = length (ds_virtio (ld_dev ld))"
    by (rule restore_from_built [OF r]) (rule that)
  have "length (v_virtio vm') = length (v_virtio vm)"
    using ld(1,3) rd by (auto simp: capture_devices_def)
  then have "length (slot_ids (v_virtio vm')) = length (slot_ids (v_virtio vm0))" using ids by (metis length_slot_ids)
  moreover have "meta_disk (ld_meta ld) = cfg_disk cfg" "meta_net (ld_meta ld) = (net \<noteq> None)"
    "meta_vsock (ld_meta ld) = (Option.bind (cfg_vsock cfg) (env_bind E) \<noteq> None)"
    using ld(1) rd dk dev by (auto simp: write_meta_def)
  ultimately show False using assms(4) unfolding ld(2) p(5) by simp
qed

theorem data_disks_unrestorable_witness:
  "\<forall>H :: (unit, unit, unit) vm_host. \<exists>vm dir' e. prepare demo_env H (demo_cfg\<lparr>cfg_data_disks := [(''d'', True)]\<rparr>) None = Inr vm \<and>
     write_snapshot demo_hv demo_serde demo_fs () Map.empty vm [demo_cpu] = (dir', Inr ()) \<and>
     restore_from demo_env H demo_serde demo_fs dir' None None = Inl e"
proof
  fix H :: "(unit, unit, unit) vm_host"
  obtain vm where p: "prepare demo_env H (demo_cfg\<lparr>cfg_data_disks := [(''d'', True)]\<rparr>) None = Inr vm"
    using demo_prepare_disks by blast
  obtain dir' where "snapshot_write demo_serde demo_fs Map.empty (v_mem vm) [demo_cpu] [1]
        (v_disk_path vm) None (capture_devices vm) (has_device 1 vm) (has_device 19 vm) = (dir', Inr ())"
    by (rule snapshot_write_files [OF demo_ok(1,2)]) (rule that)
  then have w: "write_snapshot demo_hv demo_serde demo_fs () Map.empty vm [demo_cpu] = (dir', Inr ())"
    by (simp add: write_snapshot_def demo_hv_def)
  from data_disks_unrestorable [OF demo_ok(1,2) p _ vm_step_refl _ w, of demo_env H None None] p w
  show "\<exists>vm dir' e. prepare demo_env H (demo_cfg\<lparr>cfg_data_disks := [(''d'', True)]\<rparr>) None = Inr vm \<and>
     write_snapshot demo_hv demo_serde demo_fs () Map.empty vm [demo_cpu] = (dir', Inr ()) \<and>
     restore_from demo_env H demo_serde demo_fs dir' None None = Inl e" by auto
qed


section \<open>The control channel\<close>

text \<open>At a closed gate with no reader left, no thread lets the primary through.\<close>

definition gate_stuck :: "('nb, 'vb, 's, 'h) machine \<Rightarrow> bool" where
  "gate_stuck m \<longleftrightarrow> m_primary m = PGate \<and> m_pause m \<and> m_control m = None \<and> \<not> m_running m"

lemma gate_stuck_step:
  assumes "mstep hv sd fs m m'" "gate_stuck m"
  shows "gate_stuck m'"
  using assms(1)
proof cases
  case (primary elapsed late nap)
  with assms(2) show ?thesis by (simp add: gate_stuck_def primary_step_def)
next
  case (secondary i nap)
  have "gate_stuck (fst (secondary_step hv i m))"
    using assms(2)
    by (simp add: gate_stuck_def secondary_step_def secondary_start_def secondary_exit_def deposit_def set_sec_def
        stop_all_def Let_def split: prod.split sum.split vm_exit.split secondary.split)
  with secondary show ?thesis by simp
qed (use assms(2) in \<open>auto simp: gate_stuck_def console_step_def control_step_def kicker_step_def
    split: option.splits\<close>)

text \<open>C6. A pause followed by the loss of the supervisor is for ever: with the primary vcpu at its gate,
  a PAUSE and then the end of the control channel stop the machine (\<open>running\<close> is false), but whatever
  the other threads do the primary stays at the closed gate, and \<open>run\<close> never returns.\<close>

theorem pause_then_close_hangs:
  assumes "m_primary m = PGate" "m_running m" "m_control m = Some [PAUSE]"
    and "mreach hv sd fs (control_step hv (control_step hv m)) m'"
  shows "m_primary m' = PGate \<and> \<not> m_running m'"
proof -
  have "gate_stuck (control_step hv (control_step hv m))"
    using assms(1-3) by (simp add: gate_stuck_def control_step_def control_frame_def PAUSE_def BALLOON_def)
  with assms(4) have "gate_stuck m'"
    unfolding mreach_def by (induction rule: rtranclp_induct) (auto intro: gate_stuck_step)
  then show ?thesis by (simp add: gate_stuck_def)
qed

theorem pause_then_close_hangs_witness:
  "\<forall>H :: (unit, unit, unit) vm_host. \<exists>vm m m'. vm_built H vm \<and>
     run_acts demo_hv demo_serde demo_fs [Primary 0 False] (machine_init vm () (Some [PAUSE]) [] Map.empty) = Some m \<and>
     run_acts demo_hv demo_serde demo_fs [Control, Control, Primary 1 True, Console 1] m = Some m' \<and>
     m_primary m' = PGate \<and> \<not> m_running m'"
proof
  fix H :: "(unit, unit, unit) vm_host"
  obtain vm where v: "vm_built H vm" "v_control_fd vm = Some 3" by (rule demo_started [of H]) (rule that)
  define m where "m = (machine_init vm () (Some [PAUSE]) [] Map.empty)\<lparr>m_primary := PGate\<rparr>"
  have r: "run_acts demo_hv demo_serde demo_fs [Primary 0 False] (machine_init vm () (Some [PAUSE]) [] Map.empty) = Some m"
    by (simp add: m_def machine_init_def primary_step_def)
  have m: "m_primary m = PGate" "m_running m" "m_control m = Some [PAUSE]"
    using v(2) by (simp_all add: m_def machine_init_def)
  let ?c = "control_step demo_hv (control_step demo_hv m)"
  have c: "m_primary ?c = PGate" "m_pause ?c"
    using m by (simp_all add: control_step_def control_frame_def PAUSE_def BALLOON_def)
  have run: "run_acts demo_hv demo_serde demo_fs [Primary 1 True, Console 1] ?c = Some (console_step demo_hv 1 ?c)"
    using c by (simp add: primary_step_def)
  from pause_then_close_hangs [OF m run_acts_mreach [OF run]]
  have "m_primary (console_step demo_hv 1 ?c) = PGate \<and> \<not> m_running (console_step demo_hv 1 ?c)" .
  with v r run show "\<exists>vm m m'. vm_built H vm \<and>
     run_acts demo_hv demo_serde demo_fs [Primary 0 False] (machine_init vm () (Some [PAUSE]) [] Map.empty) = Some m \<and>
     run_acts demo_hv demo_serde demo_fs [Control, Control, Primary 1 True, Console 1] m = Some m' \<and>
     m_primary m' = PGate \<and> \<not> m_running m'" by auto
qed

text \<open>A channel that closes inside a balloon frame ends the reader and leaves the machine running.\<close>

lemma truncated_frame_orphans:
  assumes "m_running m" "m_control m = Some (BALLOON # bs)" "length bs < 8"
  shows "control_step hv m = m\<lparr>m_control := None\<rparr>" "m_running (control_step hv m)"
  using assms by (simp_all add: control_step_def control_frame_def read_exact_fd_def)

end
