(* ===== verification/Hvf.thy ===== *)
theory Hvf
  imports Vm Gic
begin

text \<open>
  The Apple Silicon backend, \<open>amber-hvf/src/lib.rs\<close>: the power state of the vcpus (PSCI), the
  translation of raw exits, the software interrupt controller behind the guest's accesses, the
  virtual timer, capture and restore of a vcpu.  The Hypervisor framework is the record \<open>hvf\<close>, an
  argument: every call that may fail returns a sum (\<open>fw_gic_create\<close> stands for the configuration
  object, the creation and the query of the interrupt range).  A vcpu handle is its number.
\<close>

section \<open>The framework\<close>

datatype hvf_exit = ExceptionExit u64 u64 | VtimerExit | CanceledExit | OtherExit

record 's hvf =
  fw_vm_create :: "guest_ram \<Rightarrow> error + 's"
  fw_vcpu_create :: "'s \<Rightarrow> nat \<Rightarrow> error + 's"
  fw_get_reg :: "'s \<Rightarrow> nat \<Rightarrow> nat \<Rightarrow> error + u64"
  fw_set_reg :: "'s \<Rightarrow> nat \<Rightarrow> nat \<Rightarrow> u64 \<Rightarrow> error + 's"
  fw_get_sys :: "'s \<Rightarrow> nat \<Rightarrow> u16 \<Rightarrow> error + u64"
  fw_set_sys :: "'s \<Rightarrow> nat \<Rightarrow> u16 \<Rightarrow> u64 \<Rightarrow> error + 's"
  fw_get_fp :: "'s \<Rightarrow> nat \<Rightarrow> nat \<Rightarrow> bytes"
  fw_set_mask :: "'s \<Rightarrow> nat \<Rightarrow> bool \<Rightarrow> error + 's"
  fw_get_offset :: "'s \<Rightarrow> nat \<Rightarrow> error + u64"
  fw_set_offset :: "'s \<Rightarrow> nat \<Rightarrow> u64 \<Rightarrow> error + 's"
  fw_set_pending :: "'s \<Rightarrow> nat \<Rightarrow> error + 's"
  fw_run :: "'s \<Rightarrow> nat \<Rightarrow> guest_ram \<Rightarrow> error + 's \<times> guest_ram \<times> hvf_exit"
  fw_exit_all :: "'s \<Rightarrow> nat list \<Rightarrow> 's"
  fw_now :: "'s \<Rightarrow> u64"
  fw_timebase :: "u32 \<times> u32"
  fw_gic_sizes :: "'s \<Rightarrow> error + u64 \<times> u64 \<times> u64"
  fw_gic_create :: "'s \<Rightarrow> u64 \<Rightarrow> u64 \<Rightarrow> error + 's"
  fw_gic_spi :: "'s \<Rightarrow> u32 \<Rightarrow> bool \<Rightarrow> error + 's"
  fw_gic_get :: "'s \<Rightarrow> error + bytes"
  fw_gic_set :: "'s \<Rightarrow> bytes \<Rightarrow> error + 's"

definition HV_REG_X0 :: nat where "HV_REG_X0 = 0"
definition HV_REG_PC :: nat where "HV_REG_PC = 31"
definition HV_REG_FPCR :: nat where "HV_REG_FPCR = 32"
definition HV_REG_FPSR :: nat where "HV_REG_FPSR = 33"
definition HV_REG_CPSR :: nat where "HV_REG_CPSR = 34"
definition HV_SYS_REG_MPIDR_EL1 :: u16 where "HV_SYS_REG_MPIDR_EL1 = 0xc005"
definition HV_SYS_REG_CNTV_CTL_EL0 :: u16 where "HV_SYS_REG_CNTV_CTL_EL0 = 0xdf19"
definition HV_SYS_REG_CNTV_CVAL_EL0 :: u16 where "HV_SYS_REG_CNTV_CVAL_EL0 = 0xdf1a"
definition EC_HVC64 :: u64 where "EC_HVC64 = 0x16"
definition EC_MSR_TRAP :: u64 where "EC_MSR_TRAP = 0x18"
definition EC_WFX :: u64 where "EC_WFX = 0x01"
definition VTIMER_INTID :: nat where "VTIMER_INTID = 27"

definition SYS_REGS :: "(u16 \<times> string) list" where
  "SYS_REGS = [
    (0x8004, ''DBGBVR0_EL1''), (0x8005, ''DBGBCR0_EL1''), (0x8006, ''DBGWVR0_EL1''),
    (0x8007, ''DBGWCR0_EL1''), (0x800c, ''DBGBVR1_EL1''), (0x800d, ''DBGBCR1_EL1''),
    (0x800e, ''DBGWVR1_EL1''), (0x800f, ''DBGWCR1_EL1''), (0x8010, ''MDCCINT_EL1''),
    (0x8012, ''MDSCR_EL1''), (0x8014, ''DBGBVR2_EL1''), (0x8015, ''DBGBCR2_EL1''),
    (0x8016, ''DBGWVR2_EL1''), (0x8017, ''DBGWCR2_EL1''), (0x801c, ''DBGBVR3_EL1''),
    (0x801d, ''DBGBCR3_EL1''), (0x801e, ''DBGWVR3_EL1''), (0x801f, ''DBGWCR3_EL1''),
    (0x8024, ''DBGBVR4_EL1''), (0x8025, ''DBGBCR4_EL1''), (0x8026, ''DBGWVR4_EL1''),
    (0x8027, ''DBGWCR4_EL1''), (0x802c, ''DBGBVR5_EL1''), (0x802d, ''DBGBCR5_EL1''),
    (0x802e, ''DBGWVR5_EL1''), (0x802f, ''DBGWCR5_EL1''), (0x8034, ''DBGBVR6_EL1''),
    (0x8035, ''DBGBCR6_EL1''), (0x8036, ''DBGWVR6_EL1''), (0x8037, ''DBGWCR6_EL1''),
    (0x803c, ''DBGBVR7_EL1''), (0x803d, ''DBGBCR7_EL1''), (0x803e, ''DBGWVR7_EL1''),
    (0x803f, ''DBGWCR7_EL1''), (0x8044, ''DBGBVR8_EL1''), (0x8045, ''DBGBCR8_EL1''),
    (0x8046, ''DBGWVR8_EL1''), (0x8047, ''DBGWCR8_EL1''), (0x804c, ''DBGBVR9_EL1''),
    (0x804d, ''DBGBCR9_EL1''), (0x804e, ''DBGWVR9_EL1''), (0x804f, ''DBGWCR9_EL1''),
    (0x8054, ''DBGBVR10_EL1''), (0x8055, ''DBGBCR10_EL1''), (0x8056, ''DBGWVR10_EL1''),
    (0x8057, ''DBGWCR10_EL1''), (0x805c, ''DBGBVR11_EL1''), (0x805d, ''DBGBCR11_EL1''),
    (0x805e, ''DBGWVR11_EL1''), (0x805f, ''DBGWCR11_EL1''), (0x8064, ''DBGBVR12_EL1''),
    (0x8065, ''DBGBCR12_EL1''), (0x8066, ''DBGWVR12_EL1''), (0x8067, ''DBGWCR12_EL1''),
    (0x806c, ''DBGBVR13_EL1''), (0x806d, ''DBGBCR13_EL1''), (0x806e, ''DBGWVR13_EL1''),
    (0x806f, ''DBGWCR13_EL1''), (0x8074, ''DBGBVR14_EL1''), (0x8075, ''DBGBCR14_EL1''),
    (0x8076, ''DBGWVR14_EL1''), (0x8077, ''DBGWCR14_EL1''), (0x807c, ''DBGBVR15_EL1''),
    (0x807d, ''DBGBCR15_EL1''), (0x807e, ''DBGWVR15_EL1''), (0x807f, ''DBGWCR15_EL1''),
    (0xc000, ''MIDR_EL1''), (0xc005, ''MPIDR_EL1''), (0xc020, ''ID_AA64PFR0_EL1''),
    (0xc021, ''ID_AA64PFR1_EL1''), (0xc028, ''ID_AA64DFR0_EL1''), (0xc029, ''ID_AA64DFR1_EL1''),
    (0xc030, ''ID_AA64ISAR0_EL1''), (0xc031, ''ID_AA64ISAR1_EL1''), (0xc038, ''ID_AA64MMFR0_EL1''),
    (0xc039, ''ID_AA64MMFR1_EL1''), (0xc03a, ''ID_AA64MMFR2_EL1''), (0xc080, ''SCTLR_EL1''),
    (0xc082, ''CPACR_EL1''), (0xc100, ''TTBR0_EL1''), (0xc101, ''TTBR1_EL1''), (0xc102, ''TCR_EL1''),
    (0xc108, ''APIAKEYLO_EL1''), (0xc109, ''APIAKEYHI_EL1''), (0xc10a, ''APIBKEYLO_EL1''),
    (0xc10b, ''APIBKEYHI_EL1''), (0xc110, ''APDAKEYLO_EL1''), (0xc111, ''APDAKEYHI_EL1''),
    (0xc112, ''APDBKEYLO_EL1''), (0xc113, ''APDBKEYHI_EL1''), (0xc118, ''APGAKEYLO_EL1''),
    (0xc119, ''APGAKEYHI_EL1''), (0xc200, ''SPSR_EL1''), (0xc201, ''ELR_EL1''), (0xc208, ''SP_EL0''),
    (0xc288, ''AFSR0_EL1''), (0xc289, ''AFSR1_EL1''), (0xc290, ''ESR_EL1''), (0xc300, ''FAR_EL1''),
    (0xc3a0, ''PAR_EL1''), (0xc510, ''MAIR_EL1''), (0xc518, ''AMAIR_EL1''), (0xc600, ''VBAR_EL1''),
    (0xc681, ''CONTEXTIDR_EL1''), (0xc684, ''TPIDR_EL1''), (0xc708, ''CNTKCTL_EL1''),
    (0xd000, ''CSSELR_EL1''), (0xde82, ''TPIDR_EL0''), (0xde83, ''TPIDRRO_EL0''),
    (0xdf19, ''CNTV_CTL_EL0''), (0xdf1a, ''CNTV_CVAL_EL0''), (0xe208, ''SP_EL1'')]"


section \<open>State\<close>

datatype cpu_on = Off | Posted u64 u64 | On

record 's hvf_vm =
  fw :: 's
  hvf_gic :: gic_info
  swgic :: "gic option"
  cpu_on :: "cpu_on list"
  handles :: "nat list"
  hvf_stop :: bool
  yield_now :: bool
  started :: "nat \<Rightarrow> bool"
  pending_read_reg :: "nat \<Rightarrow> u8"
  vtimer_masked :: "nat \<Rightarrow> bool"

definition swgic_mode :: "bool \<Rightarrow> string option \<Rightarrow> bool" where
  "swgic_mode feature env \<longleftrightarrow> feature \<and> env \<noteq> Some ''hw''"

definition align_up :: "u64 \<Rightarrow> u64 \<Rightarrow> u64" where
  "align_up x a = (if a = 0 then x else (x + a - 1) AND NOT (a - 1))"

definition create_gic :: "'s hvf \<Rightarrow> 's \<Rightarrow> error + gic_info \<times> 's" where
  "create_gic F s =
     try_bind (fw_gic_sizes F s) (\<lambda>(dsize, rsize, ralign).
       if PL011_BASE < GIC_DIST_BASE + dsize then Inl Backend
       else
         let rbase = align_up (PL011_BASE + PL011_SIZE) ralign
         in if RAM_BASE < rbase + rsize then Inl Backend
            else try_bind (fw_gic_create F s GIC_DIST_BASE rbase) (\<lambda>s'.
                   Inr (\<lparr>dist_base = GIC_DIST_BASE, dist_size = dsize, redist_base = rbase,
                         redist_size = rsize, kind = V3\<rparr>, s')))"

definition hvf_create :: "'s hvf \<Rightarrow> bool \<Rightarrow> guest_ram \<Rightarrow> nat \<Rightarrow> error + 's hvf_vm" where
  "hvf_create F sw ram n =
     try_bind (fw_vm_create F ram) (\<lambda>s.
       let vcpus = max n 1;
           v = \<lparr>fw = s,
                hvf_gic = \<lparr>dist_base = GIC_DIST_BASE, dist_size = GIC_DIST_SIZE, redist_base = GIC_CPU_BASE,
                           redist_size = GIC_CPU_SIZE, kind = V2\<rparr>,
                swgic = Some (with_cpus vcpus), cpu_on = replicate vcpus Off, handles = [],
                hvf_stop = False, yield_now = False, started = (\<lambda>_. False),
                pending_read_reg = (\<lambda>_. 31), vtimer_masked = (\<lambda>_. False)\<rparr>
       in if sw then Inr v
          else if 1 < vcpus then Inl Backend
          else try_bind (create_gic F s) (\<lambda>(g, s'). Inr (v\<lparr>fw := s', hvf_gic := g, swgic := None\<rparr>)))"

definition hvf_create_vcpu :: "'s hvf \<Rightarrow> 's hvf_vm \<Rightarrow> u8 \<Rightarrow> error + 's hvf_vm" where
  "hvf_create_vcpu F v i =
     (let c = unat i in
      try_bind (fw_vcpu_create F (fw v) c) (\<lambda>s.
      try_bind (fw_set_sys F s c HV_SYS_REG_MPIDR_EL1 (0x80000000 OR ucast i)) (\<lambda>s'.
        Inr (v\<lparr>fw := s', handles := handles v @ [c],
               cpu_on := (if c = 0 then (cpu_on v)[0 := On] else cpu_on v),
               started := (started v)(c := (c = 0)),
               pending_read_reg := (pending_read_reg v)(c := 31),
               vtimer_masked := (vtimer_masked v)(c := False)\<rparr>))))"

definition hvf_set_irq :: "'s hvf \<Rightarrow> 's hvf_vm \<Rightarrow> u32 \<Rightarrow> bool \<Rightarrow> error + 's hvf_vm" where
  "hvf_set_irq F v intid high =
     (case swgic v of
        Some g \<Rightarrow> Inr (v\<lparr>swgic := Some (set_level g 0 (unat intid) high)\<rparr>)
      | None \<Rightarrow> try_bind (fw_gic_spi F (fw v) intid high) (\<lambda>s. Inr (v\<lparr>fw := s\<rparr>)))"

definition hvf_capture_gic :: "'s hvf \<Rightarrow> 's hvf_vm \<Rightarrow> error + bytes" where
  "hvf_capture_gic F v = (case swgic v of Some g \<Rightarrow> Inr (gic_capture g) | None \<Rightarrow> fw_gic_get F (fw v))"

definition hvf_restore_gic :: "'s hvf \<Rightarrow> 's hvf_vm \<Rightarrow> bytes \<Rightarrow> error + 's hvf_vm" where
  "hvf_restore_gic F v blob =
     (case swgic v of
        Some g \<Rightarrow> Inr (v\<lparr>swgic := Some (gic_restore g blob)\<rparr>)
      | None \<Rightarrow> try_bind (fw_gic_set F (fw v) blob) (\<lambda>s. Inr (v\<lparr>fw := s\<rparr>)))"

definition exit_all :: "'s hvf \<Rightarrow> 's hvf_vm \<Rightarrow> 's hvf_vm" where
  "exit_all F v = (if handles v = [] then v else v\<lparr>fw := fw_exit_all F (fw v) (handles v)\<rparr>)"

definition hvf_request_stop :: "'s hvf \<Rightarrow> 's hvf_vm \<Rightarrow> 's hvf_vm" where
  "hvf_request_stop F v = exit_all F (v\<lparr>hvf_stop := True\<rparr>)"

definition hvf_set_yield :: "'s hvf \<Rightarrow> 's hvf_vm \<Rightarrow> bool \<Rightarrow> 's hvf_vm" where
  "hvf_set_yield F v on =
     (let v' = v\<lparr>yield_now := on\<rparr> in if on then exit_all F v' else v')"



section \<open>The software interrupt controller\<close>

definition get_x :: "'s hvf \<Rightarrow> 's hvf_vm \<Rightarrow> nat \<Rightarrow> u8 \<Rightarrow> error + u64" where
  "get_x F v c i = fw_get_reg F (fw v) c (HV_REG_X0 + unat i)"

definition set_x :: "'s hvf \<Rightarrow> 's hvf_vm \<Rightarrow> nat \<Rightarrow> u8 \<Rightarrow> u64 \<Rightarrow> error + 's hvf_vm" where
  "set_x F v c i x = try_bind (fw_set_reg F (fw v) c (HV_REG_X0 + unat i) x) (\<lambda>s. Inr (v\<lparr>fw := s\<rparr>))"

definition set_reg :: "'s hvf \<Rightarrow> 's hvf_vm \<Rightarrow> nat \<Rightarrow> nat \<Rightarrow> u64 \<Rightarrow> error + 's hvf_vm" where
  "set_reg F v c r x = try_bind (fw_set_reg F (fw v) c r x) (\<lambda>s. Inr (v\<lparr>fw := s\<rparr>))"

definition step_pc :: "'s hvf \<Rightarrow> 's hvf_vm \<Rightarrow> nat \<Rightarrow> error + 's hvf_vm" where
  "step_pc F v c = try_bind (fw_get_reg F (fw v) c HV_REG_PC) (\<lambda>pc. set_reg F v c HV_REG_PC (pc + 4))"

definition timer_due :: "u64 \<Rightarrow> bool" where
  "timer_due ctl \<longleftrightarrow> ctl AND 1 \<noteq> 0 \<and> ctl AND 2 = 0 \<and> ctl AND 4 \<noteq> 0"

definition swgic_prep :: "'s hvf \<Rightarrow> nat \<Rightarrow> 's hvf_vm \<Rightarrow> error + 's hvf_vm" where
  "swgic_prep F c v =
     (case swgic v of
        None \<Rightarrow> Inr v
      | Some g \<Rightarrow>
          try_bind (if vtimer_masked v c then Inr v
                    else try_bind (fw_set_mask F (fw v) c True) (\<lambda>s.
                           Inr (v\<lparr>fw := s, vtimer_masked := (vtimer_masked v)(c := True)\<rparr>))) (\<lambda>v1.
          let ctl = (case fw_get_sys F (fw v1) c HV_SYS_REG_CNTV_CTL_EL0 of Inl e \<Rightarrow> 0 | Inr x \<Rightarrow> x);
              g' = set_level g c VTIMER_INTID (timer_due ctl);
              v2 = v1\<lparr>swgic := Some g'\<rparr>
          in if irq_pending g' c
             then try_bind (fw_set_pending F (fw v2) c) (\<lambda>s. Inr (v2\<lparr>fw := s\<rparr>))
             else Inr v2))"

definition in_window :: "u64 \<Rightarrow> u64 \<Rightarrow> u64 \<Rightarrow> bool" where
  "in_window b n ipa \<longleftrightarrow> b \<le> ipa \<and> ipa < b + n"

text \<open>An access inside the controller's windows; the flag says whether it was one.\<close>

definition swgic_mmio :: "'s hvf \<Rightarrow> nat \<Rightarrow> mmio_access \<Rightarrow> u8 \<Rightarrow> 's hvf_vm \<Rightarrow> error + 's hvf_vm \<times> bool" where
  "swgic_mmio F c acc reg v =
     (case swgic v of
        None \<Rightarrow> Inr (v, False)
      | Some g \<Rightarrow>
          let ipa = ma_ipa acc;
              is_dist = in_window GIC_DIST_BASE GIC_DIST_SIZE ipa;
              off = (if is_dist then ipa - GIC_DIST_BASE else ipa - GIC_CPU_BASE)
          in if \<not> is_dist \<and> \<not> in_window GIC_CPU_BASE GIC_CPU_SIZE ipa then Inr (v, False)
             else case ma_write acc of
                 None \<Rightarrow>
                   (case (if is_dist then (g, dist_read g c off (ma_size acc)) else cpu_read g c off (ma_size acc)) of
                      (g', x) \<Rightarrow>
                        let v' = v\<lparr>swgic := Some g'\<rparr>
                        in if reg = 31 then Inr (v', True)
                           else try_bind (set_x F v' c reg x) (\<lambda>v''. Inr (v'', True)))
               | Some value \<Rightarrow>
                   if is_dist
                   then let v' = v\<lparr>swgic := Some (dist_write g c off (ma_size acc) value)\<rparr>
                        in Inr (if off = 0xf00 then v'\<lparr>fw := fw_exit_all F (fw v') (handles v')\<rparr> else v', True)
                   else Inr (v\<lparr>swgic := Some (cpu_write g c off value)\<rparr>, True))"


section \<open>Running a vcpu\<close>

definition PSCI_SUCCESS :: u64 where "PSCI_SUCCESS = 0"
definition PSCI_ALREADY_ON :: u64 where "PSCI_ALREADY_ON = - 4"
definition PSCI_INVALID :: u64 where "PSCI_INVALID = - 2"

text \<open>The slot of a \<open>CPU_ON\<close> target, and the return code.\<close>

definition cpu_on_call :: "cpu_on list \<Rightarrow> nat \<Rightarrow> u64 \<Rightarrow> u64 \<Rightarrow> cpu_on list \<times> u64" where
  "cpu_on_call slots target entry ctx =
     (if target < length slots
      then (if slots ! target = Off then (slots[target := Posted entry ctx], PSCI_SUCCESS)
            else (slots, PSCI_ALREADY_ON))
      else (slots, PSCI_INVALID))"

definition affinity_on :: "cpu_on list \<Rightarrow> nat \<Rightarrow> bool" where
  "affinity_on slots target \<longleftrightarrow> target < length slots \<and> slots ! target \<noteq> Off"

definition psci_call :: "'s hvf \<Rightarrow> nat \<Rightarrow> 's hvf_vm \<Rightarrow> error + 's hvf_vm \<times> vm_exit option" where
  "psci_call F c v =
     try_bind (get_x F v c 0) (\<lambda>func.
       if func = 0x84000008 \<or> func = 0x84000009 then Inr (v, Some Shutdown)
       else
         try_bind
           (if func = 0x84000000 then set_x F v c 0 0x10000
            else if func = 0x84000003 \<or> func = 0xc4000003 then
              try_bind (get_x F v c 1) (\<lambda>target.
              try_bind (get_x F v c 2) (\<lambda>entry.
              try_bind (get_x F v c 3) (\<lambda>ctx.
                case cpu_on_call (cpu_on v) (unat (target AND 0xff)) entry ctx of
                  (slots, rc) \<Rightarrow> set_x F (v\<lparr>cpu_on := slots\<rparr>) c 0 rc)))
            else if func = 0x84000004 \<or> func = 0xc4000004 then
              try_bind (get_x F v c 1) (\<lambda>target.
                set_x F v c 0 (if affinity_on (cpu_on v) (unat (target AND 0xff)) then 0 else 1))
            else set_x F v c 0 (- 1))
           (\<lambda>v'. Inr (v', None)))"

text \<open>A trapped system register: reads yield 0, writes are dropped, the instruction is skipped.\<close>

definition msr_trap :: "'s hvf \<Rightarrow> nat \<Rightarrow> u64 \<Rightarrow> 's hvf_vm \<Rightarrow> error + 's hvf_vm" where
  "msr_trap F c esr v =
     (let rt = ucast (drop_bit 5 esr AND 0x1f) :: u8
      in try_bind (if esr AND 1 = 1 \<and> rt \<noteq> 31 then set_x F v c rt 0 else Inr v) (\<lambda>v'. step_pc F v' c))"

definition handle_exit :: "'s hvf \<Rightarrow> nat \<Rightarrow> hvf_exit \<Rightarrow> 's hvf_vm \<Rightarrow> error + 's hvf_vm \<times> vm_exit option" where
  "handle_exit F c ex v =
     (case ex of
        ExceptionExit esr ipa \<Rightarrow>
          let ec = drop_bit 26 esr AND 0x3f in
          if ec = EC_WFX then
            try_bind (if swgic v = None then Inr v else step_pc F v c) (\<lambda>v'. Inr (v', Some Idle))
          else if ec = EC_HVC64 then psci_call F c v
          else if ec = EC_MSR_TRAP then try_bind (msr_trap F c esr v) (\<lambda>v'. Inr (v', None))
          else
            (case decode_data_abort esr ipa (\<lambda>i. case get_x F v c i of Inl e \<Rightarrow> 0 | Inr x \<Rightarrow> x) of
               Some (acc, reg) \<Rightarrow>
                 try_bind (swgic_mmio F c acc reg v) (\<lambda>(v', mine).
                   if mine then try_bind (step_pc F v' c) (\<lambda>v''. Inr (v'', None))
                   else Inr (v'\<lparr>pending_read_reg := (pending_read_reg v')(c := reg)\<rparr>, Some (Mmio acc)))
             | None \<Rightarrow>
                 Inr (v, Some (Fault (case fw_get_reg F (fw v) c HV_REG_PC of Inl e \<Rightarrow> 0 | Inr pc \<Rightarrow> pc) esr ipa)))
      | VtimerExit \<Rightarrow> try_bind (fw_set_mask F (fw v) c (swgic v \<noteq> None)) (\<lambda>s. Inr (v\<lparr>fw := s\<rparr>, None))
      | CanceledExit \<Rightarrow>
          Inr (v, if hvf_stop v \<or> yield_now v then Some Idle else if swgic v \<noteq> None then None else Some Idle)
      | OtherExit \<Rightarrow>
          Inr (v, Some (Fault (case fw_get_reg F (fw v) c HV_REG_PC of Inl e \<Rightarrow> 0 | Inr pc \<Rightarrow> pc) 0 0)))"

text \<open>A parked secondary: it takes a posted entry point, or waits and returns \<open>Idle\<close> to its loop.\<close>

definition take_posted :: "'s hvf \<Rightarrow> nat \<Rightarrow> 's hvf_vm \<Rightarrow> error + 's hvf_vm \<times> bool" where
  "take_posted F c v =
     (if started v c then Inr (v, True)
      else case cpu_on v ! c of
        Posted entry ctx \<Rightarrow>
          try_bind (set_reg F (v\<lparr>cpu_on := (cpu_on v)[c := On]\<rparr>) c HV_REG_CPSR 0x3c5) (\<lambda>v1.
          try_bind (set_reg F v1 c HV_REG_PC entry) (\<lambda>v2.
          try_bind (set_x F v2 c 0 ctx) (\<lambda>v3.
            Inr (v3\<lparr>started := (started v3)(c := True)\<rparr>, True))))
      | _ \<Rightarrow> Inr (v, False))"

partial_function (option) run_loop ::
  "'s hvf \<Rightarrow> nat \<Rightarrow> guest_ram \<Rightarrow> 's hvf_vm \<Rightarrow> ('s hvf_vm \<times> guest_ram \<times> (error + vm_exit)) option" where
  "run_loop F c ram v =
     (case swgic_prep F c v of
        Inl e \<Rightarrow> Some (v, ram, Inl e)
      | Inr v1 \<Rightarrow>
          (case fw_run F (fw v1) c ram of
             Inl e \<Rightarrow> Some (v1, ram, Inl e)
           | Inr (s, ram', ex) \<Rightarrow>
               (case handle_exit F c ex (v1\<lparr>fw := s\<rparr>) of
                  Inl e \<Rightarrow> Some (v1\<lparr>fw := s\<rparr>, ram', Inl e)
                | Inr (v2, Some x) \<Rightarrow> Some (v2, ram', Inr x)
                | Inr (v2, None) \<Rightarrow> run_loop F c ram' v2)))"

definition hvf_run ::
  "'s hvf \<Rightarrow> nat \<Rightarrow> guest_ram \<Rightarrow> 's hvf_vm \<Rightarrow> ('s hvf_vm \<times> guest_ram \<times> (error + vm_exit)) option" where
  "hvf_run F c ram v =
     (case take_posted F c v of
        Inl e \<Rightarrow> Some (v, ram, Inl e)
      | Inr (v', False) \<Rightarrow> Some (v', ram, Inr Idle)
      | Inr (v', True) \<Rightarrow> run_loop F c ram v')"


section \<open>Registers, timer, capture and restore\<close>

definition hvf_apply_template :: "'s hvf \<Rightarrow> 's hvf_vm \<Rightarrow> nat \<Rightarrow> cpu_template \<Rightarrow> error + 's hvf_vm" where
  "hvf_apply_template F v c t =
     foldl (\<lambda>r ov. try_bind r (\<lambda>v.
              try_bind (fw_get_sys F (fw v) c (ucast (ov_reg ov))) (\<lambda>cur.
              try_bind (fw_set_sys F (fw v) c (ucast (ov_reg ov)) ((cur AND and_mask ov) OR or_value ov)) (\<lambda>s.
                Inr (v\<lparr>fw := s\<rparr>)))))
       (Inr v) (overrides t)"

definition hvf_set_boot :: "'s hvf \<Rightarrow> 's hvf_vm \<Rightarrow> nat \<Rightarrow> u64 \<Rightarrow> u64 \<Rightarrow> error + 's hvf_vm" where
  "hvf_set_boot F v c entry dtb =
     try_bind (set_reg F v c HV_REG_X0 dtb) (\<lambda>v.
     try_bind (set_reg F v c (HV_REG_X0 + 1) 0) (\<lambda>v.
     try_bind (set_reg F v c (HV_REG_X0 + 2) 0) (\<lambda>v.
     try_bind (set_reg F v c (HV_REG_X0 + 3) 0) (\<lambda>v.
     try_bind (set_reg F v c HV_REG_CPSR 0x3c5) (\<lambda>v.
       set_reg F v c HV_REG_PC entry)))))"

definition hvf_complete_read :: "'s hvf \<Rightarrow> 's hvf_vm \<Rightarrow> nat \<Rightarrow> u64 \<Rightarrow> error + 's hvf_vm" where
  "hvf_complete_read F v c x =
     (if pending_read_reg v c = 31 then Inr v else set_x F v c (pending_read_reg v c) x)"

definition mach_ticks_to_ns :: "'s hvf \<Rightarrow> u64 \<Rightarrow> u64" where
  "mach_ticks_to_ns F ticks =
     (case fw_timebase F of (numer, denom) \<Rightarrow>
        if denom = 0 then ticks else of_nat (unat ticks * unat numer div unat denom))"

definition hvf_timer_ns :: "'s hvf \<Rightarrow> 's hvf_vm \<Rightarrow> nat \<Rightarrow> error + u64 option" where
  "hvf_timer_ns F v c =
     try_bind (fw_get_sys F (fw v) c HV_SYS_REG_CNTV_CTL_EL0) (\<lambda>ctl.
       if ctl AND 1 = 0 \<or> ctl AND 2 \<noteq> 0 then Inr None
       else if ctl AND 4 \<noteq> 0 then Inr (Some 0)
       else
         try_bind (fw_get_sys F (fw v) c HV_SYS_REG_CNTV_CVAL_EL0) (\<lambda>cval.
         try_bind (fw_get_offset F (fw v) c) (\<lambda>offs.
           let now = fw_now F (fw v) - offs
           in Inr (Some (if cval \<le> now then 0 else mach_ticks_to_ns F (cval - now))))))"

definition sysreg_values :: "'s hvf \<Rightarrow> 's \<Rightarrow> nat \<Rightarrow> (u16 \<times> u64) list" where
  "sysreg_values F s c =
     concat (map (\<lambda>(i, _). case fw_get_sys F s c i of Inl e \<Rightarrow> [] | Inr x \<Rightarrow> [(i, x)]) SYS_REGS)"

definition hvf_capture :: "'s hvf \<Rightarrow> 's hvf_vm \<Rightarrow> nat \<Rightarrow> error + cpu_snapshot" where
  "hvf_capture F v c =
     (let get = fw_get_reg F (fw v) c in
      try_bind (collect_all (\<lambda>i. get (HV_REG_X0 + i)) [0..<31]) (\<lambda>x.
      try_bind (fw_get_offset F (fw v) c) (\<lambda>offs.
      try_bind (get HV_REG_PC) (\<lambda>pc.
      try_bind (get HV_REG_CPSR) (\<lambda>cpsr.
      try_bind (get HV_REG_FPCR) (\<lambda>fpcr.
      try_bind (get HV_REG_FPSR) (\<lambda>fpsr.
        Inr \<lparr>cs_x = x, cs_pc = pc, cs_cpsr = cpsr, cs_fpcr = fpcr, cs_fpsr = fpsr, vtimer_offset = offs,
             mono = fw_now F (fw v), sysregs = sysreg_values F (fw v) c,
             cs_fp = map (fw_get_fp F (fw v) c) [0..<32], kvm_regs = []\<rparr>)))))))"

fun restore_regs :: "'s hvf \<Rightarrow> nat \<Rightarrow> nat \<Rightarrow> u64 list \<Rightarrow> 's \<Rightarrow> error + 's" where
  "restore_regs F c i [] s = Inr s"
| "restore_regs F c i (x # xs) s = try_bind (fw_set_reg F s c (HV_REG_X0 + i) x) (restore_regs F c (Suc i) xs)"

text \<open>System registers that refuse are skipped; the virtual timer's are written only when the
  software controller delivers the timer.\<close>

fun restore_sysregs :: "'s hvf \<Rightarrow> nat \<Rightarrow> bool \<Rightarrow> (u16 \<times> u64) list \<Rightarrow> 's \<Rightarrow> 's" where
  "restore_sysregs F c cntv [] s = s"
| "restore_sysregs F c cntv ((i, x) # rest) s =
     restore_sysregs F c cntv rest
       (if \<not> cntv \<and> (i = HV_SYS_REG_CNTV_CTL_EL0 \<or> i = HV_SYS_REG_CNTV_CVAL_EL0) then s
        else case fw_set_sys F s c i x of Inl e \<Rightarrow> s | Inr s' \<Rightarrow> s')"

definition hvf_restore :: "'s hvf \<Rightarrow> 's hvf_vm \<Rightarrow> nat \<Rightarrow> cpu_snapshot \<Rightarrow> error + 's hvf_vm" where
  "hvf_restore F v c cs =
     (let v0 = v\<lparr>started := (started v)(c := True), cpu_on := (cpu_on v)[c := On]\<rparr> in
      try_bind (restore_regs F c 0 (cs_x cs) (fw v0)) (\<lambda>s1.
      let captured_cntvct = mono cs - vtimer_offset cs;
          new_offset = fw_now F s1 - captured_cntvct
      in
      try_bind (fw_set_offset F s1 c new_offset) (\<lambda>s2.
      try_bind (fw_set_mask F s2 c False) (\<lambda>s3.
      let s4 = restore_sysregs F c (swgic v0 \<noteq> None) (sysregs cs) s3 in
      try_bind (fw_set_reg F s4 c HV_REG_FPCR (cs_fpcr cs)) (\<lambda>s5.
      try_bind (fw_set_reg F s5 c HV_REG_FPSR (cs_fpsr cs)) (\<lambda>s6.
      try_bind (fw_set_reg F s6 c HV_REG_CPSR (cs_cpsr cs)) (\<lambda>s7.
      try_bind (fw_set_reg F s7 c HV_REG_PC (cs_pc cs)) (\<lambda>s8.
        Inr (v0\<lparr>fw := s8\<rparr>)))))))))"

end
