(* ===== verification/Hvf_Props.thy ===== *)
theory Hvf_Props
  imports Hvf Machine_Laws
begin

text \<open>
  Properties of the Apple Silicon backend: the power life cycle of a secondary vcpu, the round trip
  of a vcpu through a snapshot, and the placement of the in-kernel interrupt controller.
\<close>

section \<open>A framework to evaluate\<close>

text \<open>Registers and timer offsets per vcpu; the guest leaves at once with an unknown exit.\<close>

type_synonym fw_state = "(nat \<Rightarrow> nat \<Rightarrow> u64) \<times> (nat \<Rightarrow> u64)"

definition demo_fw :: "fw_state hvf" where
  "demo_fw =
     \<lparr>fw_vm_create = (\<lambda>_. Inr (\<lambda>_ _. 0, \<lambda>_. 0)), fw_vcpu_create = (\<lambda>s _. Inr s),
      fw_get_reg = (\<lambda>s c r. Inr (fst s c r)), fw_set_reg = (\<lambda>(g, offs) c r x. Inr (g(c := (g c)(r := x)), offs)),
      fw_get_sys = (\<lambda>s _ _. Inr 0), fw_set_sys = (\<lambda>s _ _ _. Inr s), fw_get_fp = (\<lambda>_ _ _. []),
      fw_set_mask = (\<lambda>s _ _. Inr s), fw_get_offset = (\<lambda>s c. Inr (snd s c)),
      fw_set_offset = (\<lambda>(g, offs) c x. Inr (g, offs(c := x))), fw_set_pending = (\<lambda>s _. Inr s),
      fw_run = (\<lambda>s _ ram. Inr (s, ram, OtherExit)), fw_exit_all = (\<lambda>s _. s), fw_now = (\<lambda>_. 1000),
      fw_timebase = (125, 3), fw_gic_sizes = (\<lambda>_. Inr (0x10000, 0x2000000, 0x10000)),
      fw_gic_create = (\<lambda>s _ _. Inr s), fw_gic_spi = (\<lambda>s _ _. Inr s), fw_gic_get = (\<lambda>_. Inr []),
      fw_gic_set = (\<lambda>s _. Inr s)\<rparr>"

definition demo_hvf :: "fw_state hvf_vm" where
  "demo_hvf =
     \<lparr>fw = (\<lambda>c r. of_nat (100 * c + r), \<lambda>_. 300),
      hvf_gic = \<lparr>dist_base = 0, dist_size = 0, redist_base = 0, redist_size = 0, kind = V2\<rparr>,
      swgic = Some (with_cpus 2), cpu_on = [On, Off], handles = [0, 1], hvf_stop = False, yield_now = False,
      started = (\<lambda>c. c = 0), pending_read_reg = (\<lambda>_. 31), vtimer_masked = (\<lambda>_. False)\<rparr>"


section \<open>The power state\<close>

text \<open>Everything any vcpu thread and the device model do to the shared state once the vcpus exist.\<close>

inductive hvf_step :: "'s hvf \<Rightarrow> 's hvf_vm \<Rightarrow> 's hvf_vm \<Rightarrow> bool" for F where
  exit: "handle_exit F c ex v = Inr (v', r) \<Longrightarrow> hvf_step F v v'"
| start: "take_posted F c v = Inr (v', b) \<Longrightarrow> hvf_step F v v'"
| prep: "swgic_prep F c v = Inr v' \<Longrightarrow> hvf_step F v v'"
| guest: "hvf_step F v (v\<lparr>fw := s\<rparr>)"
| irq: "hvf_set_irq F v i high = Inr v' \<Longrightarrow> hvf_step F v v'"
| stop: "hvf_step F v (hvf_request_stop F v)"
| yield: "hvf_step F v (hvf_set_yield F v on)"

text \<open>A slot only moves forward.\<close>

definition slot_forward :: "cpu_on \<Rightarrow> cpu_on \<Rightarrow> bool" where
  "slot_forward a b \<longleftrightarrow> a = Off \<or> a = b \<or> b = On"

definition slots_forward :: "cpu_on list \<Rightarrow> cpu_on list \<Rightarrow> bool" where
  "slots_forward xs ys = list_all2 slot_forward xs ys"

lemma slots_forward_refl [simp]: "slots_forward xs xs"
  by (simp add: slots_forward_def slot_forward_def list_all2_refl)

lemma slots_forward_trans: "\<lbrakk>slots_forward xs ys; slots_forward ys zs\<rbrakk> \<Longrightarrow> slots_forward xs zs"
  unfolding slots_forward_def
  by (erule list_all2_trans [rotated], assumption) (auto simp: slot_forward_def)

lemma slots_forward_upd: "slot_forward (xs ! t) y \<Longrightarrow> slots_forward xs (xs[t := y])"
  by (auto simp: slots_forward_def list_all2_conv_all_nth nth_update_if slot_forward_def)

lemma cpu_on_call_forward: "slots_forward xs (fst (cpu_on_call xs t e x))"
  by (simp add: cpu_on_call_def slots_forward_upd slot_forward_def)

lemma cpu_on_upd [simp]:
  "set_x F v c i x = Inr v' \<Longrightarrow> cpu_on v' = cpu_on v" "set_reg F v c r x = Inr v' \<Longrightarrow> cpu_on v' = cpu_on v"
  "step_pc F v c = Inr v' \<Longrightarrow> cpu_on v' = cpu_on v" "msr_trap F c esr v = Inr v' \<Longrightarrow> cpu_on v' = cpu_on v"
  by (auto simp: set_x_def set_reg_def step_pc_def msr_trap_def try_bind_Inr Let_def split: if_splits)

lemma cpu_on_swgic:
  "swgic_mmio F c acc reg v = Inr (v', b) \<Longrightarrow> cpu_on v' = cpu_on v"
  "swgic_prep F c v = Inr v' \<Longrightarrow> cpu_on v' = cpu_on v"
  by (auto simp: swgic_mmio_def swgic_prep_def try_bind_Inr Let_def split: option.splits if_splits prod.splits)

lemma psci_forward: "psci_call F c v = Inr (v', r) \<Longrightarrow> slots_forward (cpu_on v) (cpu_on v')"
  by (auto simp: psci_call_def try_bind_Inr case_prod_beta cpu_on_call_forward split: if_splits dest!: cpu_on_upd(1))

lemma handle_exit_forward: "handle_exit F c ex v = Inr (v', r) \<Longrightarrow> slots_forward (cpu_on v) (cpu_on v')"
proof (cases ex)
  case (ExceptionExit esr ipa)
  assume "handle_exit F c ex v = Inr (v', r)"
  with ExceptionExit have "psci_call F c v = Inr (v', r) \<or> cpu_on v' = cpu_on v"
    by (auto simp: handle_exit_def Let_def try_bind_Inr split: if_splits option.splits dest!: cpu_on_swgic(1))
  then show ?thesis using psci_forward by auto
qed (auto simp: handle_exit_def try_bind_Inr)

lemma take_posted_forward: "take_posted F c v = Inr (v', b) \<Longrightarrow> slots_forward (cpu_on v) (cpu_on v')"
  by (auto simp: take_posted_def try_bind_Inr slots_forward_upd slot_forward_def split: if_splits cpu_on.splits)

lemma hvf_step_forward: "hvf_step F v v' \<Longrightarrow> slots_forward (cpu_on v) (cpu_on v')"
  by (induction rule: hvf_step.induct)
    (auto simp: handle_exit_forward take_posted_forward cpu_on_swgic hvf_set_irq_def hvf_request_stop_def
      hvf_set_yield_def exit_all_def Let_def try_bind_Inr split: option.splits)

lemma hvf_steps_forward: "(hvf_step F)\<^sup>*\<^sup>* v v' \<Longrightarrow> slots_forward (cpu_on v) (cpu_on v')"
  by (induction rule: rtranclp_induct) (auto intro: slots_forward_trans hvf_step_forward)

text \<open>C38. A secondary vcpu is started once, where it was told to: after a CPU_ON that returned success,
  whatever the vcpus and devices do, the target's slot holds that entry point and context or is on,
  every further CPU_ON for it answers ALREADY_ON and changes nothing, and a parked target that finds
  the posted slot is programmed with EL1h and masked interrupts, that entry point as program counter
  and that context in x0, and is on from then.\<close>

theorem psci_start_once:
  assumes "cpu_on_call (cpu_on v) t e x = (slots, PSCI_SUCCESS)"
    and "(hvf_step F)\<^sup>*\<^sup>* (v\<lparr>cpu_on := slots\<rparr>) v'"
  shows "(cpu_on v' ! t = Posted e x \<or> cpu_on v' ! t = On) \<and>
     cpu_on_call (cpu_on v') t e' x' = (cpu_on v', PSCI_ALREADY_ON) \<and>
     (cpu_on v' ! t = Posted e x \<and> \<not> started v' t \<longrightarrow>
        take_posted F t v' =
          try_bind (fw_set_reg F (fw v') t HV_REG_CPSR 0x3c5) (\<lambda>s1.
          try_bind (fw_set_reg F s1 t HV_REG_PC e) (\<lambda>s2.
          try_bind (fw_set_reg F s2 t HV_REG_X0 x) (\<lambda>s3.
            Inr (v'\<lparr>fw := s3, cpu_on := (cpu_on v')[t := On], started := (started v')(t := True)\<rparr>, True)))))"
proof -
  have s: "t < length (cpu_on v)" "slots = (cpu_on v)[t := Posted e x]"
    using assms(1) by (auto simp: cpu_on_call_def PSCI_SUCCESS_def PSCI_ALREADY_ON_def PSCI_INVALID_def split: if_splits)
  have f: "slots_forward slots (cpu_on v')" using hvf_steps_forward [OF assms(2)] by simp
  then have len: "t < length (cpu_on v')" using s by (auto simp: slots_forward_def dest: list_all2_lengthD)
  have "slot_forward (slots ! t) (cpu_on v' ! t)"
    using f s by (auto simp: slots_forward_def list_all2_conv_all_nth)
  then have c: "cpu_on v' ! t = Posted e x \<or> cpu_on v' ! t = On" using s by (auto simp: slot_forward_def)
  moreover from c have "cpu_on_call (cpu_on v') t e' x' = (cpu_on v', PSCI_ALREADY_ON)"
    using len by (auto simp: cpu_on_call_def)
  moreover have "take_posted F t v' =
      try_bind (fw_set_reg F (fw v') t HV_REG_CPSR 0x3c5) (\<lambda>s1.
      try_bind (fw_set_reg F s1 t HV_REG_PC e) (\<lambda>s2.
      try_bind (fw_set_reg F s2 t HV_REG_X0 x) (\<lambda>s3.
        Inr (v'\<lparr>fw := s3, cpu_on := (cpu_on v')[t := On], started := (started v')(t := True)\<rparr>, True))))"
    if "cpu_on v' ! t = Posted e x" "\<not> started v' t"
    using that by (simp add: take_posted_def set_reg_def set_x_def try_bind_def split: sum.split)
  ultimately show ?thesis by blast
qed

theorem psci_start_once_witness:
  "\<exists>slots. cpu_on_call (cpu_on demo_hvf) 1 0x40200000 7 = (slots, PSCI_SUCCESS) \<and>
     (\<exists>v. take_posted demo_fw 1 (demo_hvf\<lparr>cpu_on := slots\<rparr>) = Inr (v, True) \<and>
        fst (fw v) 1 HV_REG_PC = 0x40200000 \<and> fst (fw v) 1 HV_REG_X0 = 7 \<and> cpu_on v = [On, On])"
proof -
  have c: "cpu_on_call (cpu_on demo_hvf) 1 0x40200000 7 = ([On, Posted 0x40200000 7], PSCI_SUCCESS)"
    by (simp add: cpu_on_call_def demo_hvf_def)
  from psci_start_once [OF c rtranclp.rtrancl_refl [of "hvf_step demo_fw"], of 0 0] c show ?thesis
    by (simp add: demo_fw_def demo_hvf_def HV_REG_PC_def HV_REG_X0_def HV_REG_CPSR_def)
qed


section \<open>A vcpu through a snapshot\<close>

text \<open>The framework keeps registers: a general register reads what was last written to it, and no
  other call but a run touches it; likewise the timer offset.\<close>

definition keeps_regs :: "'s hvf \<Rightarrow> bool" where
  "keeps_regs F \<longleftrightarrow>
     (\<forall>s c r x s'. fw_set_reg F s c r x = Inr s' \<longrightarrow>
        (\<forall>r'. fw_get_reg F s' c r' = (if r' = r then Inr x else fw_get_reg F s c r')) \<and>
        fw_get_offset F s' c = fw_get_offset F s c) \<and>
     (\<forall>s c r x s'. fw_set_sys F s c r x = Inr s' \<longrightarrow>
        fw_get_reg F s' c = fw_get_reg F s c \<and> fw_get_offset F s' c = fw_get_offset F s c) \<and>
     (\<forall>s c b s'. fw_set_mask F s c b = Inr s' \<longrightarrow>
        fw_get_reg F s' c = fw_get_reg F s c \<and> fw_get_offset F s' c = fw_get_offset F s c) \<and>
     (\<forall>s c x s'. fw_set_offset F s c x = Inr s' \<longrightarrow>
        fw_get_reg F s' c = fw_get_reg F s c \<and> fw_get_offset F s' c = Inr x)"

lemma keeps_set_reg:
  "\<lbrakk>keeps_regs F; fw_set_reg F s c r x = Inr s'\<rbrakk> \<Longrightarrow>
     fw_get_reg F s' c r' = (if r' = r then Inr x else fw_get_reg F s c r') \<and>
     fw_get_offset F s' c = fw_get_offset F s c"
  unfolding keeps_regs_def by blast

lemma keeps_restore_sysregs:
  "keeps_regs F \<Longrightarrow> fw_get_reg F (restore_sysregs F c b rs s) c = fw_get_reg F s c \<and>
     fw_get_offset F (restore_sysregs F c b rs s) c = fw_get_offset F s c"
  by (induction F c b rs s rule: restore_sysregs.induct) (auto simp: keeps_regs_def split: sum.splits)

lemma keeps_restore_regs:
  "\<lbrakk>restore_regs F c i xs s = Inr s'; keeps_regs F\<rbrakk> \<Longrightarrow>
     fw_get_reg F s' c r = (if i \<le> r \<and> r < i + length xs then Inr (xs ! (r - i)) else fw_get_reg F s c r)"
proof (induction F c i xs s rule: restore_regs.induct)
  case (2 F c i x xs s)
  then obtain s1 where s1: "fw_set_reg F s c (HV_REG_X0 + i) x = Inr s1" "restore_regs F c (Suc i) xs s1 = Inr s'"
    by (auto simp: try_bind_Inr)
  from "2.IH" [OF s1(2) "2.prems"(2)] keeps_set_reg [OF "2.prems"(2) s1(1), of r] show ?case
    by (auto simp: HV_REG_X0_def nth_Cons' Suc_le_eq)
qed auto

text \<open>A vcpu survives a snapshot: restoring on a fresh vcpu what was captured, and capturing again,
  gives the same general registers, program counter, processor and floating-point status, and a
  virtual counter that continues where it was, advanced only by the time since the offset was set.\<close>

theorem hvf_vcpu_roundtrip:
  assumes "keeps_regs F" "hvf_capture F v c = Inr cs" "hvf_restore F w c cs = Inr w'" "hvf_capture F w' c = Inr cs'"
  shows "cs_x cs' = cs_x cs \<and> cs_pc cs' = cs_pc cs \<and> cs_cpsr cs' = cs_cpsr cs \<and> cs_fpcr cs' = cs_fpcr cs \<and>
     cs_fpsr cs' = cs_fpsr cs \<and> started w' c \<and>
     (\<exists>s1. restore_regs F c 0 (cs_x cs) (fw w) = Inr s1 \<and>
        mono cs' - vtimer_offset cs' = (mono cs - vtimer_offset cs) + (mono cs' - fw_now F s1))"
proof -
  have len: "length (cs_x cs) = 31"
    using assms(2) by (auto simp: hvf_capture_def try_bind_Inr Let_def collect_all_nth)
  obtain s1 s2 s3 s5 s6 s7 s8 where
    r: "restore_regs F c 0 (cs_x cs) (fw w) = Inr s1"
      "fw_set_offset F s1 c (fw_now F s1 - (mono cs - vtimer_offset cs)) = Inr s2" "fw_set_mask F s2 c False = Inr s3"
      "fw_set_reg F (restore_sysregs F c (swgic w \<noteq> None) (sysregs cs) s3) c HV_REG_FPCR (cs_fpcr cs) = Inr s5"
      "fw_set_reg F s5 c HV_REG_FPSR (cs_fpsr cs) = Inr s6" "fw_set_reg F s6 c HV_REG_CPSR (cs_cpsr cs) = Inr s7"
      "fw_set_reg F s7 c HV_REG_PC (cs_pc cs) = Inr s8" and w': "fw w' = s8" "started w' c"
    using assms(3) by (auto simp: hvf_restore_def try_bind_Inr Let_def)
  note keep = keeps_set_reg [OF assms(1) r(7)] keeps_set_reg [OF assms(1) r(6)] keeps_set_reg [OF assms(1) r(5)]
    keeps_set_reg [OF assms(1) r(4)] keeps_restore_sysregs [OF assms(1)]
  have s3: "fw_get_reg F s3 c = fw_get_reg F s1 c" "fw_get_offset F s3 c = Inr (fw_now F s1 - (mono cs - vtimer_offset cs))"
    using assms(1) r(2,3) unfolding keeps_regs_def by metis+
  have off: "fw_get_offset F s8 c = Inr (fw_now F s1 - (mono cs - vtimer_offset cs))"
    using keep s3(2) by simp
  have x: "fw_get_reg F s8 c i = Inr (cs_x cs ! i)" if "i < 31" for i
    using that keep s3(1) keeps_restore_regs [OF r(1) assms(1), of i] len
    by (simp add: HV_REG_PC_def HV_REG_CPSR_def HV_REG_FPSR_def HV_REG_FPCR_def)
  have st: "fw_get_reg F s8 c HV_REG_PC = Inr (cs_pc cs)" "fw_get_reg F s8 c HV_REG_CPSR = Inr (cs_cpsr cs)"
    "fw_get_reg F s8 c HV_REG_FPSR = Inr (cs_fpsr cs)" "fw_get_reg F s8 c HV_REG_FPCR = Inr (cs_fpcr cs)"
    using keep by (simp_all add: HV_REG_PC_def HV_REG_CPSR_def HV_REG_FPSR_def HV_REG_FPCR_def)
  have c': "length (cs_x cs') = 31" "\<forall>k < 31. fw_get_reg F s8 c k = Inr (cs_x cs' ! k)"
    "fw_get_offset F s8 c = Inr (vtimer_offset cs')" "fw_get_reg F s8 c HV_REG_PC = Inr (cs_pc cs')"
    "fw_get_reg F s8 c HV_REG_CPSR = Inr (cs_cpsr cs')" "fw_get_reg F s8 c HV_REG_FPCR = Inr (cs_fpcr cs')"
    "fw_get_reg F s8 c HV_REG_FPSR = Inr (cs_fpsr cs')"
    using assms(4) w'(1) by (auto simp: hvf_capture_def try_bind_Inr Let_def collect_all_nth HV_REG_X0_def)
  have "cs_x cs' = cs_x cs" by (rule nth_equalityI) (use c'(1,2) len x in auto)
  with c' st off w'(2) r(1) show ?thesis by (auto simp: algebra_simps)
qed

theorem hvf_vcpu_roundtrip_witness:
  "\<exists>cs w' cs'. hvf_capture demo_fw demo_hvf 0 = Inr cs \<and>
     hvf_restore demo_fw (demo_hvf\<lparr>fw := (\<lambda>_ _. 0, \<lambda>_. 0)\<rparr>) 0 cs = Inr w' \<and>
     hvf_capture demo_fw w' 0 = Inr cs' \<and> cs_x cs' = cs_x cs \<and> cs_pc cs' = cs_pc cs"
proof -
  have k: "keeps_regs demo_fw" by (auto simp: keeps_regs_def demo_fw_def)
  have all: "\<exists>xs. collect_all (\<lambda>i. fw_get_reg demo_fw s 0 (HV_REG_X0 + i)) is = Inr xs" for s "is"
    by (induction "is") (auto simp: demo_fw_def)
  have cap: "\<exists>cs. hvf_capture demo_fw v 0 = Inr cs" for v
  proof -
    obtain xs where xs: "collect_all (\<lambda>i. fw_get_reg demo_fw (fw v) 0 (HV_REG_X0 + i)) [0..<31] = Inr xs"
      using all by blast
    show ?thesis unfolding hvf_capture_def Let_def xs by (simp add: demo_fw_def)
  qed
  have regs: "restore_regs demo_fw c i xs s \<noteq> Inl e" for c i xs s e
    by (induction demo_fw c i xs s rule: restore_regs.induct) (auto simp: demo_fw_def)
  have set: "fw_set_reg demo_fw s c r x \<noteq> Inl e" "fw_set_offset demo_fw s c x \<noteq> Inl e"
    "fw_set_mask demo_fw s c b \<noteq> Inl e" for s c r x b e
    by (auto simp: demo_fw_def split: prod.split)
  have res: "\<exists>w'. hvf_restore demo_fw w c cs = Inr w'" for w c cs
    unfolding hvf_restore_def Let_def try_bind_def by (simp add: regs set split: sum.split)
  obtain cs where cs: "hvf_capture demo_fw demo_hvf 0 = Inr cs" using cap by blast
  obtain w' where w': "hvf_restore demo_fw (demo_hvf\<lparr>fw := (\<lambda>_ _. 0, \<lambda>_. 0)\<rparr>) 0 cs = Inr w'" using res by blast
  obtain cs' where cs': "hvf_capture demo_fw w' 0 = Inr cs'" using cap by blast
  from hvf_vcpu_roundtrip [OF k cs w' cs'] cs w' cs' show ?thesis by blast
qed


section \<open>The in-kernel controller\<close>

lemma unat_align_down: "unat (w AND NOT (mask k)) = unat w - unat w mod 2 ^ k" for w :: u64
proof -
  have sum: "take_bit k w + (w AND NOT (mask k)) = w"
    by (subst disjunctive_add) (auto simp: bit_simps intro!: bit_eqI)
  have "unat (take_bit k w) = unat w mod 2 ^ k" by (metis unsigned_take_bit_eq take_bit_eq_mod)
  moreover have "w AND NOT (mask k) = w - take_bit k w" using sum by (metis add_diff_cancel_left')
  moreover have "take_bit k w \<le> w" by (simp add: word_le_nat_alt calculation(1))
  ultimately show ?thesis by (simp add: unat_sub)
qed

lemma align_up_pow:
  assumes "k < 32" "unat x < 2 ^ 32"
  shows "unat (align_up x (2 ^ k)) = (unat x + 2 ^ k - 1) div 2 ^ k * 2 ^ k"
proof -
  have k: "(2 :: nat) ^ k \<le> 2 ^ 31" using assms(1) by (intro power_increasing) simp_all
  have "(2 :: u64) ^ k = of_nat (2 ^ k)" by simp
  also have "unat (of_nat (2 ^ k) :: u64) = 2 ^ k" using k by (simp only: unat_of_nat) simp
  finally have p: "unat ((2 :: u64) ^ k) = 2 ^ k" .
  have m: "(2 :: u64) ^ k - 1 = mask k" by (simp add: mask_eq_exp_minus_1)
  have nz: "(2 :: u64) ^ k \<noteq> 0" using p by (metis unat_0 power_not_zero zero_neq_numeral)
  have mk: "unat (mask k :: u64) = 2 ^ k - 1" using unat_minus_one [OF nz] p m by simp
  have "unat (x + mask k) = unat x + unat (mask k :: u64)"
    using k assms(2) mk by (simp add: unat_word_ariths)
  then have add: "unat (x + mask k) = unat x + 2 ^ k - 1" using mk by simp
  have e: "x + 2 ^ k - 1 = x + mask k" using m by (metis add_diff_eq)
  show ?thesis
    unfolding align_up_def e m using add nz by (simp add: unat_align_down minus_mod_eq_div_mult)
qed

text \<open>Placement of the in-kernel controller: when creating it succeeds with sizes below 4 GiB and an
  alignment that is a power of two, the distributor lies below the console and the redistributors lie
  aligned between the console and RAM, all without wrapping.  Nothing keeps them off the virtio
  windows.\<close>

theorem create_gic_layout:
  assumes "fw_gic_sizes F s = Inr (d, r, 2 ^ k)" "k < 32" "unat d < 2 ^ 32" "unat r < 2 ^ 32"
    and "create_gic F s = Inr (g, s')"
  shows "unat (dist_base g) + unat (dist_size g) \<le> unat PL011_BASE \<and>
     unat PL011_BASE + unat PL011_SIZE \<le> unat (redist_base g) \<and> 2 ^ k dvd unat (redist_base g) \<and>
     unat (redist_base g) + unat (redist_size g) \<le> unat RAM_BASE \<and>
     (unat VIRTIO_MMIO_BASE < unat (redist_base g) + unat (redist_size g) \<and> unat (redist_base g) \<le> unat VIRTIO_MMIO_BASE \<longrightarrow>
        in_window (redist_base g) (redist_size g) VIRTIO_MMIO_BASE)"
proof -
  let ?x = "PL011_BASE + PL011_SIZE"
  have xu: "unat ?x = 0x9001000" by (simp add: PL011_BASE_def PL011_SIZE_def)
  have k: "(2 :: nat) ^ k \<le> 2 ^ 31" using assms(2) by (intro power_increasing) simp_all
  have rb: "unat (align_up ?x (2 ^ k)) = (0x9001000 + 2 ^ k - 1) div 2 ^ k * 2 ^ k"
    using align_up_pow [OF assms(2), of ?x] xu by simp
  have up: "n \<le> (n + 2 ^ k - 1) div 2 ^ k * 2 ^ k" "(n + 2 ^ k - 1) div 2 ^ k * 2 ^ k \<le> n + 2 ^ k - 1" for n :: nat
  proof -
    show "(n + 2 ^ k - 1) div 2 ^ k * 2 ^ k \<le> n + 2 ^ k - 1" by (rule div_times_less_eq_dividend)
    have "(n + 2 ^ k - 1) mod 2 ^ k < 2 ^ k" by simp
    moreover have "(n + 2 ^ k - 1) div 2 ^ k * 2 ^ k + (n + 2 ^ k - 1) mod 2 ^ k = n + 2 ^ k - 1"
      by (rule div_mult_mod_eq)
    ultimately show "n \<le> (n + 2 ^ k - 1) div 2 ^ k * 2 ^ k" by linarith
  qed
  have g: "g = \<lparr>dist_base = GIC_DIST_BASE, dist_size = d, redist_base = align_up ?x (2 ^ k), redist_size = r, kind = V3\<rparr>"
    "\<not> PL011_BASE < GIC_DIST_BASE + d" "\<not> RAM_BASE < align_up ?x (2 ^ k) + r"
    using assms(1,5) by (auto simp: create_gic_def Let_def try_bind_Inr split: if_splits)
  have b1: "unat (align_up ?x (2 ^ k)) < 2 ^ 33" unfolding rb by (rule le_less_trans [OF up(2)]) (use k in simp)
  have b2: "0x9001000 \<le> unat (align_up ?x (2 ^ k))" unfolding rb by (rule up(1))
  have b3: "2 ^ k dvd unat (align_up ?x (2 ^ k))" unfolding rb by (rule dvd_triv_right)
  have "unat (GIC_DIST_BASE + d) = unat GIC_DIST_BASE + unat d"
    using assms(3) by (simp add: unat_word_ariths GIC_DIST_BASE_def)
  moreover have sum: "unat (align_up ?x (2 ^ k) + r) = unat (align_up ?x (2 ^ k)) + unat r"
    using assms(4) b1 by (simp add: unat_word_ariths)
  ultimately show ?thesis
    using g b2 b3 xu
    by (auto simp: word_less_nat_alt word_le_nat_alt not_less in_window_def PL011_BASE_def PL011_SIZE_def)
qed

theorem create_gic_layout_witness:
  "\<exists>g s'. create_gic demo_fw (\<lambda>_ _. 0, \<lambda>_. 0) = Inr (g, s') \<and>
     unat (redist_base g) + unat (redist_size g) \<le> unat RAM_BASE"
proof -
  have c: "\<exists>g s'. create_gic demo_fw (\<lambda>_ _. 0, \<lambda>_. 0) = Inr (g, s')"
    by (simp add: create_gic_def demo_fw_def PL011_BASE_def GIC_DIST_BASE_def align_up_def PL011_SIZE_def RAM_BASE_def)
  have s: "fw_gic_sizes demo_fw (\<lambda>_ _. 0, \<lambda>_. 0) = Inr (0x10000, 0x2000000, 2 ^ 16)" by (simp add: demo_fw_def)
  from c obtain g s' where g: "create_gic demo_fw (\<lambda>_ _. 0, \<lambda>_. 0) = Inr (g, s')" by blast
  from create_gic_layout [OF s _ _ _ g] g show ?thesis by auto
qed

end
