(* ===== verification/Lockdown.thy ===== *)
theory Lockdown
  imports Core Text
begin

unbundle bit_operations_syntax

text \<open>
  Privilege dropping, \<open>amber-core/src/lockdown.rs\<close>: the seatbelt profile text, the seccomp filter
  program and the Landlock rules.  The operating system is the record \<open>lk\<close> of outcomes, an argument;
  path handling of the standard library that ends in system calls is passed in.  The meaning of a
  filter program is the documented one of classic BPF for the instructions used.
\<close>

record policy =
  write_paths :: "string list"
  pol_net :: bool


section \<open>The seatbelt profile\<close>

text \<open>\<open>canon\<close> is the canonical form of a path, or of its parent joined with its name.\<close>

definition NL :: string where "NL = [CHR 0x0A]"
definition QUOTE :: string where "QUOTE = [CHR 0x22]"

definition profile_head :: string where
  "profile_head =
     ''(version 1)'' @ NL @ ''(allow default)'' @ NL @ ''(deny process-exec*)'' @ NL @
     ''(deny process-fork)'' @ NL @ ''(deny file-write*)'' @ NL"

definition profile_path :: "string \<Rightarrow> string" where
  "profile_path c = ''(allow file-write* (subpath '' @ QUOTE @ c @ QUOTE @ ''))'' @ NL"

definition sbpl_profile :: "(string \<Rightarrow> string option) \<Rightarrow> policy \<Rightarrow> string" where
  "sbpl_profile canon p =
     profile_head @
     concat (map (\<lambda>path. case canon path of None \<Rightarrow> [] | Some c \<Rightarrow> profile_path c) (write_paths p)) @
     (if pol_net p then [] else ''(deny network*)'' @ NL)"


section \<open>The seccomp filter\<close>

record sock_filter =
  sf_code :: u16
  sf_jt :: u8
  sf_jf :: u8
  sf_k :: u32

definition BPF_LD :: u16 where "BPF_LD = 0x00"
definition BPF_W :: u16 where "BPF_W = 0x00"
definition BPF_ABS :: u16 where "BPF_ABS = 0x20"
definition BPF_JMP :: u16 where "BPF_JMP = 0x05"
definition BPF_JEQ :: u16 where "BPF_JEQ = 0x10"
definition BPF_RET :: u16 where "BPF_RET = 0x06"
definition BPF_K :: u16 where "BPF_K = 0x00"
definition RET_KILL_PROCESS :: u32 where "RET_KILL_PROCESS = 0x80000000"
definition RET_ERRNO :: u32 where "RET_ERRNO = 0x00050000"
definition RET_ALLOW :: u32 where "RET_ALLOW = 0x7fff0000"
definition ARCH_AARCH64 :: u32 where "ARCH_AARCH64 = 0xc00000b7"
definition OFF_NR :: u32 where "OFF_NR = 0"
definition OFF_ARCH :: u32 where "OFF_ARCH = 4"
definition NR_EXECVE :: u32 where "NR_EXECVE = 221"
definition NR_EXECVEAT :: u32 where "NR_EXECVEAT = 281"
definition NR_SOCKET :: u32 where "NR_SOCKET = 198"
definition EPERM :: u32 where "EPERM = 1"

definition stmt :: "u16 \<Rightarrow> u32 \<Rightarrow> sock_filter" where
  "stmt c k = \<lparr>sf_code = c, sf_jt = 0, sf_jf = 0, sf_k = k\<rparr>"

definition jump :: "u16 \<Rightarrow> u32 \<Rightarrow> u8 \<Rightarrow> u8 \<Rightarrow> sock_filter" where
  "jump c k jt jf = \<lparr>sf_code = c, sf_jt = jt, sf_jf = jf, sf_k = k\<rparr>"

definition deny :: "u32 \<Rightarrow> sock_filter list" where
  "deny sysno =
     [jump (BPF_JMP OR BPF_JEQ OR BPF_K) sysno 0 1, stmt (BPF_RET OR BPF_K) (RET_ERRNO OR EPERM)]"

definition seccomp_prog :: "bool \<Rightarrow> sock_filter list" where
  "seccomp_prog net =
     [stmt (BPF_LD OR BPF_W OR BPF_ABS) OFF_ARCH,
      jump (BPF_JMP OR BPF_JEQ OR BPF_K) ARCH_AARCH64 1 0,
      stmt (BPF_RET OR BPF_K) RET_KILL_PROCESS,
      stmt (BPF_LD OR BPF_W OR BPF_ABS) OFF_NR] @
     deny NR_EXECVE @ deny NR_EXECVEAT @ (if net then [] else deny NR_SOCKET) @
     [stmt (BPF_RET OR BPF_K) RET_ALLOW]"

text \<open>Classic BPF on the words of the system call data: an absolute load sets the accumulator, an
  equality jump skips \<open>jt\<close> or \<open>jf\<close> instructions, a return ends the program.  Falling off the end, an
  unknown instruction or an absent word is \<open>None\<close>, which the kernel's checker refuses.\<close>

function bpf_run :: "(u32 \<Rightarrow> u32 option) \<Rightarrow> u32 \<Rightarrow> sock_filter list \<Rightarrow> u32 option" where
  "bpf_run data acc [] = None"
| "bpf_run data acc (i # is) =
     (if sf_code i = 0x20 then (case data (sf_k i) of None \<Rightarrow> None | Some x \<Rightarrow> bpf_run data x is)
      else if sf_code i = 0x15 then
        bpf_run data acc (drop (unat (if acc = sf_k i then sf_jt i else sf_jf i)) is)
      else if sf_code i = 0x06 then Some (sf_k i)
      else None)"
  by pat_completeness auto
termination
  by (relation "measure (\<lambda>(_, _, is). length is)") auto

definition seccomp_data :: "u32 \<Rightarrow> u32 \<Rightarrow> u32 \<Rightarrow> u32 option" where
  "seccomp_data nr arch off = (if off = 0 then Some nr else if off = 4 then Some arch else None)"


section \<open>Landlock and the order of application\<close>

definition FS_WRITE :: u64 where
  "FS_WRITE = push_bit 1 1 OR push_bit 4 1 OR push_bit 5 1 OR push_bit 6 1 OR push_bit 7 1 OR
     push_bit 8 1 OR push_bit 9 1 OR push_bit 10 1 OR push_bit 11 1 OR push_bit 12 1"

record lk =
  lk_no_new_privs :: bool
  ll_abi :: int
  ll_create :: bool
  ll_open :: "string \<Rightarrow> bool"
  ll_add :: "string \<Rightarrow> u64 \<Rightarrow> bool"
  ll_restrict :: bool
  sc_install :: "sock_filter list \<Rightarrow> bool"
  path_parent :: "string \<Rightarrow> string"

text \<open>The paths rules are added for: the path itself, its parent when it cannot be opened, none when
  neither can.\<close>

fun add_rules :: "lk \<Rightarrow> string list \<Rightarrow> string list option" where
  "add_rules K [] = Some []"
| "add_rules K (p # ps) =
     (if CHR 0x00 \<in> set p then None
      else if ll_open K p then
        (if ll_add K p FS_WRITE then map_option ((#) p) (add_rules K ps) else None)
      else if CHR 0x00 \<in> set (path_parent K p) then None
      else if ll_open K (path_parent K p) then
        (if ll_add K (path_parent K p) FS_WRITE then map_option ((#) (path_parent K p)) (add_rules K ps) else None)
      else add_rules K ps)"

text \<open>What a process is confined to: the writable directories, or no confinement.\<close>

datatype fs_access = Unconfined | Beneath "string list"

definition install_landlock :: "lk \<Rightarrow> string list \<Rightarrow> fs_access option" where
  "install_landlock K paths =
     (if ll_abi K < 1 then Some Unconfined
      else if \<not> ll_create K then None
      else case add_rules K paths of
        None \<Rightarrow> None
      | Some rules \<Rightarrow> if ll_restrict K then Some (Beneath rules) else None)"

definition install_seccomp :: "lk \<Rightarrow> bool \<Rightarrow> sock_filter list option" where
  "install_seccomp K net =
     (if \<not> lk_no_new_privs K \<or> \<not> sc_install K (seccomp_prog net) then None else Some (seccomp_prog net))"

definition lockdown_apply :: "lk \<Rightarrow> policy \<Rightarrow> (fs_access \<times> sock_filter list) option" where
  "lockdown_apply K p =
     (if \<not> lk_no_new_privs K then None
      else case install_landlock K (write_paths p) of
        None \<Rightarrow> None
      | Some fs \<Rightarrow> map_option (\<lambda>prog. (fs, prog)) (install_seccomp K (pol_net p)))"


section \<open>Laws\<close>

lemma bpf_load: "bpf_run data acc (stmt (BPF_LD OR BPF_W OR BPF_ABS) off # is) =
     (case data off of None \<Rightarrow> None | Some x \<Rightarrow> bpf_run data x is)"
  by (simp add: stmt_def BPF_LD_def BPF_W_def BPF_ABS_def)

lemma bpf_ret: "bpf_run data acc (stmt (BPF_RET OR BPF_K) v # is) = Some v"
  by (simp add: stmt_def BPF_RET_def BPF_K_def)

lemma bpf_jeq: "bpf_run data acc (jump (BPF_JMP OR BPF_JEQ OR BPF_K) x jt jf # is) =
     bpf_run data acc (drop (unat (if acc = x then jt else jf)) is)"
  by (simp add: jump_def BPF_JMP_def BPF_JEQ_def BPF_K_def)

lemma bpf_deny: "bpf_run data acc (deny x @ is) = (if acc = x then Some (RET_ERRNO OR EPERM) else bpf_run data acc is)"
  by (simp add: deny_def bpf_jeq bpf_ret del: bpf_run.simps)

lemma add_rules_sub:
  "add_rules K ps = Some rs \<Longrightarrow> set rs \<subseteq> set ps \<union> path_parent K ` {p \<in> set ps. \<not> ll_open K p}"
  by (induction K ps arbitrary: rs rule: add_rules.induct) (fastforce split: if_splits)+

end
