(* ===== verification/Lockdown_Props.thy ===== *)
theory Lockdown_Props
  imports Lockdown Machine_Props
begin

text \<open>
  What a virtual machine's process may still do after it locked itself down, from its configuration
  to the verdict on a system call.
\<close>

definition policy_of :: "('nb, 'vb, 's) vm \<Rightarrow> policy" where
  "policy_of vm = \<lparr>write_paths = fst (lockdown_policy vm), pol_net = snd (lockdown_policy vm)\<rparr>"

lemma seccomp_verdict:
  "bpf_run (seccomp_data nr arch) acc (seccomp_prog net) =
     Some (if arch \<noteq> ARCH_AARCH64 then RET_KILL_PROCESS
           else if nr = NR_EXECVE \<or> nr = NR_EXECVEAT \<or> (nr = NR_SOCKET \<and> \<not> net) then RET_ERRNO OR EPERM
           else RET_ALLOW)"
proof -
  have d: "seccomp_data n a OFF_ARCH = Some a" "seccomp_data n a OFF_NR = Some n" for n a
    by (simp_all add: seccomp_data_def OFF_ARCH_def OFF_NR_def)
  show ?thesis
    by (simp add: d seccomp_prog_def bpf_load bpf_jeq bpf_ret bpf_deny del: bpf_run.simps)
qed


definition demo_lk :: lk where
  "demo_lk = \<lparr>lk_no_new_privs = True, ll_abi = 1, ll_create = True, ll_open = (\<lambda>_. True), ll_add = (\<lambda>_ _. True),
              ll_restrict = True, sc_install = (\<lambda>_. True), path_parent = (\<lambda>p. p)\<rparr>"


end
