(* ===== verification/Cpio.thy ===== *)
theory Cpio
  imports Prelude
begin

text \<open>
  The archive writer for the bootstrap initramfs, \<open>amber-image/src/cpio.rs\<close>, before compression (the
  gzip encoder is the flate2 crate), and a reader of the newc format against which it is checked.
  Strings are their UTF-8 bytes.
\<close>

section \<open>The writer\<close>

definition S_IFDIR :: u32 where "S_IFDIR = 0x4000"
definition S_IFREG :: u32 where "S_IFREG = 0x8000"
definition S_IFLNK :: u32 where "S_IFLNK = 0xa000"
definition S_IFCHR :: u32 where "S_IFCHR = 0x2000"

record cpio =
  cpio_buf :: bytes
  cpio_ino :: u32

definition cpio_new :: cpio where
  "cpio_new = \<lparr>cpio_buf = [], cpio_ino = 0\<rparr>"

definition hex_digit :: "u32 \<Rightarrow> u8" where
  "hex_digit d = (if d < 10 then 48 + ucast d else 87 + ucast d)"

text \<open>\<open>{f:08x}\<close>.\<close>

definition hex8 :: "u32 \<Rightarrow> bytes" where
  "hex8 f = map (\<lambda>i. hex_digit (drop_bit (4 * i) f AND 0xf)) [7, 6, 5, 4, 3, 2, 1, 0]"

definition header :: "u32 \<Rightarrow> u32 \<Rightarrow> nat \<Rightarrow> nat \<Rightarrow> u32 \<times> u32 \<Rightarrow> u32 \<Rightarrow> bytes" where
  "header ino mode filesize namesize rdev nlink =
     [48, 55, 48, 55, 48, 49] @
     concat (map hex8 [ino, mode, 0, 0, nlink, 0, of_nat filesize, 0, 0, fst rdev, snd rdev, of_nat namesize, 0])"

definition pad4 :: "bytes \<Rightarrow> bytes" where
  "pad4 buf = buf @ replicate ((4 - length buf mod 4) mod 4) 0"

definition cpio_record :: "bytes \<Rightarrow> u32 \<Rightarrow> bytes \<Rightarrow> u32 \<times> u32 \<Rightarrow> cpio \<Rightarrow> cpio" where
  "cpio_record name mode data rdev c =
     (let ino = cpio_ino c + 1;
          name_z = name @ [0];
          hdr = header ino mode (length data) (length name_z) rdev 1
      in \<lparr>cpio_buf = pad4 (pad4 (cpio_buf c @ hdr @ name_z) @ data), cpio_ino = ino\<rparr>)"

definition cpio_dir :: "bytes \<Rightarrow> u32 \<Rightarrow> cpio \<Rightarrow> cpio" where
  "cpio_dir name mode = cpio_record name (S_IFDIR OR mode) [] (0, 0)"

definition cpio_file :: "bytes \<Rightarrow> bytes \<Rightarrow> u32 \<Rightarrow> cpio \<Rightarrow> cpio" where
  "cpio_file name data mode = cpio_record name (S_IFREG OR mode) data (0, 0)"

definition cpio_symlink :: "bytes \<Rightarrow> bytes \<Rightarrow> cpio \<Rightarrow> cpio" where
  "cpio_symlink name target = cpio_record name (S_IFLNK OR 0x1ff) target (0, 0)"

definition cpio_char_dev :: "bytes \<Rightarrow> u32 \<Rightarrow> u32 \<Rightarrow> u32 \<Rightarrow> cpio \<Rightarrow> cpio" where
  "cpio_char_dev name mode major minor = cpio_record name (S_IFCHR OR mode) [] (major, minor)"

definition TRAILER :: bytes where
  "TRAILER = [84, 82, 65, 73, 76, 69, 82, 33, 33, 33]"

definition cpio_finish :: "cpio \<Rightarrow> bytes" where
  "cpio_finish c = pad4 (cpio_buf c @ header 0 0 0 (length (TRAILER @ [0])) (0, 0) 1 @ TRAILER @ [0])"


section \<open>A reader of the format\<close>

record cpio_entry =
  ce_ino :: u32
  ce_mode :: u32
  ce_rdev :: "u32 \<times> u32"
  ce_name :: bytes
  ce_data :: bytes

definition unhex_digit :: "u8 \<Rightarrow> u32" where
  "unhex_digit b = (if b < 58 then ucast b - 48 else ucast b - 87)"

definition unhex :: "bytes \<Rightarrow> u32" where
  "unhex bs = foldl (\<lambda>acc b. push_bit 4 acc OR unhex_digit b) 0 bs"

definition round4 :: "nat \<Rightarrow> nat" where
  "round4 n = n + (4 - n mod 4) mod 4"

definition field :: "nat \<Rightarrow> bytes \<Rightarrow> u32" where
  "field i bs = unhex (take 8 (drop (6 + 8 * i) bs))"

text \<open>One entry: the 110-byte header, the name of \<open>namesize\<close> bytes padded with the header to a
  multiple of four, the data padded likewise.\<close>

definition read_entry :: "bytes \<Rightarrow> (cpio_entry \<times> bytes) option" where
  "read_entry bs =
     (let namesize = unat (field 11 bs); filesize = unat (field 6 bs); start = round4 (110 + namesize)
      in if length bs < 110 \<or> take 6 bs \<noteq> [48, 55, 48, 55, 48, 49] \<or> namesize = 0 \<or>
            length bs < round4 (start + filesize) then None
         else Some (\<lparr>ce_ino = field 0 bs, ce_mode = field 1 bs, ce_rdev = (field 9 bs, field 10 bs),
                     ce_name = take (namesize - 1) (drop 110 bs), ce_data = take filesize (drop start bs)\<rparr>,
                    drop (round4 (start + filesize)) bs))"

text \<open>The entries up to the trailer; every entry takes at least the header, so the length is fuel enough.\<close>

fun read_archive :: "nat \<Rightarrow> bytes \<Rightarrow> cpio_entry list option" where
  "read_archive 0 bs = None"
| "read_archive (Suc n) bs =
     (case read_entry bs of
        None \<Rightarrow> None
      | Some (e, rest) \<Rightarrow>
          if ce_name e = TRAILER then Some [] else map_option ((#) e) (read_archive n rest))"


section \<open>Laws\<close>

lemma hex_digit_round: "d < 16 \<Longrightarrow> unhex_digit (hex_digit d) = d"
proof -
  assume d: "d < 16"
  then have "unat d < 16" by (simp add: word_less_nat_alt)
  moreover have "\<forall>n \<in> set [0..<16]. unhex_digit (hex_digit (of_nat n)) = of_nat n" by code_simp
  ultimately have "unhex_digit (hex_digit (of_nat (unat d))) = of_nat (unat d)"
    by (metis atLeastLessThan_iff set_upt zero_le)
  then show ?thesis by simp
qed

lemma length_hex8 [simp]: "length (hex8 f) = 8"
  by (simp add: hex8_def)

lemma nibble_less: "x AND 0xf < (16 :: u32)"
proof -
  have "x AND 0xf = take_bit 4 x" by (simp add: take_bit_eq_mask mask_eq_exp_minus_1)
  then show ?thesis by (simp add: word_less_nat_alt unsigned_take_bit_eq take_bit_nat_def)
qed

lemma nibble_step: "push_bit 4 (drop_bit (n + 4) f) OR (drop_bit n f AND 0xf) = drop_bit n f" for f :: u32
proof -
  have m: "(0xf :: u32) = mask 4" by (simp add: mask_eq_exp_minus_1)
  show ?thesis unfolding m by (rule bit_word_eqI) (auto simp: bit_simps algebra_simps)
qed

lemma nibble_top: "drop_bit 28 f AND 0xf = drop_bit 28 f" for f :: u32
proof -
  have m: "(0xf :: u32) = mask 4" by (simp add: mask_eq_exp_minus_1)
  show ?thesis unfolding m by (rule bit_word_eqI) (auto simp: bit_simps dest: bit_imp_le_length)
qed

lemma unhex_hex8 [simp]: "unhex (hex8 f) = f"
proof -
  have "unhex (hex8 f) = foldl (\<lambda>acc i. push_bit 4 acc OR (drop_bit (4 * i) f AND 0xf)) 0 [7, 6, 5, 4, 3, 2, 1, 0]"
    by (simp add: unhex_def hex8_def hex_digit_round [OF nibble_less])
  also have "\<dots> = f"
    using nibble_step [of 24 f] nibble_step [of 20 f] nibble_step [of 16 f] nibble_step [of 12 f]
      nibble_step [of 8 f] nibble_step [of 4 f] nibble_step [of 0 f] nibble_top [of f]
    by simp
  finally show ?thesis .
qed

lemma length_header [simp]: "length (header ino mode fsz nsz rdev nlink) = 110"
  by (simp add: header_def)

lemma field_header:
  "field 0 (header ino mode fsz nsz rdev nlink @ bs) = ino" "field 1 (header ino mode fsz nsz rdev nlink @ bs) = mode"
  "field 6 (header ino mode fsz nsz rdev nlink @ bs) = of_nat fsz"
  "field 9 (header ino mode fsz nsz rdev nlink @ bs) = fst rdev"
  "field 10 (header ino mode fsz nsz rdev nlink @ bs) = snd rdev"
  "field 11 (header ino mode fsz nsz rdev nlink @ bs) = of_nat nsz"
  by (simp_all add: field_def header_def)

lemma magic_header: "take 6 (header ino mode fsz nsz rdev nlink @ bs) = [48, 55, 48, 55, 48, 49]"
  by (simp add: header_def)

lemma length_pad4: "length (pad4 bs) = round4 (length bs)"
  by (simp add: pad4_def round4_def)

lemma round4_dvd [simp]: "4 dvd round4 n"
proof -
  have "n mod 4 < 4" by simp
  then consider "n mod 4 = 0" | "n mod 4 = 1" | "n mod 4 = 2" | "n mod 4 = 3" by linarith
  then have "round4 n mod 4 = 0"
  proof cases
    case 2
    have "(n + 3) mod 4 = (n mod 4 + 3) mod 4" by (simp add: mod_add_left_eq)
    then show ?thesis using 2 by (simp add: round4_def)
  qed (simp_all add: round4_def mod_Suc)
  then show ?thesis by (simp add: mod_eq_0_iff_dvd)
qed

lemma round4_id: "4 dvd n \<Longrightarrow> round4 n = n"
  by (auto simp: round4_def)

lemma round4_ge: "n \<le> round4 n"
  by (simp add: round4_def)

lemma pad4_append: "4 dvd length a \<Longrightarrow> pad4 (a @ b) = a @ pad4 b"
  by (auto simp: pad4_def elim!: dvdE)

lemma take_pad4: "n \<le> length bs \<Longrightarrow> take n (pad4 bs @ r) = take n bs"
  by (simp add: pad4_def)

text \<open>What one record appends.\<close>

definition record_bytes :: "u32 \<Rightarrow> bytes \<Rightarrow> u32 \<Rightarrow> bytes \<Rightarrow> u32 \<times> u32 \<Rightarrow> bytes" where
  "record_bytes ino name mode data rdev =
     pad4 (header ino mode (length data) (length name + 1) rdev 1 @ name @ [0]) @ pad4 data"

lemma cpio_record_append:
  assumes "4 dvd length (cpio_buf c)"
  shows "cpio_record name mode data rdev c =
      \<lparr>cpio_buf = cpio_buf c @ record_bytes (cpio_ino c + 1) name mode data rdev, cpio_ino = cpio_ino c + 1\<rparr>"
  using assms by (simp add: cpio_record_def record_bytes_def Let_def pad4_append length_pad4)

lemma length_record_dvd: "4 dvd length (record_bytes ino name mode data rdev)"
  by (simp add: record_bytes_def length_pad4)

lemma round4_add: "4 dvd m \<Longrightarrow> round4 (m + n) = m + round4 n"
  by (auto simp: round4_def elim!: dvdE)

lemma drop_prefix: "length a = n \<Longrightarrow> drop n (a @ b) = b"
  by simp

lemma of32: "n < 2 ^ 32 \<Longrightarrow> unat (of_nat n :: u32) = n"
  by (simp add: unat_of_nat)

lemma read_entry_record:
  assumes "length data < 2 ^ 32" "length name + 1 < 2 ^ 32"
  shows "read_entry (record_bytes ino name mode data rdev @ rest) =
      Some (\<lparr>ce_ino = ino, ce_mode = mode, ce_rdev = rdev, ce_name = name, ce_data = data\<rparr>, rest)"
proof -
  let ?h = "header ino mode (length data) (length name + 1) rdev 1"
  let ?p = "replicate ((4 - (111 + length name) mod 4) mod 4) 0 :: bytes"
  have bs: "record_bytes ino name mode data rdev @ rest = ?h @ name @ [0] @ ?p @ pad4 data @ rest"
    by (simp add: record_bytes_def pad4_def)
  have n: "unat (of_nat (length name + 1) :: u32) = length name + 1" "unat (of_nat (length data) :: u32) = length data"
    using of32 [OF assms(2)] of32 [OF assms(1)] by blast+
  have st: "length (?h @ name @ [0] @ ?p) = round4 (110 + (length name + 1))" by (simp add: round4_def)
  have all: "round4 (round4 (110 + (length name + 1)) + length data) = length (?h @ name @ [0] @ ?p @ pad4 data)"
    using st by (simp add: round4_add length_pad4)
  have drop1: "drop (round4 (110 + (length name + 1))) (?h @ name @ [0] @ ?p @ pad4 data @ rest) = pad4 data @ rest"
    using drop_prefix [OF st, of "pad4 data @ rest"] by simp
  have drop2: "drop (round4 (round4 (110 + (length name + 1)) + length data)) (?h @ name @ [0] @ ?p @ pad4 data @ rest) = rest"
    using drop_prefix [OF all [symmetric], of rest] by simp
  have len: "\<not> length (?h @ name @ [0] @ ?p @ pad4 data @ rest) < round4 (round4 (110 + (length name + 1)) + length data)"
    unfolding all by simp
  show ?thesis
    unfolding bs read_entry_def Let_def field_header magic_header n drop1 drop2 take_pad4 [OF order_refl]
    using len by (simp add: prod_eq_iff)
qed

text \<open>An archive of a list of records: name, mode, data and device number.\<close>

definition cpio_of :: "(bytes \<times> u32 \<times> bytes \<times> (u32 \<times> u32)) list \<Rightarrow> cpio \<Rightarrow> cpio" where
  "cpio_of rs c = foldl (\<lambda>c (name, mode, data, rdev). cpio_record name mode data rdev c) c rs"

fun cpio_entries :: "u32 \<Rightarrow> (bytes \<times> u32 \<times> bytes \<times> (u32 \<times> u32)) list \<Rightarrow> cpio_entry list" where
  "cpio_entries ino [] = []"
| "cpio_entries ino ((name, mode, data, rdev) # rs) =
     \<lparr>ce_ino = ino + 1, ce_mode = mode, ce_rdev = rdev, ce_name = name, ce_data = data\<rparr> # cpio_entries (ino + 1) rs"

definition records_ok :: "(bytes \<times> u32 \<times> bytes \<times> (u32 \<times> u32)) list \<Rightarrow> bool" where
  "records_ok rs \<longleftrightarrow>
     (\<forall>(name, mode, data, rdev) \<in> set rs. length data < 2 ^ 32 \<and> length name + 1 < 2 ^ 32 \<and> name \<noteq> TRAILER)"

lemma cpio_finish_trailer:
  "4 dvd length (cpio_buf c) \<Longrightarrow> cpio_finish c = cpio_buf c @ record_bytes 0 TRAILER 0 [] (0, 0)"
  by (simp add: cpio_finish_def record_bytes_def pad4_append) (simp add: pad4_def)

lemma cpio_of_bytes:
  assumes "4 dvd length (cpio_buf c)" "records_ok rs"
  shows "\<exists>bs. cpio_finish (cpio_of rs c) = cpio_buf c @ bs \<and>
     read_archive (Suc (length rs)) bs = Some (cpio_entries (cpio_ino c) rs)"
  using assms
proof (induction rs arbitrary: c)
  case Nil
  have "read_entry (record_bytes 0 TRAILER 0 [] (0, 0) @ []) =
      Some (\<lparr>ce_ino = 0, ce_mode = 0, ce_rdev = (0, 0), ce_name = TRAILER, ce_data = []\<rparr>, [])"
    by (rule read_entry_record) (simp_all add: TRAILER_def)
  then show ?case using Nil(1) by (simp add: cpio_of_def cpio_finish_trailer)
next
  case (Cons r rs)
  obtain name mode data rdev where r: "r = (name, mode, data, rdev)" by (cases r)
  let ?c = "cpio_record name mode data rdev c"
  let ?b = "record_bytes (cpio_ino c + 1) name mode data rdev"
  have c: "?c = \<lparr>cpio_buf = cpio_buf c @ ?b, cpio_ino = cpio_ino c + 1\<rparr>"
    by (rule cpio_record_append [OF Cons.prems(1)])
  have ok: "records_ok rs" "length data < 2 ^ 32" "length name + 1 < 2 ^ 32" "name \<noteq> TRAILER"
    using Cons.prems(2) r by (auto simp: records_ok_def)
  have dvd: "4 dvd length (cpio_buf ?c)" using Cons.prems(1) c by (simp add: length_record_dvd)
  from Cons.IH [OF this ok(1)] obtain bs where
    bs: "cpio_finish (cpio_of rs ?c) = cpio_buf ?c @ bs"
      "read_archive (Suc (length rs)) bs = Some (cpio_entries (cpio_ino ?c) rs)" by blast
  have "read_archive (Suc (length (r # rs))) (?b @ bs) = Some (cpio_entries (cpio_ino c) (r # rs))"
    using bs(2) c r ok(4) by (simp add: read_entry_record [OF ok(2,3)] del: read_archive.simps(1)) 
  moreover have "cpio_finish (cpio_of (r # rs) c) = cpio_buf c @ ?b @ bs"
    using bs(1) c r by (simp add: cpio_of_def)
  ultimately show ?case by blast
qed


text \<open>C40. An archive reads back: whatever entries are recorded, in whatever order, the finished archive
  parses to exactly them, with consecutive inode numbers from one, their modes, device numbers, names
  and contents, for names other than the trailer's and sizes below 4 GiB.\<close>

theorem cpio_roundtrip:
  assumes "records_ok rs"
  shows "read_archive (Suc (length rs)) (cpio_finish (cpio_of rs cpio_new)) = Some (cpio_entries 0 rs)"
  using cpio_of_bytes [OF _ assms, of cpio_new] by (auto simp: cpio_new_def)

theorem cpio_roundtrip_witness:
  "records_ok [([105], S_IFDIR OR 0x1ed, [], 0, 0), ([97, 98], S_IFREG OR 0x1a4, [1, 2, 3], 0, 0)] \<and>
   read_archive 3 (cpio_finish (cpio_file [97, 98] [1, 2, 3] 0x1a4 (cpio_dir [105] 0x1ed cpio_new))) =
     Some [\<lparr>ce_ino = 1, ce_mode = S_IFDIR OR 0x1ed, ce_rdev = (0, 0), ce_name = [105], ce_data = []\<rparr>,
           \<lparr>ce_ino = 2, ce_mode = S_IFREG OR 0x1a4, ce_rdev = (0, 0), ce_name = [97, 98], ce_data = [1, 2, 3]\<rparr>]"
proof -
  let ?rs = "[([105], S_IFDIR OR 0x1ed, [], 0, 0), ([97, 98], S_IFREG OR 0x1a4, [1, 2, 3], 0, 0)]"
  have ok: "records_ok ?rs" by (simp add: records_ok_def TRAILER_def)
  show ?thesis
    using cpio_roundtrip [OF ok] ok by (simp add: cpio_of_def cpio_dir_def cpio_file_def eval_nat_numeral)
qed

end
