(* ===== verification/Fs.thy ===== *)
theory Fs
  imports Prelude "HOL-Library.Sublist"
begin

text \<open>
  The part of a Unix file system that unpacking an image relies on: a tree of directories, files and
  symbolic links, path resolution with the kernel's limit on links, and the calls of
  \<^verbatim>\<open>std::fs\<close> used by \<^verbatim>\<open>flatten.rs\<close>.  A location is the list of
  names from the root; a path is a list of components that may also be empty (a trailing slash), a dot
  or two dots.  Permission checks and failing disks are not part of the model.
\<close>

section \<open>Paths\<close>

fun split_on :: "char \<Rightarrow> string \<Rightarrow> string list" where
  "split_on c [] = [[]]"
| "split_on c (x # xs) =
     (if x = c then [] # split_on c xs
      else case split_on c xs of [] \<Rightarrow> [[x]] | w # ws \<Rightarrow> (x # w) # ws)"

definition normal_name :: "string \<Rightarrow> bool" where
  "normal_name n \<longleftrightarrow> n \<noteq> '''' \<and> n \<noteq> ''.'' \<and> n \<noteq> ''..''"

definition absolute :: "string \<Rightarrow> bool" where
  "absolute t \<longleftrightarrow> t \<noteq> [] \<and> hd t = CHR ''/''"

text \<open>\<open>Path::parent\<close> ignores trailing slashes and dots.\<close>

definition parent :: "string list \<Rightarrow> string list option" where
  "parent p =
     (case dropWhile (\<lambda>c. c = '''' \<or> c = ''.'') (rev p) of [] \<Rightarrow> None | _ # cs \<Rightarrow> Some (rev cs))"

lemma parent_length: "parent p = Some d \<Longrightarrow> length d < length p"
proof -
  assume "parent p = Some d"
  then obtain x where "dropWhile (\<lambda>c. c = '''' \<or> c = ''.'') (rev p) = x # rev d"
    by (auto simp: parent_def split: list.splits)
  then have "length (x # rev d) \<le> length (rev p)"
    by (metis length_dropWhile_le)
  then show ?thesis by simp
qed

lemma parent_snoc [simp]: "normal_name x \<Longrightarrow> parent (p @ [x]) = Some p"
  by (simp add: parent_def normal_name_def)

lemma parent_dotdot: "parent (p @ [''..'']) = Some p"
  by (simp add: parent_def)


section \<open>The tree\<close>

datatype node = DirN u32 | FileN bytes u32 | LinkN string

type_synonym fs = "(string list \<times> node) list"

datatype fs_err = NotFound | NotADirectory | TooManyLinks | AlreadyExists | IsADirectory | NotEmpty | InvalidInput

definition node_at :: "fs \<Rightarrow> string list \<Rightarrow> node option" where
  "node_at fs q = (if q = [] then Some (DirN 0x1ed) else map_of fs q)"

primrec is_dir_node :: "node option \<Rightarrow> bool" where
  "is_dir_node None = False"
| "is_dir_node (Some n) = (case n of DirN _ \<Rightarrow> True | _ \<Rightarrow> False)"

definition MAXLINKS :: nat where "MAXLINKS = 40"

definition link_base :: "string list \<Rightarrow> string \<Rightarrow> string list" where
  "link_base cur t = (if absolute t then [] else cur)"

text \<open>Resolution from a directory, following every link; the second argument is the number of links
  that may still be followed.\<close>

function walk :: "fs \<Rightarrow> nat \<Rightarrow> string list \<Rightarrow> string list \<Rightarrow> fs_err + string list" where
  "walk fs n cur [] = Inr cur"
| "walk fs n cur (c # cs) =
     (if c = '''' \<or> c = ''.'' then walk fs n cur cs
      else if c = ''..'' then walk fs n (butlast cur) cs
      else case node_at fs (cur @ [c]) of
             None \<Rightarrow> Inl NotFound
           | Some (DirN m) \<Rightarrow> walk fs n (cur @ [c]) cs
           | Some (FileN d m) \<Rightarrow> if cs = [] then Inr (cur @ [c]) else Inl NotADirectory
           | Some (LinkN t) \<Rightarrow>
               (case n of
                  0 \<Rightarrow> Inl TooManyLinks
                | Suc k \<Rightarrow> walk fs k (link_base cur t) (split_on CHR ''/'' t @ cs)))"
  by pat_completeness auto
termination
  by (relation "measures [\<lambda>(fs, n, cur, cs). n, \<lambda>(fs, n, cur, cs). length cs]") auto

definition canonicalize :: "fs \<Rightarrow> string list \<Rightarrow> fs_err + string list" where
  "canonicalize fs p = walk fs MAXLINKS [] p"

text \<open>The location a call acts on when it does not follow a link in the last component.\<close>

definition locate :: "fs \<Rightarrow> string list \<Rightarrow> fs_err + string list" where
  "locate fs p =
     (if p = [] \<or> \<not> normal_name (last p) then canonicalize fs p
      else case canonicalize fs (butlast p) of
             Inl e \<Rightarrow> Inl e
           | Inr d \<Rightarrow> if is_dir_node (node_at fs d) then Inr (d @ [last p]) else Inl NotADirectory)"


section \<open>Calls\<close>

definition path_exists :: "fs \<Rightarrow> string list \<Rightarrow> bool" where
  "path_exists fs p = (case canonicalize fs p of Inl e \<Rightarrow> False | Inr q \<Rightarrow> node_at fs q \<noteq> None)"

definition is_dir :: "fs \<Rightarrow> string list \<Rightarrow> bool" where
  "is_dir fs p = (case canonicalize fs p of Inl e \<Rightarrow> False | Inr q \<Rightarrow> is_dir_node (node_at fs q))"

definition symlink_metadata :: "fs \<Rightarrow> string list \<Rightarrow> node option" where
  "symlink_metadata fs p = (case locate fs p of Inl e \<Rightarrow> None | Inr q \<Rightarrow> node_at fs q)"

definition del_node :: "string list \<Rightarrow> fs \<Rightarrow> fs" where
  "del_node q fs = filter (\<lambda>(x, n). x \<noteq> q) fs"

definition del_below :: "string list \<Rightarrow> fs \<Rightarrow> fs" where
  "del_below q fs = filter (\<lambda>(x, n). \<not> strict_prefix q x) fs"

definition add_node :: "string list \<Rightarrow> node \<Rightarrow> fs \<Rightarrow> fs" where
  "add_node q n fs = (q, n) # fs"

definition remove_file :: "fs \<Rightarrow> string list \<Rightarrow> fs \<times> (fs_err + unit)" where
  "remove_file fs p =
     (case locate fs p of
        Inl e \<Rightarrow> (fs, Inl e)
      | Inr q \<Rightarrow> (case node_at fs q of
                    None \<Rightarrow> (fs, Inl NotFound)
                  | Some (DirN m) \<Rightarrow> (fs, Inl IsADirectory)
                  | Some n \<Rightarrow> (del_node q fs, Inr ())))"

text \<open>Removing an emptied directory by its path: a last component that is a dot is invalid, two dots
  name a directory that is not empty, and a link (also under a trailing slash) is no directory.\<close>

definition rmdir :: "fs \<Rightarrow> string list \<Rightarrow> fs \<times> (fs_err + unit)" where
  "rmdir fs p =
     (case dropWhile (\<lambda>c. c = '''') (rev p) of
        [] \<Rightarrow> (fs, Inl NotEmpty)
      | c # cs \<Rightarrow>
          if c = ''.'' then (fs, Inl InvalidInput)
          else if c = ''..'' then (fs, Inl NotEmpty)
          else (case locate fs (rev cs @ [c]) of
                  Inl e \<Rightarrow> (fs, Inl e)
                | Inr q \<Rightarrow> if is_dir_node (node_at fs q) then (del_node q fs, Inr ()) else (fs, Inl NotADirectory)))"

text \<open>\<open>remove_dir_all\<close> opens the path without following a link in its last component, removes what is
  below and then removes the directory itself by its path.\<close>

definition remove_dir_all :: "fs \<Rightarrow> string list \<Rightarrow> fs \<times> (fs_err + unit)" where
  "remove_dir_all fs p =
     (case locate fs p of
        Inl e \<Rightarrow> (fs, Inl e)
      | Inr q \<Rightarrow> (case node_at fs q of
                    None \<Rightarrow> (fs, Inl NotFound)
                  | Some (LinkN t) \<Rightarrow> (del_node q fs, Inr ())
                  | Some (FileN d m) \<Rightarrow> (fs, Inl NotADirectory)
                  | Some (DirN m) \<Rightarrow> rmdir (del_below q fs) p))"

definition mkdir :: "fs \<Rightarrow> string list \<Rightarrow> fs_err + fs" where
  "mkdir fs p =
     (if p = [] \<or> \<not> normal_name (last p) then Inl AlreadyExists
      else case locate fs p of
             Inl e \<Rightarrow> Inl e
           | Inr q \<Rightarrow> if node_at fs q = None then Inr (add_node q (DirN 0x1ed) fs) else Inl AlreadyExists)"

function create_dir_all :: "fs \<Rightarrow> string list \<Rightarrow> fs \<times> (fs_err + unit)" where
  "create_dir_all fs p =
     (case mkdir fs p of
        Inr fs' \<Rightarrow> (fs', Inr ())
      | Inl e \<Rightarrow>
          if e \<noteq> NotFound then (fs, if is_dir fs p then Inr () else Inl e)
          else
            (case parent p of
               None \<Rightarrow> (fs, Inl e)
             | Some d \<Rightarrow>
                 (case create_dir_all fs d of
                    (fs1, Inl e1) \<Rightarrow> (fs1, Inl e1)
                  | (fs1, Inr u) \<Rightarrow>
                      (case mkdir fs1 p of
                         Inr fs2 \<Rightarrow> (fs2, Inr ())
                       | Inl e2 \<Rightarrow> (fs1, if is_dir fs1 p then Inr () else Inl e2)))))"
  by pat_completeness auto
termination
  by (relation "measure (\<lambda>(fs, p). length p)") (auto simp: parent_length)

declare create_dir_all.simps [simp del]

text \<open>Creating a file, link or hard link where nothing is; every caller removed what was there.\<close>

definition create_new :: "fs \<Rightarrow> string list \<Rightarrow> node \<Rightarrow> fs_err + fs" where
  "create_new fs p n =
     (case locate fs p of
        Inl e \<Rightarrow> Inl e
      | Inr q \<Rightarrow> if node_at fs q = None then Inr (add_node q n fs) else Inl AlreadyExists)"

primrec with_mode :: "u32 \<Rightarrow> node \<Rightarrow> node" where
  "with_mode m (DirN k) = DirN (m AND 0xfff)"
| "with_mode m (FileN d k) = FileN d (m AND 0xfff)"
| "with_mode m (LinkN t) = LinkN t"

definition set_permissions :: "fs \<Rightarrow> string list \<Rightarrow> u32 \<Rightarrow> fs" where
  "set_permissions fs p m =
     (case canonicalize fs p of
        Inl e \<Rightarrow> fs
      | Inr q \<Rightarrow> map (\<lambda>(x, n). (x, if x = q then with_mode m n else n)) fs)"

definition children :: "fs \<Rightarrow> string list \<Rightarrow> string list" where
  "children fs q = map last (filter (\<lambda>x. x \<noteq> [] \<and> butlast x = q) (remdups (map fst fs)))"

end
