(* ===== verification/Flatten.thy ===== *)
theory Flatten
  imports Fs
begin

text \<open>
  Unpacking the layers of an image into a directory (\<^verbatim>\<open>amber-image/src/flatten.rs\<close>).  The
  decoded entries of each layer are an argument: gzip and the tar reader are libraries.  Every
  operation returns the file system it leaves behind together with its result, so that a failure keeps
  what was done before it.
\<close>

section \<open>Entries\<close>

datatype entry_kind = Directory | Regular | Continuous | Symlink | Hardlink | OtherEntry

record tar_entry =
  te_path :: string
  te_kind :: entry_kind
  te_mode :: "u32 option"
  te_link :: "string option"
  te_data :: bytes
  te_torn :: bool

datatype img_err = IoError fs_err | PackError | ArchiveError

text \<open>UTF-8 validity, which decides whether a name is looked at as a whiteout.\<close>

fun utf8_ok :: "nat list \<Rightarrow> bool" where
  "utf8_ok [] = True"
| "utf8_ok (a # bs) =
     (if a < 0x80 then utf8_ok bs
      else case bs of
             b # cs \<Rightarrow>
               if 0xc2 \<le> a \<and> a \<le> 0xdf then 0x80 \<le> b \<and> b \<le> 0xbf \<and> utf8_ok cs
               else (case cs of
                       c # ds \<Rightarrow>
                         if 0xe0 \<le> a \<and> a \<le> 0xef
                         then (if a = 0xe0 then 0xa0 else 0x80) \<le> b \<and> b \<le> (if a = 0xed then 0x9f else 0xbf) \<and>
                              0x80 \<le> c \<and> c \<le> 0xbf \<and> utf8_ok ds
                         else (case ds of
                                 d # es \<Rightarrow>
                                   0xf0 \<le> a \<and> a \<le> 0xf4 \<and>
                                   (if a = 0xf0 then 0x90 else 0x80) \<le> b \<and> b \<le> (if a = 0xf4 then 0x8f else 0xbf) \<and>
                                   0x80 \<le> c \<and> c \<le> 0xbf \<and> 0x80 \<le> d \<and> d \<le> 0xbf \<and> utf8_ok es
                               | [] \<Rightarrow> False)
                     | [] \<Rightarrow> False)
           | [] \<Rightarrow> False)"

definition WH_PREFIX :: string where "WH_PREFIX = ''.wh.''"
definition WH_OPAQUE :: string where "WH_OPAQUE = ''.wh..wh..opq''"
definition MAX_TOTAL_BYTES :: nat where "MAX_TOTAL_BYTES = 8 * 2 ^ 30"

definition sanitize :: "string \<Rightarrow> string list option" where
  "sanitize path =
     (if absolute path then None
      else let ns = filter (\<lambda>n. n \<noteq> '''' \<and> n \<noteq> ''.'') (split_on CHR ''/'' path)
           in if ''..'' \<in> set ns \<or> ns = [] then None else Some ns)"

text \<open>The loop of \<open>within_root\<close>, from a directory upwards.\<close>

function climbs_within :: "fs \<Rightarrow> string list \<Rightarrow> string list option \<Rightarrow> bool" where
  "climbs_within fs rt None = False"
| "climbs_within fs rt (Some dir) =
     (case canonicalize fs dir of
        Inr c \<Rightarrow> prefix rt c
      | Inl e \<Rightarrow> climbs_within fs rt (parent dir))"
  by pat_completeness auto
termination
  by (relation "measure (\<lambda>(fs, rt, p). case p of None \<Rightarrow> 0 | Some d \<Rightarrow> Suc (length d))")
    (auto simp: parent_length split: option.splits)

definition within_root :: "fs \<Rightarrow> string list \<Rightarrow> string list \<Rightarrow> bool" where
  "within_root fs rt out = climbs_within fs rt (parent out)"

definition remove_any :: "fs \<Rightarrow> string list \<Rightarrow> fs \<times> (fs_err + unit)" where
  "remove_any fs p =
     (case symlink_metadata fs p of
        None \<Rightarrow> (fs, Inr ())
      | Some n \<Rightarrow> if is_dir_node (Some n) then remove_dir_all fs p else remove_file fs p)"

fun remove_each :: "fs \<Rightarrow> string list \<Rightarrow> string list \<Rightarrow> fs \<times> (fs_err + unit)" where
  "remove_each fs dir [] = (fs, Inr ())"
| "remove_each fs dir (n # ns) =
     (case remove_any fs (dir @ [n]) of
        (fs', Inl e) \<Rightarrow> (fs', Inl e)
      | (fs', Inr u) \<Rightarrow> remove_each fs' dir ns)"

definition clear_dir :: "fs \<Rightarrow> string list \<Rightarrow> fs \<times> (fs_err + unit)" where
  "clear_dir fs dir =
     (if \<not> path_exists fs dir then (fs, Inr ())
      else case canonicalize fs dir of
             Inl e \<Rightarrow> (fs, Inl e)
           | Inr q \<Rightarrow> if is_dir_node (node_at fs q) then remove_each fs dir (children fs q)
                      else (fs, Inl NotADirectory))"

fun ancestor :: "nat \<Rightarrow> string list \<Rightarrow> string list option" where
  "ancestor 0 p = Some p"
| "ancestor (Suc n) p = (case parent p of None \<Rightarrow> None | Some d \<Rightarrow> ancestor n d)"

definition rootfs_root :: "string list \<Rightarrow> string \<Rightarrow> string list option" where
  "rootfs_root out entry_rel =
     (case sanitize entry_rel of None \<Rightarrow> None | Some rel \<Rightarrow> ancestor (length rel) out)"


section \<open>Extracting one entry\<close>

text \<open>Making the parents and clearing the place of an entry.\<close>

definition make_room :: "fs \<Rightarrow> string list \<Rightarrow> fs \<times> (fs_err + unit)" where
  "make_room fs out =
     (case (case parent out of None \<Rightarrow> (fs, Inr ()) | Some d \<Rightarrow> create_dir_all fs d) of
        (fs1, Inl e) \<Rightarrow> (fs1, Inl e)
      | (fs1, Inr u) \<Rightarrow> remove_any fs1 out)"

definition extract_directory :: "fs \<Rightarrow> string list \<Rightarrow> u32 \<Rightarrow> fs \<times> (img_err + nat)" where
  "extract_directory fs out mode =
     (case create_dir_all fs out of
        (fs1, Inl e) \<Rightarrow> (fs1, Inl (IoError e))
      | (fs1, Inr u) \<Rightarrow> (set_permissions fs1 out mode, Inr 0))"

text \<open>At most one byte more than the budget is copied; a reader that fails leaves what it delivered.\<close>

definition extract_regular :: "fs \<Rightarrow> string list \<Rightarrow> u32 \<Rightarrow> bytes \<Rightarrow> bool \<Rightarrow> nat \<Rightarrow> fs \<times> (img_err + nat)" where
  "extract_regular fs out mode data torn budget =
     (case make_room fs out of
        (fs1, Inl e) \<Rightarrow> (fs1, Inl (IoError e))
      | (fs1, Inr u) \<Rightarrow>
          let limit = min (budget + 1) (2 ^ 64 - 1); copied = take limit data
          in case create_new fs1 out (FileN copied 0x1a4) of
               Inl e \<Rightarrow> (fs1, Inl (IoError e))
             | Inr fs2 \<Rightarrow>
                 if torn \<and> length data < limit then (fs2, Inl ArchiveError)
                 else if length copied > budget then (fs2, Inl PackError)
                 else (set_permissions fs2 out mode, Inr (length copied)))"

definition extract_symlink :: "fs \<Rightarrow> string list \<Rightarrow> string option \<Rightarrow> fs \<times> (img_err + nat)" where
  "extract_symlink fs out target =
     (case target of
        None \<Rightarrow> (fs, Inr 0)
      | Some t \<Rightarrow>
          (case make_room fs out of
             (fs1, Inl e) \<Rightarrow> (fs1, Inl (IoError e))
           | (fs1, Inr u) \<Rightarrow>
               if t = [] then (fs1, Inl (IoError NotFound))
               else (case create_new fs1 out (LinkN t) of
                       Inl e \<Rightarrow> (fs1, Inl (IoError e))
                     | Inr fs2 \<Rightarrow> (fs2, Inr 0))))"

text \<open>A hard link duplicates the node, which nothing modifies in place afterwards; where the host
  refuses the link (\<open>linkable\<close>), the content is copied, following a link at the source.\<close>

definition hard_link :: "fs \<Rightarrow> string list \<Rightarrow> string list \<Rightarrow> fs_err + fs" where
  "hard_link fs src out =
     (case locate fs src of
        Inl e \<Rightarrow> Inl e
      | Inr q \<Rightarrow> (case node_at fs q of
                    None \<Rightarrow> Inl NotFound
                  | Some (DirN m) \<Rightarrow> Inl IsADirectory
                  | Some n \<Rightarrow> create_new fs out n))"

definition copy_file :: "fs \<Rightarrow> string list \<Rightarrow> string list \<Rightarrow> fs_err + fs" where
  "copy_file fs src out =
     (case canonicalize fs src of
        Inl e \<Rightarrow> Inl e
      | Inr q \<Rightarrow> (case node_at fs q of
                    Some (FileN d m) \<Rightarrow> create_new fs out (FileN d m)
                  | _ \<Rightarrow> Inl InvalidInput))"

definition extract_link ::
  "(string list \<Rightarrow> bool) \<Rightarrow> fs \<Rightarrow> string list \<Rightarrow> string list \<Rightarrow> string \<Rightarrow> string option \<Rightarrow> fs \<times> (img_err + nat)" where
  "extract_link linkable fs rt out path target =
     (case target of
        None \<Rightarrow> (fs, Inr 0)
      | Some t \<Rightarrow>
          (case rootfs_root out path of
             None \<Rightarrow> (fs, Inr 0)
           | Some link_root \<Rightarrow>
               let src = (case sanitize t of None \<Rightarrow> link_root @ [''''] | Some rel \<Rightarrow> link_root @ rel)
               in if \<not> within_root fs rt src then (fs, Inr 0)
                  else (case make_room fs out of
                          (fs1, Inl e) \<Rightarrow> (fs1, Inl (IoError e))
                        | (fs1, Inr u) \<Rightarrow>
                            (case (if linkable src then hard_link fs1 src out else Inl InvalidInput) of
                               Inr fs2 \<Rightarrow> (fs2, Inr 0)
                             | Inl e \<Rightarrow> (case copy_file fs1 src out of
                                           Inr fs2 \<Rightarrow> (fs2, Inr 0)
                                         | Inl e2 \<Rightarrow> (fs1, Inr 0))))))"

definition extract_entry ::
  "(string list \<Rightarrow> bool) \<Rightarrow> fs \<Rightarrow> string list \<Rightarrow> string list \<Rightarrow> nat \<Rightarrow> tar_entry \<Rightarrow> fs \<times> (img_err + nat)" where
  "extract_entry linkable fs rt out budget e =
     (let mode = (case te_mode e of None \<Rightarrow> 0x1a4 | Some m \<Rightarrow> m)
      in case te_kind e of
           Directory \<Rightarrow> extract_directory fs out mode
         | Regular \<Rightarrow> extract_regular fs out mode (te_data e) (te_torn e) budget
         | Continuous \<Rightarrow> extract_regular fs out mode (te_data e) (te_torn e) budget
         | Symlink \<Rightarrow> extract_symlink fs out (te_link e)
         | Hardlink \<Rightarrow> extract_link linkable fs rt out (te_path e) (te_link e)
         | OtherEntry \<Rightarrow> (fs, Inr 0))"


section \<open>The layers\<close>

definition strip_wh :: "string \<Rightarrow> string option" where
  "strip_wh name = (if prefix WH_PREFIX name then Some (drop (length WH_PREFIX) name) else None)"

definition io_result :: "fs \<times> (fs_err + unit) \<Rightarrow> fs \<times> (img_err + nat)" where
  "io_result r = (fst r, case snd r of Inl e \<Rightarrow> Inl (IoError e) | Inr u \<Rightarrow> Inr 0)"

text \<open>The body of the entry loop, with the path made safe; the result is the number of bytes written.\<close>

definition apply_rel ::
  "(string list \<Rightarrow> bool) \<Rightarrow> string list \<Rightarrow> string list \<Rightarrow> nat \<Rightarrow> string list \<Rightarrow> tar_entry \<Rightarrow> fs \<Rightarrow> fs \<times> (img_err + nat)" where
  "apply_rel linkable dest rt budget rel e fs =
     (let name = last rel; dir = dest @ butlast rel; text = utf8_ok (map of_char name)
      in if text \<and> name = WH_OPAQUE
         then (if within_root fs rt (dir @ [''_'']) then io_result (clear_dir fs dir) else (fs, Inr 0))
         else case (if text then strip_wh name else None) of
                Some target \<Rightarrow>
                  if within_root fs rt (dir @ [target]) then io_result (remove_any fs (dir @ [target]))
                  else (fs, Inr 0)
              | None \<Rightarrow>
                  if within_root fs rt (dest @ rel) then extract_entry linkable fs rt (dest @ rel) budget e
                  else (fs, Inr 0))"

definition apply_entry ::
  "(string list \<Rightarrow> bool) \<Rightarrow> string list \<Rightarrow> string list \<Rightarrow> nat \<Rightarrow> tar_entry \<Rightarrow> fs \<Rightarrow> fs \<times> (img_err + nat)" where
  "apply_entry linkable dest rt budget e fs =
     (case sanitize (te_path e) of
        None \<Rightarrow> (fs, Inr 0)
      | Some rel \<Rightarrow> apply_rel linkable dest rt budget rel e fs)"

text \<open>The entries of all layers in order; an element that is an error stands for a layer that does not
  open or an entry that does not decode.\<close>

fun apply_entries ::
  "(string list \<Rightarrow> bool) \<Rightarrow> string list \<Rightarrow> string list \<Rightarrow> nat \<Rightarrow> nat \<Rightarrow> (img_err + tar_entry) list \<Rightarrow> fs \<Rightarrow>
     fs \<times> (img_err + nat)" where
  "apply_entries linkable dest rt max_total written [] fs = (fs, Inr written)"
| "apply_entries linkable dest rt max_total written (Inl x # es) fs = (fs, Inl x)"
| "apply_entries linkable dest rt max_total written (Inr e # es) fs =
     (case apply_entry linkable dest rt (max_total - written) e fs of
        (fs', Inl x) \<Rightarrow> (fs', Inl x)
      | (fs', Inr n) \<Rightarrow> apply_entries linkable dest rt max_total (written + n) es fs')"

definition flatten_limited ::
  "(string list \<Rightarrow> bool) \<Rightarrow> (img_err + tar_entry) list list \<Rightarrow> string list \<Rightarrow> nat \<Rightarrow> fs \<Rightarrow> fs \<times> (img_err + nat)" where
  "flatten_limited linkable layers dest max_total fs =
     (case (if path_exists fs dest then remove_dir_all fs dest else (fs, Inr ())) of
        (fs1, Inl e) \<Rightarrow> (fs1, Inl (IoError e))
      | (fs1, Inr u) \<Rightarrow>
          (case create_dir_all fs1 dest of
             (fs2, Inl e) \<Rightarrow> (fs2, Inl (IoError e))
           | (fs2, Inr u2) \<Rightarrow>
               (case canonicalize fs2 dest of
                  Inl e \<Rightarrow> (fs2, Inl (IoError e))
                | Inr rt \<Rightarrow> apply_entries linkable dest rt max_total 0 (concat layers) fs2)))"

definition flatten ::
  "(string list \<Rightarrow> bool) \<Rightarrow> (img_err + tar_entry) list list \<Rightarrow> string list \<Rightarrow> fs \<Rightarrow> fs \<times> (img_err + nat)" where
  "flatten linkable layers dest = flatten_limited linkable layers dest MAX_TOTAL_BYTES"

end
