(* ===== verification/Flatten_Laws.thy ===== *)
theory Flatten_Laws
  imports Flatten
begin

text \<open>
  Laws of the file-system calls and of unpacking: which locations a call may change.  Two nodes are the
  same up to the mode of a directory, which is what unpacking may change outside the target.
\<close>

section \<open>Comparing trees\<close>

primrec clear_mode :: "node \<Rightarrow> node" where
  "clear_mode (DirN m) = DirN 0"
| "clear_mode (FileN d m) = FileN d m"
| "clear_mode (LinkN t) = LinkN t"

definition same_node :: "node option \<Rightarrow> node option \<Rightarrow> bool" where
  "same_node a b \<longleftrightarrow> map_option clear_mode a = map_option clear_mode b"

lemma clear_mode_simps [simp]:
  "clear_mode n = FileN d m \<longleftrightarrow> n = FileN d m" "FileN d m = clear_mode n \<longleftrightarrow> n = FileN d m"
  "clear_mode n = LinkN t \<longleftrightarrow> n = LinkN t" "LinkN t = clear_mode n \<longleftrightarrow> n = LinkN t"
  "clear_mode n = DirN k \<longleftrightarrow> k = 0 \<and> (\<exists>m. n = DirN m)" "DirN k = clear_mode n \<longleftrightarrow> k = 0 \<and> (\<exists>m. n = DirN m)"
  by (cases n; auto)+

lemma same_node_refl [simp]: "same_node a a"
  by (simp add: same_node_def)

lemma same_node_sym: "same_node a b \<Longrightarrow> same_node b a"
  by (simp add: same_node_def)

lemma same_node_trans: "same_node a b \<Longrightarrow> same_node b c \<Longrightarrow> same_node a c"
  by (simp add: same_node_def)

lemma same_node_cases:
  "same_node a (Some (FileN d m)) \<longleftrightarrow> a = Some (FileN d m)"
  "same_node a (Some (LinkN t)) \<longleftrightarrow> a = Some (LinkN t)"
  "same_node a (Some (DirN m)) \<longleftrightarrow> (\<exists>k. a = Some (DirN k))"
  "same_node a None \<longleftrightarrow> a = None" "same_node None a \<longleftrightarrow> a = None"
  by (cases a; auto simp: same_node_def)+

lemma is_dir_node_iff: "is_dir_node n \<longleftrightarrow> (\<exists>m. n = Some (DirN m))"
  by (cases n) (auto split: node.splits)

lemma same_node_dir: "same_node a b \<Longrightarrow> is_dir_node a = is_dir_node b"
  by (cases b; cases "the b") (auto simp: same_node_cases is_dir_node_iff)

text \<open>Every node of the first tree is in the second.\<close>

definition sub_fs :: "fs \<Rightarrow> fs \<Rightarrow> bool" where
  "sub_fs fs fs' \<longleftrightarrow> (\<forall>q. node_at fs q \<noteq> None \<longrightarrow> same_node (node_at fs' q) (node_at fs q))"

text \<open>The trees differ only strictly below a location, up to modes.\<close>

definition confined :: "string list \<Rightarrow> fs \<Rightarrow> fs \<Rightarrow> bool" where
  "confined rt fs fs' \<longleftrightarrow> (\<forall>q. \<not> strict_prefix rt q \<longrightarrow> same_node (node_at fs' q) (node_at fs q))"

text \<open>Names are proper, and what has a parent has a directory for it.\<close>

definition fs_wf :: "fs \<Rightarrow> bool" where
  "fs_wf fs \<longleftrightarrow>
     (\<forall>q x. node_at fs (q @ [x]) \<noteq> None \<longrightarrow> normal_name x \<and> is_dir_node (node_at fs q))"

lemma sub_fs_refl [simp]: "sub_fs fs fs"
  by (simp add: sub_fs_def)

lemma same_node_None: "same_node a b \<Longrightarrow> a = None \<longleftrightarrow> b = None"
  by (auto simp: same_node_def)

lemma sub_fsD: "sub_fs fs fs' \<Longrightarrow> node_at fs q = Some n \<Longrightarrow> same_node (node_at fs' q) (Some n)"
  by (auto simp: sub_fs_def)

lemma sub_fs_trans: "sub_fs a b \<Longrightarrow> sub_fs b c \<Longrightarrow> sub_fs a c"
  unfolding sub_fs_def
proof (intro allI impI)
  fix q
  assume ab: "\<forall>q. node_at a q \<noteq> None \<longrightarrow> same_node (node_at b q) (node_at a q)"
    and bc: "\<forall>q. node_at b q \<noteq> None \<longrightarrow> same_node (node_at c q) (node_at b q)" and "node_at a q \<noteq> None"
  then have b: "same_node (node_at b q) (node_at a q)" by simp
  then have "node_at b q \<noteq> None" using \<open>node_at a q \<noteq> None\<close> same_node_None [OF b] by simp
  then have "same_node (node_at c q) (node_at b q)" using bc by simp
  then show "same_node (node_at c q) (node_at a q)" using b by (rule same_node_trans)
qed

lemma confined_refl [simp]: "confined rt fs fs"
  by (simp add: confined_def)

lemma confined_trans: "confined rt a b \<Longrightarrow> confined rt b c \<Longrightarrow> confined rt a c"
  by (simp add: confined_def same_node_def)

lemma confined_dir: "confined rt fs fs' \<Longrightarrow> is_dir_node (node_at fs' rt) = is_dir_node (node_at fs rt)"
  by (simp add: confined_def same_node_dir)

lemma sub_fs_dir: "sub_fs fs fs' \<Longrightarrow> is_dir_node (node_at fs q) \<Longrightarrow> is_dir_node (node_at fs' q)"
  by (auto simp: is_dir_node_iff same_node_cases dest: sub_fsD)


section \<open>Resolution\<close>

lemma walk_mono: "walk fs n cur p = Inr q \<Longrightarrow> sub_fs fs fs' \<Longrightarrow> walk fs' n cur p = Inr q"
proof (induction fs n cur p rule: walk.induct)
  case (2 fs n cur c cs)
  show ?case
  proof (cases "normal_name c")
    case False
    then show ?thesis using 2 by (auto simp: normal_name_def split: if_splits)
  next
    case True
    then obtain nd where nd: "node_at fs (cur @ [c]) = Some nd"
      using "2.prems"(1) by (auto simp: normal_name_def split: option.splits)
    then have same: "same_node (node_at fs' (cur @ [c])) (Some nd)"
      using "2.prems"(2) by (rule sub_fsD [rotated])
    show ?thesis using 2 True nd same
      by (cases nd) (auto simp: normal_name_def same_node_cases split: if_splits nat.splits)
  qed
qed simp

lemma walk_snoc:
  "\<lbrakk>walk fs n cur p = Inr d; is_dir_node (node_at fs d)\<rbrakk> \<Longrightarrow> \<exists>m. walk fs n cur (p @ [x]) = walk fs m d [x]"
proof (induction fs n cur p rule: walk.induct)
  case (1 fs n cur)
  then show ?case by auto
next
  case (2 fs n cur c cs)
  show ?case
  proof (cases "normal_name c")
    case False
    then show ?thesis using 2 by (auto simp: normal_name_def split: if_splits)
  next
    case True
    then obtain nd where nd: "node_at fs (cur @ [c]) = Some nd"
      using "2.prems"(1) by (auto simp: normal_name_def split: option.splits)
    show ?thesis using 2 True nd
      by (cases nd; cases n) (simp_all add: normal_name_def split: if_splits)
  qed
qed

lemma walk_snoc_error: "walk fs n cur p = Inl e \<Longrightarrow> walk fs n cur (p @ [x]) = Inl e"
proof (induction fs n cur p rule: walk.induct)
  case (2 fs n cur c cs)
  show ?case
  proof (cases "normal_name c")
    case False
    then show ?thesis using 2 by (auto simp: normal_name_def split: if_splits)
  next
    case True
    show ?thesis
    proof (cases "node_at fs (cur @ [c])")
      case (Some nd)
      then show ?thesis using 2 True by (cases nd; cases n) (simp_all add: normal_name_def split: if_splits)
    qed (use 2 True in \<open>simp add: normal_name_def\<close>)
  qed
qed simp

lemma canon_snoc:
  assumes "canonicalize fs p = Inr d" "is_dir_node (node_at fs d)" "normal_name x"
  shows "node_at fs (d @ [x]) = None \<Longrightarrow> canonicalize fs (p @ [x]) = Inl NotFound"
    "is_dir_node (node_at fs (d @ [x])) \<Longrightarrow> canonicalize fs (p @ [x]) = Inr (d @ [x])"
    "node_at fs (d @ [x]) = Some (FileN b m) \<Longrightarrow> canonicalize fs (p @ [x]) = Inr (d @ [x])"
  using walk_snoc [of fs MAXLINKS "[]" p d x] assms
  by (auto simp: canonicalize_def normal_name_def is_dir_node_iff)

lemma canon_snoc_error: "canonicalize fs p = Inl e \<Longrightarrow> canonicalize fs (p @ [x]) = Inl e"
  unfolding canonicalize_def by (rule walk_snoc_error)

lemma canon_mono: "canonicalize fs p = Inr q \<Longrightarrow> sub_fs fs fs' \<Longrightarrow> canonicalize fs' p = Inr q"
  unfolding canonicalize_def by (rule walk_mono)

text \<open>What resolves in a smaller tree resolves there to the same place.\<close>

lemma canon_anti: "\<lbrakk>sub_fs fs' fs; canonicalize fs p = Inr q; canonicalize fs' p = Inr q'\<rbrakk> \<Longrightarrow> q' = q"
  using canon_mono [of fs' p q' fs] by simp

lemma locate_snoc:
  "normal_name x \<Longrightarrow> locate fs (p @ [x]) =
     (case canonicalize fs p of
        Inl e \<Rightarrow> Inl e | Inr d \<Rightarrow> if is_dir_node (node_at fs d) then Inr (d @ [x]) else Inl NotADirectory)"
  by (simp add: locate_def split: sum.splits)


section \<open>Single changes\<close>

lemma node_at_add [simp]: "q \<noteq> [] \<Longrightarrow> node_at (add_node q n fs) x = (if x = q then Some n else node_at fs x)"
  by (simp add: node_at_def add_node_def)

lemma map_of_filter_key: "map_of (filter (\<lambda>(x, n). P x) xs) q = (if P q then map_of xs q else None)"
  by (induction xs) auto

lemma node_at_del [simp]: "node_at (del_node q fs) x = (if x = q \<and> q \<noteq> [] then None else node_at fs x)"
  by (simp add: node_at_def del_node_def map_of_filter_key)

lemma node_at_below [simp]: "node_at (del_below q fs) x = (if strict_prefix q x then None else node_at fs x)"
  by (auto simp: node_at_def del_below_def map_of_filter_key)

lemma map_of_map_key: "map_of (map (\<lambda>(x, n). (x, if x = q then f n else n)) xs) y =
    (if y = q then map_option f (map_of xs y) else map_of xs y)"
  by (induction xs) auto

lemma clear_with_mode [simp]: "clear_mode (with_mode m n) = clear_mode n \<longleftrightarrow> (\<forall>d k. n = FileN d k \<longrightarrow> m AND 0xfff = k)"
  by (cases n) auto

lemma wf_no_children: "\<lbrakk>fs_wf fs; node_at fs q = None\<rbrakk> \<Longrightarrow> node_at fs (q @ x) = None"
proof (induction x rule: rev_induct)
  case (snoc y x)
  then show ?case unfolding fs_wf_def by (metis append_assoc is_dir_node.simps(1))
qed simp

lemma wf_normal: "fs_wf fs \<Longrightarrow> node_at fs q \<noteq> None \<Longrightarrow> q \<noteq> [] \<Longrightarrow> normal_name (last q)"
  unfolding fs_wf_def by (metis append_butlast_last_id)

lemma wf_add:
  assumes "fs_wf fs" "node_at fs (d @ [x]) = None" "is_dir_node (node_at fs d)" "normal_name x"
  shows "fs_wf (add_node (d @ [x]) n fs)"
  unfolding fs_wf_def
proof (intro allI impI)
  fix q y
  assume some: "node_at (add_node (d @ [x]) n fs) (q @ [y]) \<noteq> None"
  have "node_at fs ((d @ [x]) @ [y]) = None" by (rule wf_no_children [OF assms(1,2)])
  then have "q \<noteq> d @ [x]" using some by auto
  then show "normal_name y \<and> is_dir_node (node_at (add_node (d @ [x]) n fs) q)"
    using some assms unfolding fs_wf_def by (auto split: if_splits)
qed

lemma wf_below: "fs_wf fs \<Longrightarrow> fs_wf (del_below q fs)"
  unfolding fs_wf_def by (auto simp: strict_prefix_def split: if_splits)

lemma wf_del:
  assumes "fs_wf fs" "\<And>y. node_at fs (q @ [y]) = None"
  shows "fs_wf (del_node q fs)"
  using assms unfolding fs_wf_def by (auto split: if_splits)

lemma sub_del: "sub_fs (del_node q fs) fs"
  by (simp add: sub_fs_def)

lemma sub_below: "sub_fs (del_below q fs) fs"
  by (simp add: sub_fs_def)

lemma sub_add: "q \<noteq> [] \<Longrightarrow> node_at fs q = None \<Longrightarrow> sub_fs fs (add_node q n fs)"
  by (auto simp: sub_fs_def)

lemma confined_del: "strict_prefix rt q \<Longrightarrow> confined rt fs (del_node q fs)"
  by (auto simp: confined_def)

lemma confined_below: "prefix rt q \<Longrightarrow> confined rt fs (del_below q fs)"
  by (auto simp: confined_def dest: prefix_order.le_less_trans)

lemma confined_add: "strict_prefix rt q \<Longrightarrow> confined rt fs (add_node q n fs)"
  by (cases "q = []") (auto simp: confined_def)

lemma prefix_strict_snoc: "prefix rt d \<Longrightarrow> strict_prefix rt (d @ [x])"
  by (auto simp: prefix_def strict_prefix_def)

text \<open>A change that stays below the target and keeps the tree well formed.\<close>

definition tame :: "string list \<Rightarrow> fs \<Rightarrow> fs \<Rightarrow> bool" where
  "tame rt fs fs' \<longleftrightarrow> confined rt fs fs' \<and> fs_wf fs'"

lemma tame_trans: "tame rt a b \<Longrightarrow> tame rt b c \<Longrightarrow> tame rt a c"
  by (auto simp: tame_def intro: confined_trans)

lemma tame_wf: "tame rt a b \<Longrightarrow> fs_wf b"
  by (simp add: tame_def)

lemma tame_refl: "fs_wf fs \<Longrightarrow> tame rt fs fs"
  by (simp add: tame_def)

lemma tame_add:
  "\<lbrakk>fs_wf fs; prefix rt d; node_at fs (d @ [x]) = None; is_dir_node (node_at fs d); normal_name x\<rbrakk> \<Longrightarrow>
     tame rt fs (add_node (d @ [x]) n fs)"
  by (simp add: tame_def wf_add confined_add prefix_strict_snoc)


section \<open>Calls below the target\<close>

lemma mkdir_snoc:
  assumes "normal_name x"
  shows "mkdir fs (p @ [x]) =
     (case canonicalize fs p of
        Inl e \<Rightarrow> Inl e
      | Inr d \<Rightarrow> if \<not> is_dir_node (node_at fs d) then Inl NotADirectory
                 else if node_at fs (d @ [x]) = None then Inr (add_node (d @ [x]) (DirN 0x1ed) fs)
                 else Inl AlreadyExists)"
  using assms by (simp add: mkdir_def locate_snoc split: sum.splits)

lemma is_dir_canon: "is_dir fs p \<longleftrightarrow> (\<exists>c. canonicalize fs p = Inr c \<and> is_dir_node (node_at fs c))"
  by (simp add: is_dir_def split: sum.splits)

text \<open>Making directories along a path whose deepest existing ancestor is in the target.\<close>

lemma create_dir_all_tame:
  assumes "create_dir_all fs p = (fs', r)" "climbs_within fs rt (Some p)" "list_all normal_name p" "fs_wf fs" "rt \<noteq> []"
  shows "tame rt fs fs' \<and> sub_fs fs fs' \<and>
     (r = Inr () \<longrightarrow> (\<exists>c. canonicalize fs' p = Inr c \<and> prefix rt c \<and> is_dir_node (node_at fs' c) \<and>
        (fs' = fs \<or> (\<forall>x. node_at fs' (c @ [x]) = None))))"
  using assms
proof (induction fs p arbitrary: fs' r rule: create_dir_all.induct)
  case (1 fs p)
  show ?case
  proof (cases p rule: rev_cases)
    case Nil
    then show ?thesis using "1.prems" by (simp add: canonicalize_def)
  next
    case (snoc d x)
    have x: "normal_name x" and dn: "list_all normal_name d" using "1.prems"(3) snoc by auto
    have run: "create_dir_all fs (d @ [x]) = (fs', r)" using "1.prems"(1) snoc by simp
    have created: "tame rt f (add_node (c @ [x]) (DirN 0x1ed) f) \<and> sub_fs f (add_node (c @ [x]) (DirN 0x1ed) f) \<and>
        canonicalize (add_node (c @ [x]) (DirN 0x1ed) f) (d @ [x]) = Inr (c @ [x]) \<and> prefix rt (c @ [x]) \<and>
        (\<forall>y. node_at (add_node (c @ [x]) (DirN 0x1ed) f) ((c @ [x]) @ [y]) = None)"
      if "fs_wf f" "canonicalize f d = Inr c" "is_dir_node (node_at f c)" "node_at f (c @ [x]) = None" "prefix rt c" for f c
    proof -
      let ?g = "add_node (c @ [x]) (DirN 0x1ed) f"
      have sub: "sub_fs f ?g" using that by (simp add: sub_add)
      have "canonicalize ?g d = Inr c" using that(2) sub by (rule canon_mono)
      then have "canonicalize ?g (d @ [x]) = Inr (c @ [x])"
        using that(3) x by (intro canon_snoc(2)) (auto simp: is_dir_node_iff)
      then show ?thesis using that x sub wf_no_children [OF that(1,4)]
        by (auto simp: tame_add prefix_def)
    qed
    show ?thesis
    proof (cases "canonicalize fs d")
      case (Inl e)
      have cw: "climbs_within fs rt (Some d)"
        using "1.prems"(2) canon_snoc_error [OF Inl, of x] snoc x by simp
      have mk: "mkdir fs (d @ [x]) = Inl e" using x Inl by (simp add: mkdir_snoc)
      have nd: "\<not> is_dir fs (d @ [x])" using canon_snoc_error [OF Inl, of x] by (simp add: is_dir_canon)
      show ?thesis
      proof (cases "e = NotFound")
        case False
        then show ?thesis using run mk nd "1.prems" snoc
          by (auto simp: create_dir_all.simps [of fs] tame_refl)
      next
        case True
        obtain f1 r1 where c1: "create_dir_all fs d = (f1, r1)" by (cases "create_dir_all fs d")
        have IH: "tame rt fs f1 \<and> sub_fs fs f1 \<and>
            (r1 = Inr () \<longrightarrow> (\<exists>c. canonicalize f1 d = Inr c \<and> prefix rt c \<and> is_dir_node (node_at f1 c) \<and>
               (f1 = fs \<or> (\<forall>x. node_at f1 (c @ [x]) = None))))"
          using "1.IH" [of e d, OF _ _ _ c1 cw dn "1.prems"(4,5)] mk True snoc x by simp
        show ?thesis
        proof (cases r1)
          case (Inl e1)
          then have "fs' = f1 \<and> r = Inl e1"
            using run mk True c1 x by (simp add: create_dir_all.simps [of fs "d @ [x]"])
          then show ?thesis using IH by simp
        next
          case (Inr u)
          then obtain c where c: "canonicalize f1 d = Inr c" "prefix rt c" "is_dir_node (node_at f1 c)"
              "f1 = fs \<or> (\<forall>x. node_at f1 (c @ [x]) = None)" using IH by auto
          have "f1 \<noteq> fs" using c(1) \<open>canonicalize fs d = Inl e\<close> by auto
          then have none: "node_at f1 (c @ [x]) = None" using c(4) by simp
          have "mkdir f1 (d @ [x]) = Inr (add_node (c @ [x]) (DirN 0x1ed) f1)" using c none x by (simp add: mkdir_snoc)
          then have "fs' = add_node (c @ [x]) (DirN 0x1ed) f1 \<and> r = Inr ()"
            using run mk True c1 Inr x by (simp add: create_dir_all.simps [of fs "d @ [x]"])
          moreover have "fs_wf f1" using IH by (simp add: tame_def)
          note cr = created [OF this c(1,3) none c(2)]
          moreover have "tame rt fs (add_node (c @ [x]) (DirN 0x1ed) f1)" using IH cr by (metis tame_trans)
          moreover have "sub_fs fs (add_node (c @ [x]) (DirN 0x1ed) f1)" using IH cr by (metis sub_fs_trans)
          ultimately show ?thesis using snoc by auto
        qed
      qed
    next
      case (Inr c)
      show ?thesis
      proof (cases "is_dir_node (node_at fs c) \<and> node_at fs (c @ [x]) = None")
        case True
        then have "canonicalize fs (d @ [x]) = Inl NotFound" using canon_snoc(1) [OF Inr _ x] by simp
        then have "prefix rt c" using "1.prems"(2) snoc x Inr by simp
        moreover have "fs' = add_node (c @ [x]) (DirN 0x1ed) fs \<and> r = Inr ()"
          using run True Inr x by (simp add: create_dir_all.simps [of fs] mkdir_snoc)
        ultimately show ?thesis using created [OF "1.prems"(4) Inr] True snoc by (auto simp: is_dir_node_iff)
      next
        case False
        then obtain e where "mkdir fs (d @ [x]) = Inl e" "e \<noteq> NotFound"
          using Inr x by (cases "is_dir_node (node_at fs c)") (simp_all add: mkdir_snoc)
        then have "fs' = fs \<and> (r = Inr () \<longrightarrow> is_dir fs p)"
          using run snoc by (auto simp: create_dir_all.simps [of fs] split: if_splits)
        then show ?thesis using "1.prems" by (auto simp: is_dir_canon tame_refl)
      qed
    qed
  qed
qed

text \<open>Removing what is at a path whose directory is in the target.\<close>

lemma wf_leaf: "\<lbrakk>fs_wf fs; \<not> is_dir_node (node_at fs q)\<rbrakk> \<Longrightarrow> node_at fs (q @ [y]) = None"
  unfolding fs_wf_def by blast

lemma tame_del:
  "\<lbrakk>fs_wf fs; prefix rt d; \<And>y. node_at fs ((d @ [x]) @ [y]) = None\<rbrakk> \<Longrightarrow> tame rt fs (del_node (d @ [x]) fs)"
  by (simp add: tame_def confined_del prefix_strict_snoc wf_del)

lemma remove_any_outside:
  assumes "normal_name x" "\<And>d. canonicalize fs p = Inr d \<Longrightarrow> \<not> is_dir_node (node_at fs d)"
  shows "remove_any fs (p @ [x]) = (fs, Inr ())"
  using assms by (auto simp: remove_any_def symlink_metadata_def locate_snoc split: sum.splits)

lemma remove_any_tame:
  assumes run: "remove_any fs (p @ [x]) = (fs', r)" and d: "canonicalize fs p = Inr d" "is_dir_node (node_at fs d)"
    and x: "normal_name x" and rt: "prefix rt d" and wf: "fs_wf fs"
  shows "tame rt fs fs' \<and> sub_fs fs' fs \<and> (r = Inr () \<longrightarrow> node_at fs' (d @ [x]) = None)"
proof (cases "node_at fs (d @ [x])")
  case None
  then show ?thesis using assms by (simp add: remove_any_def symlink_metadata_def locate_snoc tame_refl)
next
  case (Some n)
  have loc: "locate fs (p @ [x]) = Inr (d @ [x])" using d x by (simp add: locate_snoc)
  show ?thesis
  proof (cases "is_dir_node (Some n)")
    case False
    then have "fs' = del_node (d @ [x]) fs \<and> r = Inr ()"
      using run Some loc by (auto simp: remove_any_def symlink_metadata_def remove_file_def split: node.splits)
    moreover have "node_at fs ((d @ [x]) @ [y]) = None" for y using wf False Some by (intro wf_leaf) simp_all
    ultimately show ?thesis using wf rt by (simp add: tame_del sub_del)
  next
    case True
    let ?b = "del_below (d @ [x]) fs"
    have run': "rmdir ?b (p @ [x]) = (fs', r)"
      using run Some loc True by (auto simp: remove_any_def symlink_metadata_def remove_dir_all_def split: node.splits)
    have "prefix rt (d @ [x])" using rt by (auto simp: prefix_def)
    then have below: "tame rt fs ?b" "sub_fs ?b fs"
      using wf confined_below [of rt "d @ [x]" fs] by (simp_all add: tame_def wf_below sub_below)
    have "(\<exists>e. fs' = ?b \<and> r = Inl e) \<or> fs' = del_node (d @ [x]) ?b \<and> r = Inr ()"
    proof (cases "locate ?b (p @ [x])")
      case (Inl e)
      then show ?thesis using run' x by (auto simp: rmdir_def normal_name_def)
    next
      case (Inr q)
      then obtain d' where d': "canonicalize ?b p = Inr d'" "q = d' @ [x]"
        using x by (auto simp: locate_snoc split: sum.splits if_splits)
      have "d' = d" using below(2) d(1) d'(1) by (rule canon_anti)
      then show ?thesis using run' Inr d' x by (auto simp: rmdir_def normal_name_def split: if_splits)
    qed
    moreover have "tame rt ?b (del_node (d @ [x]) ?b)" using below(1) rt by (intro tame_del) (auto simp: tame_def strict_prefix_def)
    ultimately show ?thesis using below tame_trans sub_fs_trans [OF sub_del] by auto
  qed
qed

lemma remove_each_tame:
  assumes "remove_each fs dir ns = (fs', r)" "list_all normal_name ns" "fs_wf fs"
    "\<And>c. canonicalize fs dir = Inr c \<Longrightarrow> prefix rt c"
  shows "tame rt fs fs' \<and> sub_fs fs' fs"
  using assms
proof (induction ns arbitrary: fs)
  case (Cons n ns)
  obtain f1 r1 where f1: "remove_any fs (dir @ [n]) = (f1, r1)" by (cases "remove_any fs (dir @ [n])")
  have n: "normal_name n" using Cons.prems by simp
  have one: "tame rt fs f1 \<and> sub_fs f1 fs"
  proof (cases "\<exists>d. canonicalize fs dir = Inr d \<and> is_dir_node (node_at fs d)")
    case True
    then show ?thesis using remove_any_tame [OF f1 _ _ n _ Cons.prems(3)] Cons.prems(4) by blast
  next
    case False
    then show ?thesis using remove_any_outside [OF n, of fs dir] f1 Cons.prems(3) by (auto simp: tame_refl)
  qed
  show ?case
  proof (cases r1)
    case (Inl e)
    then show ?thesis using Cons.prems(1) f1 one by simp
  next
    case (Inr u)
    then have rest: "remove_each f1 dir ns = (fs', r)" using Cons.prems(1) f1 by simp
    have "prefix rt c" if "canonicalize f1 dir = Inr c" for c
      using Cons.prems(4) canon_mono [OF that] one by blast
    then have "tame rt f1 fs' \<and> sub_fs fs' f1" using Cons.IH [OF rest] Cons.prems(2) one by (auto simp: tame_def)
    then show ?thesis using one tame_trans sub_fs_trans by blast
  qed
qed (auto simp: tame_refl)

lemma create_new_tame:
  assumes "create_new fs (p @ [x]) n = Inr fs'" "normal_name x" "fs_wf fs" "\<And>c. canonicalize fs p = Inr c \<Longrightarrow> prefix rt c"
  shows "tame rt fs fs' \<and> (\<exists>d. canonicalize fs p = Inr d \<and> is_dir_node (node_at fs d) \<and> prefix rt d \<and>
      node_at fs (d @ [x]) = None \<and> fs' = add_node (d @ [x]) n fs \<and> canonicalize fs' p = Inr d)"
proof -
  obtain d where d: "canonicalize fs p = Inr d" "is_dir_node (node_at fs d)" "node_at fs (d @ [x]) = None"
      "fs' = add_node (d @ [x]) n fs"
    using assms(1,2) by (auto simp: create_new_def locate_snoc split: sum.splits if_splits)
  have "canonicalize fs' p = Inr d" using d sub_add [of "d @ [x]" fs n] by (auto intro: canon_mono)
  then show ?thesis using assms(2-4) d by (simp add: tame_add)
qed

lemma make_room_tame:
  assumes run: "make_room fs (p @ [x]) = (fs', r)" and "climbs_within fs rt (Some p)" "list_all normal_name p"
    and x: "normal_name x" and "fs_wf fs" "rt \<noteq> []"
  shows "tame rt fs fs' \<and> (r = Inr () \<longrightarrow> (\<forall>c. canonicalize fs' p = Inr c \<longrightarrow> prefix rt c))"
proof -
  obtain f1 r1 where f1: "create_dir_all fs p = (f1, r1)" by (cases "create_dir_all fs p")
  note mk = create_dir_all_tame [OF f1 assms(2,3,5,6)]
  show ?thesis
  proof (cases r1)
    case (Inl e)
    then show ?thesis using run f1 mk x by (auto simp: make_room_def)
  next
    case (Inr u)
    then obtain c where c: "canonicalize f1 p = Inr c" "prefix rt c" "is_dir_node (node_at f1 c)" using mk by auto
    have rm: "remove_any f1 (p @ [x]) = (fs', r)" using run f1 Inr x by (simp add: make_room_def)
    have "fs_wf f1" using mk by (simp add: tame_def)
    note rmt = remove_any_tame [OF rm c(1,3) x c(2) this]
    then have "prefix rt c'" if "canonicalize fs' p = Inr c'" for c' using canon_anti [OF _ c(1) that] c(2) by blast
    then show ?thesis using mk rmt tame_trans by blast
  qed
qed

text \<open>Changing a mode keeps kinds, contents and targets.\<close>

lemma set_permissions_node:
  "canonicalize fs p = Inr q \<Longrightarrow> node_at (set_permissions fs p m) x =
     (if x = q \<and> q \<noteq> [] then map_option (with_mode m) (node_at fs x) else node_at fs x)"
  by (auto simp: set_permissions_def node_at_def map_of_map_key)

lemma set_permissions_dir: "is_dir_node (node_at (set_permissions fs p m) q) = is_dir_node (node_at fs q)"
  "node_at (set_permissions fs p m) q = None \<longleftrightarrow> node_at fs q = None"
proof -
  have w: "is_dir_node (map_option (with_mode m) n) = is_dir_node n" for n
    by (cases n; cases "the n") auto
  show "is_dir_node (node_at (set_permissions fs p m) q) = is_dir_node (node_at fs q)"
    "node_at (set_permissions fs p m) q = None \<longleftrightarrow> node_at fs q = None"
    by (cases "canonicalize fs p"; auto simp: set_permissions_node w; simp add: set_permissions_def)+
qed

primrec node_kind :: "node \<Rightarrow> node" where
  "node_kind (DirN m) = DirN 0"
| "node_kind (FileN d m) = FileN [] 0"
| "node_kind (LinkN t) = LinkN t"

lemma walk_kind:
  assumes "\<And>q. map_option node_kind (node_at fs' q) = map_option node_kind (node_at fs q)"
  shows "walk fs' n cur p = walk fs n cur p"
  using assms
proof (induction fs n cur p rule: walk.induct)
  case (2 fs n cur c cs)
  show ?case
  proof (cases "node_at fs (cur @ [c])")
    case None
    then have "node_at fs' (cur @ [c]) = None" using "2.prems" [of "cur @ [c]"] by simp
    then show ?thesis using 2 None by simp
  next
    case (Some nd)
    then obtain nd' where nd': "node_at fs' (cur @ [c]) = Some nd'" "node_kind nd' = node_kind nd"
      using "2.prems" [of "cur @ [c]"] by (cases "node_at fs' (cur @ [c])") auto
    then show ?thesis using 2 Some by (cases nd; cases nd') (auto split: nat.splits)
  qed
qed simp

lemma set_permissions_canon: "canonicalize (set_permissions fs p m) r = canonicalize fs r"
proof -
  have k: "node_kind (with_mode m n) = node_kind n" for n by (cases n) auto
  have "map_option node_kind (node_at (set_permissions fs p m) q) = map_option node_kind (node_at fs q)" for q
    by (cases "canonicalize fs p")
      (auto simp: set_permissions_node option.map_comp comp_def k, simp add: set_permissions_def)
  then show ?thesis unfolding canonicalize_def by (rule walk_kind)
qed

lemma set_permissions_tame:
  assumes "fs_wf fs" "\<And>q. canonicalize fs p = Inr q \<Longrightarrow> is_dir_node (node_at fs q) \<or> strict_prefix rt q"
  shows "tame rt fs (set_permissions fs p m)"
proof (cases "canonicalize fs p")
  case (Inl e)
  then show ?thesis using assms by (simp add: set_permissions_def tame_refl)
next
  case (Inr q)
  have "same_node (node_at (set_permissions fs p m) x) (node_at fs x)" if "\<not> strict_prefix rt x" for x
    using assms(2) [OF Inr] that by (auto simp: set_permissions_node [OF Inr] is_dir_node_iff same_node_cases)
  moreover have "fs_wf (set_permissions fs p m)"
    using assms(1) unfolding fs_wf_def by (simp only: set_permissions_dir not_False_eq_True)
  ultimately show ?thesis by (simp add: tame_def confined_def)
qed


section \<open>Entries\<close>

lemma sanitize_normal: "sanitize s = Some rel \<Longrightarrow> rel \<noteq> [] \<and> list_all normal_name rel"
  by (auto simp: sanitize_def Let_def list_all_iff normal_name_def split: if_splits)

lemma children_normal: "fs_wf fs \<Longrightarrow> list_all normal_name (children fs q)"
proof (unfold list_all_iff, intro ballI)
  fix x
  assume wf: "fs_wf fs" and "x \<in> set (children fs q)"
  then obtain y where y: "y \<in> fst ` set fs" "y \<noteq> []" "x = last y" by (auto simp: children_def)
  then have "node_at fs y \<noteq> None" by (auto simp: node_at_def map_of_eq_None_iff)
  then show "normal_name x" using wf_normal [OF wf _ y(2)] y(3) by simp
qed

lemma climbs_within_canon: "climbs_within fs rt (Some p) \<Longrightarrow> canonicalize fs p = Inr c \<Longrightarrow> prefix rt c"
  by simp

lemma clear_dir_tame:
  assumes "clear_dir fs dir = (fs', r)" "climbs_within fs rt (Some dir)" "fs_wf fs"
  shows "tame rt fs fs'"
proof (cases "\<exists>q. canonicalize fs dir = Inr q \<and> is_dir_node (node_at fs q) \<and> path_exists fs dir")
  case True
  then obtain q where q: "canonicalize fs dir = Inr q" "is_dir_node (node_at fs q)" "path_exists fs dir" by blast
  then have "remove_each fs dir (children fs q) = (fs', r)" using assms(1) by (simp add: clear_dir_def)
  then show ?thesis
    using remove_each_tame [OF _ children_normal [OF assms(3)] assms(3)] climbs_within_canon [OF assms(2)] by blast
next
  case False
  then show ?thesis using assms
    by (auto simp: clear_dir_def tame_refl split: if_splits sum.splits)
qed

lemma remove_any_checked:
  assumes "remove_any fs (p @ [x]) = (fs', r)" "climbs_within fs rt (Some p)" "normal_name x" "fs_wf fs"
  shows "tame rt fs fs'"
proof (cases "\<exists>d. canonicalize fs p = Inr d \<and> is_dir_node (node_at fs d)")
  case True
  then show ?thesis using remove_any_tame [OF assms(1) _ _ assms(3) _ assms(4)] climbs_within_canon [OF assms(2)] by blast
next
  case False
  then show ?thesis using remove_any_outside [OF assms(3), of fs p] assms(1,4) by (auto simp: tame_refl)
qed

lemma extract_directory_tame:
  assumes run: "extract_directory fs (p @ [x]) mode = (fs', r)" and "climbs_within fs rt (Some p)"
    "list_all normal_name p" and x: "normal_name x" and "fs_wf fs" "rt \<noteq> []"
  shows "tame rt fs fs'"
proof -
  obtain f1 r1 where f1: "create_dir_all fs (p @ [x]) = (f1, r1)" by (cases "create_dir_all fs (p @ [x])")
  have mk: "tame rt fs f1 \<and> (r1 = Inr () \<longrightarrow> is_dir f1 (p @ [x]))"
  proof (cases "canonicalize fs (p @ [x])")
    case (Inl e)
    then have "climbs_within fs rt (Some (p @ [x]))" using assms(2) x by simp
    then show ?thesis using create_dir_all_tame [OF f1 _ _ assms(5,6)] assms(3) x by (auto simp: is_dir_canon)
  next
    case (Inr q)
    then obtain d where d: "canonicalize fs p = Inr d"
      using canon_snoc_error [of fs p _ x] by (cases "canonicalize fs p") auto
    have "mkdir fs (p @ [x]) \<noteq> Inl NotFound" "\<nexists>f. mkdir fs (p @ [x]) = Inr f"
      using Inr d canon_snoc(1) [OF d _ x] x by (auto simp: mkdir_snoc split: if_splits)
    then obtain e where "mkdir fs (p @ [x]) = Inl e" "e \<noteq> NotFound" by (cases "mkdir fs (p @ [x])") auto
    then show ?thesis using f1 assms(5) by (auto simp: create_dir_all.simps [of fs] tame_refl split: if_splits)
  qed
  show ?thesis
  proof (cases r1)
    case (Inr u)
    then have "tame rt f1 (set_permissions f1 (p @ [x]) mode)"
      using mk by (intro set_permissions_tame) (auto simp: tame_def is_dir_canon)
    then show ?thesis using run f1 Inr mk tame_trans by (auto simp: extract_directory_def)
  qed (use run f1 mk in \<open>simp add: extract_directory_def\<close>)
qed

text \<open>Putting a new node in the place made for it.\<close>

lemma place_tame:
  assumes "make_room fs (p @ [x]) = (f1, Inr u)" "create_new f1 (p @ [x]) n = Inr f2" "climbs_within fs rt (Some p)"
    "list_all normal_name p" "normal_name x" "fs_wf fs" "rt \<noteq> []"
  shows "tame rt fs f2 \<and> (\<exists>d. prefix rt d \<and> canonicalize f2 p = Inr d \<and> is_dir_node (node_at f2 d) \<and>
      node_at f2 (d @ [x]) = Some n)"
proof -
  note room = make_room_tame [OF assms(1,3-7)]
  then have "fs_wf f1" "\<And>c. canonicalize f1 p = Inr c \<Longrightarrow> prefix rt c" by (auto simp: tame_def)
  from create_new_tame [OF assms(2,5) this] show ?thesis using room tame_trans by auto
qed

lemma extract_regular_tame:
  assumes run: "extract_regular fs (p @ [x]) mode data torn budget = (fs', r)"
    and ok: "climbs_within fs rt (Some p)" "list_all normal_name p" "normal_name x" "fs_wf fs" "rt \<noteq> []"
  shows "tame rt fs fs' \<and> (\<forall>n. r = Inr n \<and> budget < 2 ^ 64 - 1 \<longrightarrow> n = length data \<and> n \<le> budget \<and>
      (\<exists>q. canonicalize fs' (p @ [x]) = Inr q \<and> strict_prefix rt q \<and> node_at fs' q = Some (FileN data (mode AND 0xfff))))"
proof -
  obtain f1 r1 where f1: "make_room fs (p @ [x]) = (f1, r1)" by (cases "make_room fs (p @ [x])")
  let ?n = "FileN (take (min (budget + 1) (2 ^ 64 - 1)) data) 0x1a4"
  show ?thesis
  proof (cases "\<exists>u f2. r1 = Inr u \<and> create_new f1 (p @ [x]) ?n = Inr f2")
    case False
    then show ?thesis using run f1 make_room_tame [OF f1 ok]
      by (cases r1; cases "create_new f1 (p @ [x]) ?n") (auto simp: extract_regular_def Let_def)
  next
    case True
    then obtain u f2 where f2: "r1 = Inr u" "create_new f1 (p @ [x]) ?n = Inr f2" by blast
    from place_tame [OF f1 [unfolded f2(1)] f2(2) ok] obtain d where
      d: "tame rt fs f2" "prefix rt d" "canonicalize f2 p = Inr d" "is_dir_node (node_at f2 d)" "node_at f2 (d @ [x]) = Some ?n"
      by blast
    have q: "canonicalize f2 (p @ [x]) = Inr (d @ [x])" using canon_snoc(3) [OF d(3,4) ok(3) d(5)] .
    have st: "strict_prefix rt (d @ [x])" using d(2) by (rule prefix_strict_snoc)
    have perm: "tame rt f2 (set_permissions f2 (p @ [x]) mode)"
      using d(1) q st by (intro set_permissions_tame) (auto simp: tame_def)
    have sub: "canonicalize (set_permissions f2 (p @ [x]) mode) (p @ [x]) = Inr (d @ [x])"
      using q by (simp add: set_permissions_canon)
    have "fs' = f2 \<and> (\<exists>e. r = Inl e) \<or> fs' = set_permissions f2 (p @ [x]) mode \<and>
        (budget < 2 ^ 64 - 1 \<longrightarrow> r = Inr (length data) \<and> length data \<le> budget \<and> ?n = FileN data 0x1a4)"
      using run f1 f2 by (auto simp: extract_regular_def Let_def min_def split: if_splits)
    then show ?thesis
    proof (elim disjE conjE exE)
      assume f: "fs' = set_permissions f2 (p @ [x]) mode"
        and b: "budget < 2 ^ 64 - 1 \<longrightarrow> r = Inr (length data) \<and> length data \<le> budget \<and> ?n = FileN data 0x1a4"
      have "node_at (set_permissions f2 (p @ [x]) mode) (d @ [x]) = Some (FileN data (mode AND 0xfff))"
        if "budget < 2 ^ 64 - 1"
        using b that d(5) by (simp add: set_permissions_node [OF q])
      then show ?thesis using f b tame_trans [OF d(1) perm] sub st by auto
    qed (use d(1) in auto)
  qed
qed

lemma extract_symlink_tame:
  assumes "extract_symlink fs (p @ [x]) target = (fs', r)"
    and ok: "climbs_within fs rt (Some p)" "list_all normal_name p" "normal_name x" "fs_wf fs" "rt \<noteq> []"
  shows "tame rt fs fs'"
proof -
  obtain f1 r1 where f1: "make_room fs (p @ [x]) = (f1, r1)" by (cases "make_room fs (p @ [x])")
  have "tame rt fs f1" using make_room_tame [OF f1 ok] by simp
  moreover have "tame rt fs f2" if "r1 = Inr u" "create_new f1 (p @ [x]) n = Inr f2" for u n f2
    using place_tame [OF f1 [unfolded that(1)] that(2) ok] by simp
  ultimately show ?thesis using assms(1) f1 ok(4)
    by (auto simp: extract_symlink_def tame_refl split: option.splits sum.splits if_splits)
qed

lemma extract_link_tame:
  assumes "extract_link linkable fs rt (p @ [x]) path target = (fs', r)"
    and ok: "climbs_within fs rt (Some p)" "list_all normal_name p" "normal_name x" "fs_wf fs" "rt \<noteq> []"
  shows "tame rt fs fs'"
proof -
  obtain f1 r1 where f1: "make_room fs (p @ [x]) = (f1, r1)" by (cases "make_room fs (p @ [x])")
  have room: "tame rt fs f1" using make_room_tame [OF f1 ok] by simp
  have place: "tame rt fs f2" if "r1 = Inr u" "create_new f1 (p @ [x]) n = Inr f2" for u n f2
    using place_tame [OF f1 [unfolded that(1)] that(2) ok] by simp
  have hard: "\<exists>n. create_new f1 (p @ [x]) n = Inr f2" if "hard_link f1 src (p @ [x]) = Inr f2" for src f2
    using that by (auto simp: hard_link_def split: sum.splits option.splits node.splits)
  have copy: "\<exists>n. create_new f1 (p @ [x]) n = Inr f2" if "copy_file f1 src (p @ [x]) = Inr f2" for src f2
    using that by (auto simp: copy_file_def split: sum.splits option.splits node.splits)
  show ?thesis using assms(1) f1 ok(4) room place hard copy
    by (fastforce simp: extract_link_def Let_def tame_refl split: option.splits sum.splits if_splits)
qed

lemma extract_entry_tame:
  assumes "extract_entry linkable fs rt (p @ [x]) budget e = (fs', r)"
    and ok: "climbs_within fs rt (Some p)" "list_all normal_name p" "normal_name x" "fs_wf fs" "rt \<noteq> []"
  shows "tame rt fs fs'"
  using assms(1) extract_directory_tame [OF _ ok] extract_regular_tame [OF _ ok] extract_symlink_tame [OF _ ok]
    extract_link_tame [OF _ ok] tame_refl [OF ok(4)]
  by (cases "te_kind e") (auto simp: extract_entry_def Let_def)

text \<open>A whiteout that names an entry of its directory, rather than the directory itself or its parent.\<close>

definition whiteout_named :: "tar_entry \<Rightarrow> bool" where
  "whiteout_named e \<longleftrightarrow>
     (\<forall>rel t. sanitize (te_path e) = Some rel \<and> strip_wh (last rel) = Some t \<longrightarrow> normal_name t)"

lemma apply_entry_tame:
  assumes run: "apply_entry linkable dest rt budget e fs = (fs', r)" and "whiteout_named e"
    and "list_all normal_name dest" "fs_wf fs" "rt \<noteq> []"
  shows "tame rt fs fs'"
proof (cases "sanitize (te_path e)")
  case None
  then show ?thesis using run assms(4) by (simp add: apply_entry_def tame_refl)
next
  case (Some rel)
  then obtain rr x where rel: "rel = rr @ [x]" and rn: "list_all normal_name rr" and x: "normal_name x"
    using sanitize_normal [OF Some] by (cases rel rule: rev_cases) auto
  have dn: "list_all normal_name (dest @ rr)" using assms(3) rn by simp
  have t: "normal_name t" if "strip_wh x = Some t" for t using assms(2) Some rel that by (auto simp: whiteout_named_def)
  have us: "normal_name ''_''" by (simp add: normal_name_def)
  have opaque: "tame rt fs (fst (io_result (clear_dir fs (dest @ rr))))" if "within_root fs rt (dest @ rr @ [''_''])"
    using that us clear_dir_tame [of fs "dest @ rr" _ _ rt] assms(4) parent_snoc [OF us, of "dest @ rr"]
    by (cases "clear_dir fs (dest @ rr)") (simp add: within_root_def io_result_def)
  have white: "tame rt fs (fst (io_result (remove_any fs (dest @ rr @ [t]))))"
    if "strip_wh x = Some t" "within_root fs rt (dest @ rr @ [t])" for t
    using that remove_any_checked [of fs "dest @ rr" t _ _ rt] t [OF that(1)] assms(4)
      parent_snoc [OF t [OF that(1)], of "dest @ rr"]
    by (cases "remove_any fs (dest @ rr @ [t])") (simp add: within_root_def io_result_def)
  have ext: "tame rt fs fs'" if "extract_entry linkable fs rt (dest @ rr @ [x]) budget e = (fs', r)"
      "within_root fs rt (dest @ rr @ [x])"
    using that extract_entry_tame [of linkable fs rt "dest @ rr" x budget e fs' r] dn x assms(4,5)
      parent_snoc [OF x, of "dest @ rr"] by (simp add: within_root_def)
  show ?thesis
    using run Some rel opaque white ext tame_refl [OF assms(4), of rt]
    by (auto simp: apply_entry_def apply_rel_def Let_def split: if_splits option.splits)
qed

lemma apply_entries_tame:
  assumes "apply_entries linkable dest rt max_total written es fs = (fs', r)"
    "\<And>e. Inr e \<in> set es \<Longrightarrow> whiteout_named e" "list_all normal_name dest" "fs_wf fs" "rt \<noteq> []"
  shows "tame rt fs fs'"
  using assms
proof (induction linkable dest rt max_total written es fs rule: apply_entries.induct)
  case (3 linkable dest rt max_total written e es fs)
  obtain f1 r1 where f1: "apply_entry linkable dest rt (max_total - written) e fs = (f1, r1)"
    by (cases "apply_entry linkable dest rt (max_total - written) e fs")
  have one: "tame rt fs f1" using apply_entry_tame [OF f1] 3 by simp
  show ?case
    using 3 f1 one tame_trans [OF one] tame_wf [OF one] by (cases r1) auto
qed (auto simp: tame_refl)

end
