(* ===== verification/Flatten_Props.thy ===== *)
theory Flatten_Props
  imports Flatten_Laws
begin

text \<open>
  What unpacking an image may do to the host: it stays in the target as long as no whiteout names its
  own directory or the parent, and two ways in which a crafted image reaches past the target.
\<close>

section \<open>The target directory\<close>

text \<open>A path of real directories from the root.\<close>

definition real_dir :: "fs \<Rightarrow> string list \<Rightarrow> bool" where
  "real_dir fs p \<longleftrightarrow> list_all normal_name p \<and> list_all (\<lambda>n. is_dir_node (node_at fs (take n p))) [0..<Suc (length p)]"

lemma real_dirD: "real_dir fs p \<Longrightarrow> prefix q p \<Longrightarrow> is_dir_node (node_at fs q)"
proof -
  assume "real_dir fs p" and "prefix q p"
  then obtain r where "p = q @ r" by (auto simp: prefix_def)
  then show ?thesis using \<open>real_dir fs p\<close>
    by (auto simp: real_dir_def list_all_iff dest!: bspec [of _ _ "length q"])
qed

lemma real_dirI: "list_all normal_name p \<Longrightarrow> (\<And>q. prefix q p \<Longrightarrow> is_dir_node (node_at fs q)) \<Longrightarrow> real_dir fs p"
  by (auto simp: real_dir_def list_all_iff take_is_prefix)

lemma walk_real:
  "\<lbrakk>list_all normal_name p; \<And>q. prefix q p \<Longrightarrow> is_dir_node (node_at fs (cur @ q))\<rbrakk> \<Longrightarrow>
     walk fs n cur (p @ r) = walk fs n (cur @ p) r"
proof (induction p arbitrary: cur)
  case (Cons c p)
  have "is_dir_node (node_at fs (cur @ [c]))" using Cons.prems(2) [of "[c]"] by simp
  moreover have "walk fs n (cur @ [c]) (p @ r) = walk fs n ((cur @ [c]) @ p) r"
    using Cons.prems by (intro Cons.IH) (auto dest: Cons.prems(2) [of "c # _"])
  ultimately show ?case using Cons.prems(1) by (auto simp: is_dir_node_iff normal_name_def)
qed simp

lemma walk_real_dir: "real_dir fs p \<Longrightarrow> walk fs n [] (p @ r) = walk fs n p r"
  using walk_real [of p fs "[]" n r, OF _ real_dirD [of fs p]] by (simp add: real_dir_def)

lemma canon_real: "real_dir fs p \<Longrightarrow> canonicalize fs p = Inr p"
  using walk_real_dir [of fs p MAXLINKS "[]"] by (simp add: canonicalize_def)

definition outside_same :: "string list \<Rightarrow> fs \<Rightarrow> fs \<Rightarrow> bool" where
  "outside_same dest fs fs' \<longleftrightarrow> (\<forall>q. \<not> prefix dest q \<longrightarrow> same_node (node_at fs' q) (node_at fs q))"

lemma real_dir_outside:
  assumes "real_dir fs p" "outside_same (p @ [x]) fs fs'"
  shows "real_dir fs' p"
proof (rule real_dirI)
  show "list_all normal_name p" using assms(1) by (simp add: real_dir_def)
  fix q
  assume q: "prefix q p"
  then have "\<not> prefix (p @ [x]) q" by (auto dest!: prefix_length_le)
  then have "same_node (node_at fs' q) (node_at fs q)" using assms(2) by (simp add: outside_same_def)
  then show "is_dir_node (node_at fs' q)" using real_dirD [OF assms(1) q] by (simp add: same_node_dir)
qed

lemma rmdir_snoc:
  "normal_name x \<Longrightarrow> rmdir fs (p @ [x]) =
     (case locate fs (p @ [x]) of
        Inl e \<Rightarrow> (fs, Inl e)
      | Inr q \<Rightarrow> if is_dir_node (node_at fs q) then (del_node q fs, Inr ()) else (fs, Inl NotADirectory))"
  by (simp add: rmdir_def normal_name_def)

lemma remove_dest:
  assumes "remove_dir_all fs (p @ [x]) = (fs', r)" "real_dir fs p" "normal_name x" "fs_wf fs"
  shows "outside_same (p @ [x]) fs fs' \<and> fs_wf fs' \<and> (r = Inr () \<longrightarrow> node_at fs' (p @ [x]) = None)"
proof -
  have loc: "locate f (p @ [x]) = Inr (p @ [x])" if "real_dir f p" for f
    using that real_dirD [OF that, of p] assms(3) by (simp add: locate_snoc canon_real)
  let ?b = "del_below (p @ [x]) fs"
  have b: "real_dir ?b p"
    using assms(2) real_dir_outside [of fs p x ?b] by (auto simp: outside_same_def strict_prefix_def)
  have wfb: "fs_wf ?b" using assms(4) by (rule wf_below)
  have leaf: "fs_wf (del_node (p @ [x]) fs)" if "\<not> is_dir_node (node_at fs (p @ [x]))"
    using wf_del [OF assms(4)] wf_leaf [OF assms(4) that] by blast
  have top: "fs_wf (del_node (p @ [x]) ?b)" using wfb by (rule wf_del) (simp add: strict_prefix_def)
  show ?thesis
    using assms(1,4) loc [OF assms(2)] loc [OF b] rmdir_snoc [OF assms(3)] leaf top wfb
    by (auto simp: remove_dir_all_def outside_same_def strict_prefix_def is_dir_node_iff
        split: option.splits node.splits if_splits)
qed

text \<open>The target is made anew, empty, in its place.\<close>

lemma fresh_dest:
  assumes "real_dir fs p" "normal_name x" "fs_wf fs"
  obtains (failed) fs' e where "\<And>linkable layers max_total.
      flatten_limited linkable layers (p @ [x]) max_total fs = (fs', Inl e)" "outside_same (p @ [x]) fs fs'"
    | (made) f where "\<And>linkable layers max_total. flatten_limited linkable layers (p @ [x]) max_total fs =
        apply_entries linkable (p @ [x]) (p @ [x]) max_total 0 (concat layers) f"
      "outside_same (p @ [x]) fs f" "fs_wf f" "real_dir f (p @ [x])"
proof -
  obtain f1 r1 where f1: "(if path_exists fs (p @ [x]) then remove_dir_all fs (p @ [x]) else (fs, Inr ())) = (f1, r1)"
    by (cases "if path_exists fs (p @ [x]) then remove_dir_all fs (p @ [x]) else (fs, Inr ())")
  have s1: "outside_same (p @ [x]) fs f1 \<and> fs_wf f1" and
    n1: "r1 = Inr () \<Longrightarrow> path_exists fs (p @ [x]) \<Longrightarrow> node_at f1 (p @ [x]) = None"
    using f1 remove_dest [OF _ assms] assms(3) by (auto simp: outside_same_def split: if_splits)
  have rd: "real_dir f1 p" using assms(1) s1 by (blast intro: real_dir_outside)
  have mk: "mkdir f1 (p @ [x]) =
      (if node_at f1 (p @ [x]) = None then Inr (add_node (p @ [x]) (DirN 0x1ed) f1) else Inl AlreadyExists)"
    using canon_real [OF rd] real_dirD [OF rd, of p] assms(2) by (simp add: mkdir_snoc)
  consider (err) e where "r1 = Inl e" | (new) "r1 = Inr ()" "node_at f1 (p @ [x]) = None"
    | (old) "r1 = Inr ()" "node_at f1 (p @ [x]) \<noteq> None" by (cases r1) auto
  then show thesis
  proof cases
    case err
    then show ?thesis using f1 s1 by (intro failed [of f1 "IoError e"]) (simp_all add: flatten_limited_def)
  next
    case new
    let ?f = "add_node (p @ [x]) (DirN 0x1ed) f1"
    have o: "outside_same (p @ [x]) fs ?f" using s1 by (auto simp: outside_same_def)
    have "fs_wf ?f" using s1 new real_dirD [OF rd, of p] assms(2) by (intro wf_add) auto
    moreover have "real_dir ?f (p @ [x])"
    proof (rule real_dirI)
      show "list_all normal_name (p @ [x])" using rd assms(2) by (simp add: real_dir_def)
      show "is_dir_node (node_at ?f q)" if "prefix q (p @ [x])" for q
        using that real_dirD [OF rd, of q] by (auto simp: prefix_snoc)
    qed
    moreover have "create_dir_all f1 (p @ [x]) = (?f, Inr ())" using mk new by (simp add: create_dir_all.simps [of f1])
    ultimately show ?thesis using f1 new o canon_real [of ?f "p @ [x]"]
      by (intro made [of ?f]) (simp_all add: flatten_limited_def)
  next
    case old
    then have "\<not> path_exists fs (p @ [x])" "f1 = fs" using n1 f1 by (auto split: if_splits)
    then have "\<not> is_dir f1 (p @ [x])" by (auto simp: path_exists_def is_dir_def is_dir_node_iff split: sum.splits)
    then have "create_dir_all f1 (p @ [x]) = (f1, Inl AlreadyExists)" using mk old by (simp add: create_dir_all.simps [of f1])
    then show ?thesis using f1 old s1 by (intro failed [of f1 "IoError AlreadyExists"]) (simp_all add: flatten_limited_def)
  qed
qed


section \<open>Properties\<close>


lemma fs_wf_check:
  assumes "list_all (\<lambda>(k, n). k \<noteq> [] \<longrightarrow> normal_name (last k) \<and> is_dir_node (node_at fs (butlast k))) fs"
  shows "fs_wf fs"
  unfolding fs_wf_def
proof (intro allI impI)
  fix q x
  assume "node_at fs (q @ [x]) \<noteq> None"
  then have "q @ [x] \<in> fst ` set fs" by (simp add: node_at_def map_of_eq_None_iff)
  then show "normal_name x \<and> is_dir_node (node_at fs q)" using assms by (fastforce simp: list_all_iff)
qed

definition demo_host :: fs where
  "demo_host = [([''d''], DirN 0x1ed), ([''d'', ''key''], FileN [7, 7] 0x180), ([''h''], DirN 0x1ed), ([''h'', ''f''], FileN [1] 0x1a4)]"

lemma demo_host_ok: "fs_wf demo_host" "real_dir demo_host [''d'']" "real_dir demo_host [''h'']"
  by (rule fs_wf_check, simp_all add: demo_host_def node_at_def normal_name_def real_dir_def)

definition demo_entry :: "string \<Rightarrow> entry_kind \<Rightarrow> string option \<Rightarrow> bytes \<Rightarrow> tar_entry" where
  "demo_entry path k link data =
     \<lparr>te_path = path, te_kind = k, te_mode = Some 0x1ed, te_link = link, te_data = data, te_torn = False\<rparr>"




text \<open>What an empty target looks like, and one link put into it.\<close>

lemma fresh_link:
  assumes "fs_wf fs" "real_dir fs p" "normal_name x" "node_at fs (p @ [x]) = None" "t \<noteq> []"
    and n: "normal_name n" "sanitize n = Some [n]" "strip_wh n = None"
  defines "f \<equiv> add_node (p @ [x]) (DirN 0x1ed) fs"
  defines "g \<equiv> add_node ((p @ [x]) @ [n]) (LinkN t) f"
  shows "flatten linkable [Inr (demo_entry n Symlink (Some t) []) # es] (p @ [x]) fs =
      apply_entries linkable (p @ [x]) (p @ [x]) MAX_TOTAL_BYTES 0 es g"
    and "real_dir g (p @ [x])" and "fs_wf g"
proof -
  let ?d = "p @ [x]" and ?l = "demo_entry n Symlink (Some t) []"
  have rp: "canonicalize fs p = Inr p" "is_dir_node (node_at fs p)"
    using canon_real [OF assms(2)] real_dirD [OF assms(2), of p] by simp_all
  have none: "node_at f (?d @ [n]) = None" using wf_no_children [OF assms(1,4)] by (simp add: f_def)
  have wff: "fs_wf f" unfolding f_def using assms(1,4) rp(2) assms(3) by (rule wf_add)
  have rd: "real_dir f ?d"
  proof (rule real_dirI)
    show "list_all normal_name ?d" using assms(2,3) by (simp add: real_dir_def)
    show "is_dir_node (node_at f q)" if "prefix q ?d" for q
      using that real_dirD [OF assms(2), of q] by (auto simp: prefix_snoc f_def)
  qed
  then have df: "canonicalize f ?d = Inr ?d" "is_dir_node (node_at f ?d)"
    using canon_real real_dirD [OF rd, of ?d] by simp_all
  show "fs_wf g" unfolding g_def using wff none df(2) n(1) by (rule wf_add)
  show "real_dir g ?d"
  proof (rule real_dirI)
    show "list_all normal_name ?d" using assms(2,3) by (simp add: real_dir_def)
    show "is_dir_node (node_at g q)" if q: "prefix q ?d" for q
    proof -
      have "q \<noteq> ?d @ [n]" using q by (auto dest!: prefix_length_le)
      then show ?thesis using real_dirD [OF rd q] by (simp add: g_def)
    qed
  qed
  have start: "flatten linkable [Inr ?l # es] ?d fs = apply_entries linkable ?d ?d MAX_TOTAL_BYTES 0 (Inr ?l # es) f"
    using canon_snoc(1) [OF rp assms(3,4)] df(1) rp assms(3,4)
    by (simp add: flatten_def flatten_limited_def path_exists_def create_dir_all.simps [of fs] mkdir_snoc f_def)
  have "canonicalize f p = Inr p" unfolding f_def using rp(1) by (rule canon_mono) (simp add: sub_add assms(4))
  then have "mkdir f ?d = Inl AlreadyExists" using rp(2) assms(3) by (simp add: mkdir_snoc f_def)
  then have mk: "create_dir_all f ?d = (f, Inr ())" using df by (simp add: create_dir_all.simps [of f] is_dir_canon)
  have pn: "parent (?d @ [n]) = Some ?d" using n(1) by (rule parent_snoc)
  have loc: "locate f (?d @ [n]) = Inr (?d @ [n])" using df n(1) by (simp only: locate_snoc) simp
  have "make_room f (?d @ [n]) = (f, Inr ())"
    unfolding make_room_def pn using mk loc none by (simp add: remove_any_def symlink_metadata_def)
  moreover have "create_new f (?d @ [n]) (LinkN t) = Inr g" unfolding create_new_def loc using none by (simp add: g_def)
  ultimately have sym: "extract_symlink f (?d @ [n]) (Some t) = (g, Inr 0)" using assms(5) by (simp add: extract_symlink_def)
  have w: "within_root f ?d (?d @ [n])" unfolding within_root_def pn using df by simp
  have "n \<noteq> WH_OPAQUE" using n(3) by (auto simp: strip_wh_def WH_OPAQUE_def WH_PREFIX_def)
  then have "apply_entry linkable ?d ?d MAX_TOTAL_BYTES ?l f = (g, Inr 0)"
    using sym w n(2,3) by (simp add: apply_entry_def apply_rel_def extract_entry_def demo_entry_def Let_def)
  then show "flatten linkable [Inr ?l # es] ?d fs = apply_entries linkable ?d ?d MAX_TOTAL_BYTES 0 es g"
    using start by simp
qed



text \<open>A link to \<open>q/../..\<close> resolves nowhere while \<open>q\<close> is missing, and beside the target once it is there.\<close>

lemma dangling_link:
  assumes rg: "real_dir g (p @ [x])" and l: "node_at g (p @ [x, ''l'']) = Some (LinkN ''q/../..'')"
    and q: "node_at g (p @ [x, ''q'']) = None"
  defines "d \<equiv> p @ [x]"
  defines "k \<equiv> add_node (d @ [''q'']) (DirN 0x1ed) g"
  shows "canonicalize g (d @ [''l'']) = Inl NotFound" "canonicalize g (d @ [''q'']) = Inl NotFound"
    "canonicalize k (d @ [''l'']) = Inr p" "canonicalize k (d @ [''q'']) = Inr (d @ [''q''])"
    "create_dir_all g (d @ [''q'']) = (k, Inr ())" "is_dir_node (node_at k p)"
proof -
  have n: "normal_name ''q''" by (simp add: normal_name_def)
  have rd: "real_dir g d" using rg by (simp add: d_def)
  have gd: "canonicalize g d = Inr d" "is_dir_node (node_at g d)" using canon_real [OF rd] real_dirD [OF rd, of d] by simp_all
  have gl: "node_at g (d @ [''l'']) = Some (LinkN ''q/../..'')" "node_at g (d @ [''q'']) = None" using l q by (simp_all add: d_def)
  show "canonicalize g (d @ [''l'']) = Inl NotFound"
    using walk_real_dir [OF rd, of MAXLINKS "[''l'']"] gl by (simp add: canonicalize_def MAXLINKS_def link_base_def absolute_def)
  show "canonicalize g (d @ [''q'']) = Inl NotFound" using canon_snoc(1) [OF gd n gl(2)] .
  have sub: "sub_fs g k" unfolding k_def using gl(2) by (intro sub_add) simp_all
  have kd: "canonicalize k d = Inr d" "is_dir_node (node_at k d)"
    using canon_mono [OF gd(1) sub] sub_fs_dir [OF sub gd(2)] by simp_all
  show "canonicalize k (d @ [''q'']) = Inr (d @ [''q''])" by (rule canon_snoc(2) [OF kd n]) (simp add: k_def)
  have rk: "real_dir k d"
    using rd sub_fs_dir [OF sub] real_dirD [OF rd] by (intro real_dirI) (simp_all add: real_dir_def)
  have "node_at k (d @ [''l'']) = Some (LinkN ''q/../..'')" "node_at k (d @ [''q'']) = Some (DirN 0x1ed)" using gl(1) by (simp_all add: k_def)
  then show "canonicalize k (d @ [''l'']) = Inr p"
    using walk_real_dir [OF rk, of MAXLINKS "[''l'']"]
    by (simp add: canonicalize_def MAXLINKS_def link_base_def absolute_def butlast_append d_def)
  show "is_dir_node (node_at k p)" using real_dirD [OF rk, of p] by (simp add: d_def)
  show "create_dir_all g (d @ [''q'']) = (k, Inr ())"
    unfolding k_def using mkdir_snoc [OF n, of g d] gd gl(2) by (subst create_dir_all.simps) simp
qed

text \<open>C26. A hard link can pull in a file of the host: the source is checked before the parents of the
  link are made.  A link \<open>l\<close> to \<open>q/../..\<close> does not resolve while \<open>q\<close> is missing, so a source below it
  passes; making the parent \<open>q\<close> of the new entry completes the link, and the entry becomes the file of
  that name beside the target.\<close>

theorem hardlink_leak:
  assumes "fs_wf fs" "real_dir fs p" "normal_name x" "node_at fs (p @ [x]) = None"
    and "node_at fs (p @ [s]) = Some (FileN secret m)" "normal_name s" "split_on CHR ''/'' s = [s]"
  shows "\<exists>fs'. flatten linkable
      [[Inr (demo_entry ''l'' Symlink (Some ''q/../..'') []), Inr (demo_entry ''q/loot'' Hardlink (Some (''l/'' @ s)) [])]]
      (p @ [x]) fs = (fs', Inr 0) \<and>
      node_at fs' (p @ [x, ''q'', ''loot'']) = Some (FileN secret m)"
proof -
  let ?d = "p @ [x]" and ?t = "''q/../..''" and ?h = "demo_entry ''q/loot'' Hardlink (Some (''l/'' @ s)) []"
  let ?g = "add_node (?d @ [''l'']) (LinkN ?t) (add_node ?d (DirN 0x1ed) fs)"
  let ?k = "add_node (?d @ [''q'']) (DirN 0x1ed) ?g"
  let ?f = "add_node ((?d @ [''q'']) @ [''loot'']) (FileN secret m) ?k"
  have names: "normal_name ''l''" "normal_name ''q''" "normal_name ''loot''" by (simp_all add: normal_name_def)
  have l: "sanitize ''l'' = Some [''l'']" "strip_wh ''l'' = None"
    by (simp_all add: sanitize_def absolute_def strip_wh_def WH_PREFIX_def)
  note start = fresh_link(1) [OF assms(1-4) _ names(1) l, of ?t linkable "[Inr ?h]"] fresh_link(2) [OF assms(1-4) _ names(1) l, of ?t]
  have rg: "real_dir ?g ?d" using start(2) by simp
  have none: "node_at fs (?d @ y) = None" for y by (rule wf_no_children [OF assms(1,4)])
  have q0: "node_at ?g (?d @ [''q'']) = None" using none [of "[''q'']"] by simp
  have gd: "canonicalize ?g ?d = Inr ?d" "is_dir_node (node_at ?g ?d)"
    using canon_real [OF rg] real_dirD [OF rg, of ?d] by simp_all
  have link: "node_at ?g (p @ [x, ''l'']) = Some (LinkN ?t)" "node_at ?g (p @ [x, ''q'']) = None" using q0 by simp_all
  note dl = dangling_link [OF rg link]
  have before: "canonicalize ?g (?d @ [''l'']) = Inl NotFound" by (rule dl(1))
  have after: "canonicalize ?k (?d @ [''l'']) = Inr p" by (rule dl(3))
  have kq: "canonicalize ?k (?d @ [''q'']) = Inr (?d @ [''q''])" by (rule dl(4))
  have pk: "is_dir_node (node_at ?k p)" by (rule dl(6))
  have sk: "node_at ?k (p @ [s]) = Some (FileN secret m)" using assms(4,5) by auto
  have lsrc: "locate ?k ((?d @ [''l'']) @ [s]) = Inr (p @ [s])"
    unfolding locate_snoc [OF assms(6)] after using pk by simp
  have csrc: "canonicalize ?k ((?d @ [''l'']) @ [s]) = Inr (p @ [s])"
    using canon_snoc(3) [OF after pk assms(6) sk] .
  have lout: "locate ?k ((?d @ [''q'']) @ [''loot'']) = Inr ((?d @ [''q'']) @ [''loot''])"
    unfolding locate_snoc [OF names(3)] kq by simp
  have nout: "node_at ?k ((?d @ [''q'']) @ [''loot'']) = None" using none [of "[''q'', ''loot'']"] by simp
  have new: "create_new ?k ((?d @ [''q'']) @ [''loot'']) (FileN secret m) = Inr ?f"
    unfolding create_new_def lout using nout by simp
  have mkq: "create_dir_all ?g (?d @ [''q'']) = (?k, Inr ())" by (rule dl(5))
  have room: "make_room ?g ((?d @ [''q'']) @ [''loot'']) = (?k, Inr ())"
    unfolding make_room_def parent_snoc [OF names(3)] using mkq lout nout
    by (simp add: remove_any_def symlink_metadata_def)
  have san: "sanitize (''l/'' @ s) = Some [''l'', s]" "sanitize ''q/loot'' = Some [''q'', ''loot'']"
    using assms(6,7) by (auto simp: sanitize_def absolute_def normal_name_def)
  have rr: "rootfs_root ((?d @ [''q'']) @ [''loot'']) ''q/loot'' = Some ?d"
    unfolding rootfs_root_def san(2)
    by (simp add: parent_snoc [OF names(3)] parent_snoc [OF names(2)] parent_snoc [OF names(3), of "?d @ [''q'']", simplified]
        parent_snoc [OF names(2), of ?d, simplified])
  have w1: "within_root ?g ?d ((?d @ [''l'']) @ [s])"
    unfolding within_root_def parent_snoc [OF assms(6)] using before gd parent_snoc [OF names(1), of ?d] by simp
  have w2: "within_root ?g ?d ((?d @ [''q'']) @ [''loot''])"
    unfolding within_root_def parent_snoc [OF names(3)] using dl(2) gd parent_snoc [OF names(2), of ?d] by simp
  have hard: "hard_link ?k ((?d @ [''l'']) @ [s]) ((?d @ [''q'']) @ [''loot'']) = Inr ?f"
    unfolding hard_link_def lsrc using sk new by simp
  have copied: "copy_file ?k ((?d @ [''l'']) @ [s]) ((?d @ [''q'']) @ [''loot'']) = Inr ?f"
    unfolding copy_file_def csrc using sk new by simp
  have "extract_link linkable ?g ?d ((?d @ [''q'']) @ [''loot'']) ''q/loot'' (Some (''l/'' @ s)) = (?f, Inr 0)"
    unfolding extract_link_def rr using san(1) w1 room hard copied by (simp add: Let_def)
  then have "apply_entry linkable ?d ?d MAX_TOTAL_BYTES ?h ?g = (?f, Inr 0)"
    using san w2 by (simp add: apply_entry_def apply_rel_def extract_entry_def demo_entry_def Let_def strip_wh_def
        WH_PREFIX_def WH_OPAQUE_def)
  then show ?thesis using start(1) by auto
qed

theorem hardlink_leak_witness:
  "\<exists>fs'. flatten (\<lambda>_. True)
     [[Inr (demo_entry ''l'' Symlink (Some ''q/../..'') []), Inr (demo_entry ''q/loot'' Hardlink (Some ''l/key'') [])]]
     [''d'', ''rootfs''] demo_host = (fs', Inr 0) \<and>
     node_at fs' [''d'', ''rootfs'', ''q'', ''loot''] = Some (FileN [7, 7] 0x180)"
proof -
  have "\<exists>fs'. flatten (\<lambda>_. True)
      [[Inr (demo_entry ''l'' Symlink (Some ''q/../..'') []), Inr (demo_entry ''q/loot'' Hardlink (Some (''l/'' @ ''key'')) [])]]
      ([''d''] @ [''rootfs'']) demo_host = (fs', Inr 0) \<and>
      node_at fs' ([''d''] @ [''rootfs'', ''q'', ''loot'']) = Some (FileN [7, 7] 0x180)"
    by (rule hardlink_leak [OF demo_host_ok(1,2)]) (simp_all add: normal_name_def demo_host_def node_at_def)
  then show ?thesis by simp
qed

end
