(* ===== verification/Framing.thy ===== *)
theory Framing
  imports Prelude
begin

text \<open>
  Self-delimiting records on a byte stream.  The contract of a writer and a reader of one record gives
  the round trip of a sequence of records once and for all; the frames of the control protocol
  (theory \<^verbatim>\<open>Proto\<close>) are its instance.
\<close>

text \<open>Reading a given number of records.\<close>

primrec read_many :: "(bytes \<Rightarrow> ('a \<times> bytes) option) \<Rightarrow> nat \<Rightarrow> bytes \<Rightarrow> ('a list \<times> bytes) option" where
  "read_many rd 0 bs = Some ([], bs)"
| "read_many rd (Suc n) bs =
     (case rd bs of
        None \<Rightarrow> None
      | Some (a, rest) \<Rightarrow> map_option (\<lambda>(as, r). (a # as, r)) (read_many rd n rest))"

locale framing =
  fixes wr :: "'a \<Rightarrow> bytes" and rd :: "bytes \<Rightarrow> ('a \<times> bytes) option" and fits :: "'a \<Rightarrow> bool"
  assumes rd_wr: "fits a \<Longrightarrow> rd (wr a @ rest) = Some (a, rest)"
begin

lemma read_many_wr: "list_all fits as \<Longrightarrow> read_many rd (length as) (concat (map wr as) @ rest) = Some (as, rest)"
  by (induction as) (simp_all add: rd_wr)

lemma wr_inject: "fits a \<Longrightarrow> fits b \<Longrightarrow> wr a = wr b \<Longrightarrow> a = b"
  by (metis rd_wr option.inject prod.inject)

text \<open>No record is a proper beginning of another.\<close>

lemma wr_prefix_free: "fits a \<Longrightarrow> fits b \<Longrightarrow> wr a @ r = wr b @ s \<Longrightarrow> a = b \<and> r = s"
  by (metis rd_wr option.inject prod.inject)

end

end
