(* ===== verification/Proto.thy ===== *)
theory Proto
  imports Framing Text
begin

text \<open>
  The control protocol of the daemon (\<^verbatim>\<open>amber/src/proto.rs\<close>): frames of a tag, a little-endian
  length and a payload.  The encoding of requests and replies by serde is a parameter.  A stream is the
  list of bytes still to be read; writing appends bytes.
\<close>

definition TAG_REQUEST :: u8 where "TAG_REQUEST = 1"
definition TAG_REPLY :: u8 where "TAG_REPLY = 2"
definition TAG_STDOUT :: u8 where "TAG_STDOUT = 3"
definition TAG_STDIN :: u8 where "TAG_STDIN = 4"
definition TAG_STDERR :: u8 where "TAG_STDERR = 5"
definition MAX_FRAME :: nat where "MAX_FRAME = 16 * 1024 * 1024"

datatype request =
    RunOneShot string "string list"
  | RunDetached string "string list"
  | Logs string
  | ListVms
  | BudgetReq
  | Balloon string u64
  | Pause string
  | Resume string
  | Fork string bool
  | Exec string string
  | Kill string
  | ShutdownReq

record vm_info =
  vi_id :: string
  vi_reference :: string
  vi_pid :: u32
  vi_started :: u64
  vi_ram_bytes :: u64
  vi_rss_bytes :: u64
  vi_paused :: bool

datatype reply =
    ExitReply "32 word"
  | Started string "string option"
  | Vms "vm_info list"
  | BudgetReply u64 u64 u64 u64
  | BudgetExceeded u64 u64 u64
  | OkReply
  | ErrorReply string

datatype io_error = UnexpectedEof | InvalidData | OtherIo string

text \<open>The text of an error, and joining a relative name to a path (\<open>to_string\<close> of the standard library's
  errors, \<open>Path::join\<close>).\<close>

definition err_text :: "io_error \<Rightarrow> string" where
  "err_text e =
     (case e of
        UnexpectedEof \<Rightarrow> ''failed to fill whole buffer''
      | InvalidData \<Rightarrow> ''frame too large''
      | OtherIo m \<Rightarrow> m)"

definition path_join :: "string \<Rightarrow> string \<Rightarrow> string" where
  "path_join dir name = (if dir = [] \<or> last dir = CHR ''/'' then dir @ name else dir @ ''/'' @ name)"

definition socket_path :: "string option \<Rightarrow> string \<Rightarrow> u32 \<Rightarrow> string" where
  "socket_path runtime_dir temp_dir uid =
     (case runtime_dir of
        Some dir \<Rightarrow> path_join dir ''amber.sock''
      | None \<Rightarrow> path_join (path_join temp_dir (''amber-'' @ show_nat (unat uid))) ''amber.sock'')"

definition write_frame :: "u8 \<Rightarrow> bytes \<Rightarrow> bytes" where
  "write_frame tag payload = [tag] @ to_le 4 (of_nat (length payload) :: u32) @ payload"

definition read_exact :: "nat \<Rightarrow> bytes \<Rightarrow> io_error + (bytes \<times> bytes)" where
  "read_exact n s = (if length s < n then Inl UnexpectedEof else Inr (take n s, drop n s))"

definition read_frame :: "bytes \<Rightarrow> io_error + ((u8 \<times> bytes) option \<times> bytes)" where
  "read_frame s =
     (case read_exact 1 s of
        Inl e \<Rightarrow> if e = UnexpectedEof then Inr (None, []) else Inl e
      | Inr (tag, s1) \<Rightarrow>
      (case read_exact 4 s1 of
        Inl e \<Rightarrow> Inl e
      | Inr (len, s2) \<Rightarrow>
          let n = unat (from_le len :: u32)
          in if n > MAX_FRAME then Inl InvalidData
             else (case read_exact n s2 of
                     Inl e \<Rightarrow> Inl e
                   | Inr (payload, s3) \<Rightarrow> Inr (Some (hd tag, payload), s3))))"

record proto_codec =
  enc_request :: "request \<Rightarrow> bytes"
  dec_request :: "bytes \<Rightarrow> string + request"
  enc_reply :: "reply \<Rightarrow> bytes"
  dec_reply :: "bytes \<Rightarrow> reply option"

definition write_request :: "proto_codec \<Rightarrow> request \<Rightarrow> bytes" where
  "write_request J req = write_frame TAG_REQUEST (enc_request J req)"

definition write_reply :: "proto_codec \<Rightarrow> reply \<Rightarrow> bytes" where
  "write_reply J r = write_frame TAG_REPLY (enc_reply J r)"


section \<open>Laws\<close>

lemma read_exact_append [simp]: "length xs = n \<Longrightarrow> read_exact n (xs @ ys) = Inr (xs, ys)"
  by (simp add: read_exact_def)

lemma frame_length: "n < 2 ^ 32 \<Longrightarrow> unat (from_le (to_le 4 (of_nat n :: u32)) :: u32) = n"
  by (simp add: from_le_to_le unat_of_nat)

text \<open>Reading back a frame of admissible size, and the refusal of a larger one.\<close>

lemma read_write_frame:
  assumes "length payload < 2 ^ 32"
  shows "read_frame (write_frame tag payload @ rest) =
     (if length payload \<le> MAX_FRAME then Inr (Some (tag, payload), rest) else Inl InvalidData)"
  using frame_length [OF assms]
  by (simp add: read_frame_def write_frame_def read_exact_def Let_def from_le_to_le)

text \<open>One frame off a stream, as an option.\<close>

definition next_frame :: "bytes \<Rightarrow> ((u8 \<times> bytes) \<times> bytes) option" where
  "next_frame s = (case read_frame s of Inr (Some f, rest) \<Rightarrow> Some (f, rest) | _ \<Rightarrow> None)"

interpretation frames: framing "\<lambda>(tag, payload). write_frame tag payload" next_frame
  "\<lambda>(tag, payload). length payload \<le> MAX_FRAME"
proof
  fix a :: "u8 \<times> bytes" and rest
  assume fits: "case a of (tag, payload) \<Rightarrow> length payload \<le> MAX_FRAME"
  obtain tag payload where a: "a = (tag, payload)" by (cases a)
  then have "length payload < 2 ^ 32" using fits by (simp add: MAX_FRAME_def)
  from read_write_frame [OF this, of tag rest]
  show "next_frame ((case a of (tag, payload) \<Rightarrow> write_frame tag payload) @ rest) = Some (a, rest)"
    using a fits by (simp add: next_frame_def)
qed

end
