(* ===== verification/Exec.thy ===== *)
theory Exec
  imports Proto
begin

text \<open>
  Running one command in a fork: the agent in the guest (\<^verbatim>\<open>agent/src/main.rs\<close>), the relay of
  the daemon and the client (\<open>handle_exec\<close>, \<open>exec_relay\<close> and \<open>exec\<close> of
  \<^verbatim>\<open>amber/src/daemon.rs\<close>).  What the shell does with a command is a parameter: the pieces its
  output pipes deliver, in the order they are forwarded, and its exit code.
\<close>

section \<open>The agent\<close>

definition agent_frame :: "u8 \<Rightarrow> bytes \<Rightarrow> bytes" where
  "agent_frame tag payload = [tag] @ to_le 4 (of_nat (length payload) :: u32) @ payload"

definition read_n :: "nat \<Rightarrow> bytes \<Rightarrow> bytes \<times> bytes" where
  "read_n n s = (take n s, drop n s)"

definition le32_or_zero :: "bytes \<Rightarrow> u32" where
  "le32_or_zero bs = (if length bs = 4 then from_le bs else 0)"

definition agent_request :: "bytes \<Rightarrow> bytes \<times> bytes" where
  "agent_request s =
     (let (l1, s1) = read_n 4 s;
          (cmd, s2) = read_n (unat (le32_or_zero l1)) s1;
          (l2, s3) = read_n 4 s2;
          (input, s4) = read_n (unat (le32_or_zero l2)) s3
      in (cmd, input))"

type_synonym shell = "bytes \<Rightarrow> bytes \<Rightarrow> ((u8 \<times> bytes) list \<times> 32 word) option"

definition agent_main :: "shell \<Rightarrow> bytes \<Rightarrow> bytes" where
  "agent_main sh s =
     (let (cmd, input) = agent_request s
      in case sh cmd input of
           None \<Rightarrow> agent_frame 3 (to_le 4 (127 :: 32 word))
         | Some (pieces, rc) \<Rightarrow>
             concat (map (\<lambda>(tag, piece). agent_frame tag piece) pieces) @ agent_frame 3 (to_le 4 rc))"

text \<open>Reads of a pipe into the 16 KiB buffer: never empty before the end, never more than the buffer.\<close>

definition pipe_ok :: "(u8 \<times> bytes) list \<Rightarrow> bool" where
  "pipe_ok pieces \<longleftrightarrow> (\<forall>(tag, piece) \<in> set pieces. (tag = 1 \<or> tag = 2) \<and> piece \<noteq> [] \<and> length piece \<le> 16 * 1024)"


section \<open>The daemon\<close>

definition exec_input :: "bytes \<Rightarrow> bytes" where
  "exec_input s =
     (case read_frame s of
        Inr (Some (tag, b), rest) \<Rightarrow> if tag = TAG_STDIN then b else []
      | _ \<Rightarrow> [])"

definition exec_send :: "bytes \<Rightarrow> bytes \<Rightarrow> bytes" where
  "exec_send cmd input =
     to_le 4 (of_nat (length cmd) :: u32) @ cmd @ to_le 4 (of_nat (length input) :: u32) @ input"

text \<open>The loop of \<open>exec_relay\<close>; \<open>ok i\<close> says whether the \<open>i\<close>-th frame can be written to the client.  The
  frames written are returned with the result.\<close>

function exec_loop :: "(nat \<Rightarrow> bool) \<Rightarrow> nat \<Rightarrow> bytes \<Rightarrow> (io_error + 32 word) \<times> bytes" where
  "exec_loop ok i s =
     (case read_exact 5 s of
        Inl e \<Rightarrow> (Inr (- 1), [])
      | Inr (hdr, s1) \<Rightarrow>
          let n = unat (from_le (drop 1 hdr) :: u32)
          in if n > MAX_FRAME then (Inl (OtherIo ''agent frame too large''), [])
             else
               (case read_exact n s1 of
                  Inl e \<Rightarrow> (Inl e, [])
                | Inr (payload, s2) \<Rightarrow>
                    if hd hdr = 1 \<or> hd hdr = 2
                    then if \<not> ok i then (Inl (OtherIo ''write''), [])
                         else (case exec_loop ok (Suc i) s2 of
                                 (r, out) \<Rightarrow>
                                   (r, write_frame (if hd hdr = 1 then TAG_STDOUT else TAG_STDERR) payload @ out))
                    else if hd hdr = 3
                    then (Inr (if length payload < 4 then 0 else from_le (take 4 payload)), [])
                    else exec_loop ok i s2))"
  by pat_completeness auto
termination
  by (relation "measure (\<lambda>(ok, i, s). length s)") (auto simp: read_exact_def split: if_splits)

declare exec_loop.simps [simp del]

text \<open>From the frame that follows the request to the reply; \<open>conn\<close> is what the agent sends once it
  has what was sent to it, if it dialled in time.\<close>

definition handle_exec_io :: "proto_codec \<Rightarrow> (nat \<Rightarrow> bool) \<Rightarrow> bytes \<Rightarrow> bytes \<Rightarrow> (bytes \<Rightarrow> bytes) option \<Rightarrow> bytes" where
  "handle_exec_io J ok cmd client conn =
     (let input = exec_input client
      in case conn of
           None \<Rightarrow> write_reply J (ErrorReply ''exec agent did not connect'')
         | Some agent \<Rightarrow>
             (case exec_loop ok 0 (agent (exec_send cmd input)) of
                (Inr code, out) \<Rightarrow> out @ write_reply J (ExitReply code)
              | (Inl e, out) \<Rightarrow> out @ write_reply J (ErrorReply (err_text e))))"


section \<open>The client\<close>

definition budget_msg :: "u64 \<Rightarrow> u64 \<Rightarrow> u64 \<Rightarrow> string" where
  "budget_msg budget used requested =
     (let mib = (\<lambda>b. show_nat (unat (b div (1024 * 1024))))
      in ''BudgetExceeded: budget '' @ mib budget @ '' MiB, in use '' @ mib used @ '' MiB, requested '' @
         mib requested @ '' MiB'')"

function client_exec :: "proto_codec \<Rightarrow> bytes \<Rightarrow> bytes \<Rightarrow> bytes \<Rightarrow> (io_error + 32 word) \<times> bytes \<times> bytes" where
  "client_exec J out err s =
     (case read_frame s of
        Inl e \<Rightarrow> (Inl e, out, err)
      | Inr (None, rest) \<Rightarrow> (Inr 0, out, err)
      | Inr (Some (tag, b), rest) \<Rightarrow>
          if tag = TAG_STDOUT then client_exec J (out @ b) err rest
          else if tag = TAG_STDERR then client_exec J out (err @ b) rest
          else if tag = TAG_REPLY
          then (case dec_reply J b of
                  None \<Rightarrow> (Inl InvalidData, out, err)
                | Some (ExitReply code) \<Rightarrow> (Inr code, out, err)
                | Some (ErrorReply m) \<Rightarrow> (Inl (OtherIo m), out, err)
                | Some (BudgetExceeded b u r) \<Rightarrow> (Inl (OtherIo (budget_msg b u r)), out, err)
                | Some _ \<Rightarrow> (Inr 0, out, err))
          else (Inr 0, out, err))"
  by pat_completeness auto
termination
  by (relation "measure (\<lambda>(J, out, err, s). length s)")
    (auto simp: read_frame_def read_exact_def Let_def split: if_splits sum.splits)

declare client_exec.simps [simp del]


section \<open>Laws\<close>

lemma agent_request_send:
  assumes "length cmd < 2 ^ 32" "length input < 2 ^ 32"
  shows "agent_request (exec_send cmd input) = (cmd, input)"
  using assms by (simp add: agent_request_def exec_send_def read_n_def le32_or_zero_def frame_length)

text \<open>The agent's frames are the relay's, one by one.\<close>

lemma exec_loop_frame:
  assumes "length payload \<le> MAX_FRAME"
  shows "exec_loop ok i (agent_frame tag payload @ s) =
     (if tag = 1 \<or> tag = 2
      then if \<not> ok i then (Inl (OtherIo ''write''), [])
           else (case exec_loop ok (Suc i) s of
                   (r, out) \<Rightarrow> (r, write_frame (if tag = 1 then TAG_STDOUT else TAG_STDERR) payload @ out))
      else if tag = 3 then (Inr (if length payload < 4 then 0 else from_le (take 4 payload)), [])
      else exec_loop ok i s)"
proof -
  have "length payload < 2 ^ 32" using assms by (simp add: MAX_FRAME_def)
  then have n: "unat (from_le (to_le 4 (of_nat (length payload) :: u32)) :: u32) = length payload" by (rule frame_length)
  have hdr: "read_exact 5 (agent_frame tag payload @ s) = Inr ([tag] @ to_le 4 (of_nat (length payload) :: u32), payload @ s)"
    by (simp add: agent_frame_def read_exact_def)
  show ?thesis
    by (subst exec_loop.simps, unfold hdr) (use assms n in \<open>simp add: Let_def from_le_to_le\<close>)
qed

definition relay_tag :: "u8 \<Rightarrow> u8" where
  "relay_tag tag = (if tag = 1 then TAG_STDOUT else TAG_STDERR)"

lemma exec_loop_pieces:
  assumes "pipe_ok pieces"
  shows "exec_loop (\<lambda>_. True) i (concat (map (\<lambda>(tag, piece). agent_frame tag piece) pieces) @ agent_frame 3 (to_le 4 rc)) =
    (Inr rc, concat (map (\<lambda>(tag, piece). write_frame (relay_tag tag) piece) pieces))"
  using assms
proof (induction pieces arbitrary: i)
  case Nil
  then show ?case using exec_loop_frame [of "to_le 4 rc" "\<lambda>_. True" i 3 "[]"] by (simp add: MAX_FRAME_def from_le_to_le)
next
  case (Cons p pieces)
  obtain tag piece where p: "p = (tag, piece)" by (cases p)
  then have ok: "pipe_ok pieces" "tag = 1 \<or> tag = 2" "length piece \<le> MAX_FRAME"
    using Cons.prems by (auto simp: pipe_ok_def MAX_FRAME_def)
  show ?case using Cons.IH [OF ok(1)] ok(2,3) p
    by (auto simp: exec_loop_frame relay_tag_def)
qed

lemma client_exec_frame:
  assumes "length b \<le> MAX_FRAME"
  shows "client_exec J out err (write_frame TAG_STDOUT b @ s) = client_exec J (out @ b) err s"
    "client_exec J out err (write_frame TAG_STDERR b @ s) = client_exec J out (err @ b) s"
  using assms
  by (subst client_exec.simps, simp add: read_write_frame MAX_FRAME_def TAG_STDOUT_def TAG_STDERR_def)+

definition stream_of :: "u8 \<Rightarrow> (u8 \<times> bytes) list \<Rightarrow> bytes" where
  "stream_of tag pieces = concat (map snd (filter (\<lambda>p. fst p = tag) pieces))"

lemma client_exec_pieces:
  assumes "pipe_ok pieces"
  shows "client_exec J out err (concat (map (\<lambda>(tag, piece). write_frame (relay_tag tag) piece) pieces) @ s) =
    client_exec J (out @ stream_of 1 pieces) (err @ stream_of 2 pieces) s"
  using assms
proof (induction pieces arbitrary: out err)
  case (Cons p pieces)
  obtain tag piece where p: "p = (tag, piece)" by (cases p)
  then have ok: "pipe_ok pieces" "tag = 1 \<or> tag = 2" "length piece \<le> MAX_FRAME"
    using Cons.prems by (auto simp: pipe_ok_def MAX_FRAME_def)
  then show ?case using Cons.IH [OF ok(1)] p by (auto simp: client_exec_frame relay_tag_def stream_of_def)
qed (simp add: stream_of_def)

lemma client_exec_exit:
  assumes "dec_reply J (enc_reply J (ExitReply rc)) = Some (ExitReply rc)" "length (enc_reply J (ExitReply rc)) \<le> MAX_FRAME"
  shows "client_exec J out err (write_reply J (ExitReply rc)) = (Inr rc, out, err)"
  using assms read_write_frame [of "enc_reply J (ExitReply rc)" TAG_REPLY "[]"]
  by (subst client_exec.simps) (simp add: write_reply_def MAX_FRAME_def TAG_REPLY_def TAG_STDOUT_def TAG_STDERR_def)

end
