(* ===== verification/Exec_Props.thy ===== *)
theory Exec_Props
  imports Exec
begin

text \<open>
  Running a command from the client through the daemon and the agent to the shell and back, and what
  becomes of an input that does not fit a frame.
\<close>

text \<open>What is assumed of serde: an exit reply decodes to itself, and its text fits a frame.\<close>

definition exit_codec_ok :: "proto_codec \<Rightarrow> bool" where
  "exit_codec_ok J \<longleftrightarrow> (\<forall>rc. dec_reply J (enc_reply J (ExitReply rc)) = Some (ExitReply rc) \<and>
     length (enc_reply J (ExitReply rc)) \<le> MAX_FRAME)"

definition demo_codec :: proto_codec where
  "demo_codec =
     \<lparr>enc_request = (\<lambda>_. []), dec_request = (\<lambda>_. Inr ListVms),
      enc_reply = (\<lambda>r. case r of ExitReply rc \<Rightarrow> to_le 4 rc | _ \<Rightarrow> []),
      dec_reply = (\<lambda>bs. if length bs = 4 then Some (ExitReply (from_le bs)) else None)\<rparr>"

lemma demo_codec_ok: "exit_codec_ok demo_codec"
  by (simp add: exit_codec_ok_def demo_codec_def from_le_to_le MAX_FRAME_def)

text \<open>The whole way for the input the daemon took from the client.\<close>

lemma exec_whole:
  assumes "exit_codec_ok J" "length cmd < 2 ^ 32" "exec_input client = input" "length input < 2 ^ 32"
    and "sh cmd input = Some (pieces, rc)" "pipe_ok pieces"
  shows "client_exec J [] [] (handle_exec_io J (\<lambda>_. True) cmd client (Some (agent_main sh))) =
     (Inr rc, stream_of 1 pieces, stream_of 2 pieces)"
proof -
  have "handle_exec_io J (\<lambda>_. True) cmd client (Some (agent_main sh)) =
      concat (map (\<lambda>(tag, piece). write_frame (relay_tag tag) piece) pieces) @ write_reply J (ExitReply rc)"
    using agent_request_send [OF assms(2,4)] assms(3,5) exec_loop_pieces [OF assms(6)]
    by (simp add: handle_exec_io_def agent_main_def)
  then show ?thesis using client_exec_pieces [OF assms(6)] client_exec_exit [of J rc] assms(1)
    by (simp add: exit_codec_ok_def)
qed

text \<open>C11. A command runs as if in a local shell: for every command and every input of at most 16 MiB,
  what the client prints to standard output and standard error is exactly what the shell in the guest
  wrote to each, and the code returned is the shell's.\<close>

theorem exec_end_to_end:
  assumes "exit_codec_ok J" "length cmd < 2 ^ 32" "length input \<le> MAX_FRAME"
    and "sh cmd input = Some (pieces, rc)" "pipe_ok pieces"
  shows "client_exec J [] [] (handle_exec_io J (\<lambda>_. True) cmd (write_frame TAG_STDIN input) (Some (agent_main sh))) =
     (Inr rc, stream_of 1 pieces, stream_of 2 pieces)"
proof -
  have len: "length input < 2 ^ 32" using assms(3) by (simp add: MAX_FRAME_def)
  have "exec_input (write_frame TAG_STDIN input) = input"
    using read_write_frame [OF len, of TAG_STDIN "[]"] assms(3) by (simp add: exec_input_def)
  then show ?thesis using assms len by (intro exec_whole)
qed

definition demo_shell :: shell where
  "demo_shell cmd input = Some ([(1, 104 # input), (2, [33]), (1, [10])], of_nat (length input))"

theorem exec_end_to_end_witness:
  "client_exec demo_codec [] []
     (handle_exec_io demo_codec (\<lambda>_. True) [99, 97, 116] (write_frame TAG_STDIN [105]) (Some (agent_main demo_shell))) =
   (Inr 1, [104, 105, 10], [33])"
  using exec_end_to_end [OF demo_codec_ok, of "[99, 97, 116]" "[105]" demo_shell]
  by (simp add: demo_shell_def pipe_ok_def MAX_FRAME_def stream_of_def)

text \<open>An input larger than a frame is dropped without notice: the command runs with an empty
  standard input, and its output and exit code are reported as if nothing had happened.\<close>

theorem exec_input_dropped:
  assumes "exit_codec_ok J" "length cmd < 2 ^ 32" "MAX_FRAME < length input" "length input < 2 ^ 32"
    and "sh cmd [] = Some (pieces, rc)" "pipe_ok pieces"
  shows "client_exec J [] [] (handle_exec_io J (\<lambda>_. True) cmd (write_frame TAG_STDIN input) (Some (agent_main sh))) =
     (Inr rc, stream_of 1 pieces, stream_of 2 pieces)"
proof -
  have "exec_input (write_frame TAG_STDIN input) = []"
    using read_write_frame [OF assms(4), of TAG_STDIN "[]"] assms(3) by (simp add: exec_input_def)
  then show ?thesis using assms by (intro exec_whole) simp_all
qed

theorem exec_input_dropped_witness:
  "client_exec demo_codec [] []
     (handle_exec_io demo_codec (\<lambda>_. True) [99, 97, 116] (write_frame TAG_STDIN (replicate (Suc MAX_FRAME) 105))
       (Some (agent_main demo_shell))) =
   (Inr 0, [104, 10], [33])"
  using exec_input_dropped [OF demo_codec_ok, of "[99, 97, 116]" "replicate (Suc MAX_FRAME) 105" demo_shell]
  by (simp add: demo_shell_def pipe_ok_def MAX_FRAME_def stream_of_def del: replicate.simps)

end
