(* ===== verification/Manifest.thy ===== *)
theory Manifest
  imports Text
begin

text \<open>
  The fleet manifest (\<^verbatim>\<open>amber/src/manifest.rs\<close>): its data as TOML delivers it, the lookup of a
  template and the parsing of sizes.  Decimal numbers are exact rationals in place of
  \<^verbatim>\<open>f64\<close>; the conversion to an integer truncates and saturates as \<^verbatim>\<open>as usize\<close> does.
\<close>

record fleet =
  fl_ram_budget :: "string option"
  fl_pool_size :: "nat option"

record template =
  tp_image :: string
  tp_ram_cap :: "string option"
  tp_disk_bps :: "string option"
  tp_net_bps :: "string option"
  tp_disks :: "string list"
  tp_env :: "(string \<times> string) list"
  tp_vcpus :: "u32 option"

record manifest =
  mf_fleet :: fleet
  mf_template :: "(string \<times> template) list"

definition manifest_template :: "manifest \<Rightarrow> string \<Rightarrow> template option" where
  "manifest_template m name = map_of (mf_template m) name"

section \<open>Sizes\<close>

definition ascii_alpha :: "char \<Rightarrow> bool" where
  "ascii_alpha c \<longleftrightarrow> (let n = of_char c :: nat in (65 \<le> n \<and> n \<le> 90) \<or> (97 \<le> n \<and> n \<le> 122))"

definition to_lower :: "char \<Rightarrow> char" where
  "to_lower c = (let n = of_char c :: nat in if 65 \<le> n \<and> n \<le> 90 then char_of (n + 32) else c)"

text \<open>An optional sign, digits, and optionally a point and digits, with at least one digit; text with
  a letter is cut off before it gets here.\<close>

definition parse_decimal :: "string \<Rightarrow> rat option" where
  "parse_decimal s =
     (let neg = (s \<noteq> [] \<and> hd s = CHR ''-'');
          t = (if s \<noteq> [] \<and> (hd s = CHR ''-'' \<or> hd s = CHR ''+'') then tl s else s);
          whole = takeWhile (\<lambda>c. c \<noteq> CHR ''.'') t;
          frac = drop (Suc (length whole)) t
      in if whole = [] \<and> frac = [] then None
         else case (digits_from 0 whole, digits_from 0 frac) of
                (Some a, Some b) \<Rightarrow>
                  let v = of_nat a + of_nat b / 10 ^ length frac in Some (if neg then - v else v)
              | _ \<Rightarrow> None)"

definition unit_factor :: "string \<Rightarrow> nat option" where
  "unit_factor u =
     (if u = '''' \<or> u = ''b'' then Some 1
      else if u = ''k'' \<or> u = ''kib'' then Some 1024
      else if u = ''m'' \<or> u = ''mib'' then Some (1024 * 1024)
      else if u = ''g'' \<or> u = ''gib'' then Some (1024 * 1024 * 1024)
      else if u = ''kb'' then Some 1000
      else if u = ''mb'' then Some 1000000
      else if u = ''gb'' then Some 1000000000
      else None)"

definition parse_size :: "string \<Rightarrow> u64 option" where
  "parse_size s0 =
     (let s = trim s0;
          num = takeWhile (\<lambda>c. \<not> ascii_alpha c) s;
          unit = drop (length num) s
      in case parse_decimal (trim num) of
           None \<Rightarrow> None
         | Some v \<Rightarrow>
             if v < 0 then None
             else case unit_factor (map to_lower (trim unit)) of
                    None \<Rightarrow> None
                  | Some k \<Rightarrow>
                      let bytes = min (nat \<lfloor>v * of_nat k\<rfloor>) (2 ^ 64 - 1)
                      in if bytes > 0 then Some (of_nat bytes) else None)"

section \<open>Laws\<close>

lemma digit_not: "digit_of c \<noteq> None \<Longrightarrow> \<not> is_space c \<and> \<not> ascii_alpha c \<and> c \<noteq> CHR ''.'' \<and> c \<noteq> CHR ''-'' \<and> c \<noteq> CHR ''+''"
  by (auto simp: digit_of_def is_space_def ascii_alpha_def Let_def split: if_splits)

lemma alpha_not_space: "ascii_alpha c \<Longrightarrow> \<not> is_space c"
  by (auto simp: is_space_def ascii_alpha_def Let_def)

lemma trim_id: "list_all (\<lambda>c. \<not> is_space c) s \<Longrightarrow> trim s = s"
proof -
  assume s: "list_all (\<lambda>c. \<not> is_space c) s"
  have "dropWhile is_space xs = xs" if "set xs \<subseteq> set s" for xs
    using that s by (cases xs) (auto simp: list_all_iff)
  from this [of s] this [of "rev s"] show ?thesis by (simp add: trim_def)
qed

lemma parse_decimal_show: "parse_decimal (show_nat n) = Some (of_nat n)"
proof -
  have d: "digit_of c \<noteq> None" if "c \<in> set (show_nat n)" for c using that by (rule show_nat_digits)
  have tw: "takeWhile (\<lambda>c. c \<noteq> CHR ''.'') (show_nat n) = show_nat n"
    using d digit_not by (simp add: takeWhile_eq_all_conv)
  have "hd (show_nat n) \<noteq> CHR ''-''" "hd (show_nat n) \<noteq> CHR ''+''"
    using digit_not [OF d [OF hd_in_set [OF show_nat_not_Nil]]] by auto
  then show ?thesis by (simp add: parse_decimal_def Let_def tw digits_from_show_nat)
qed

text \<open>A whole number with a unit is that many of them.\<close>

lemma parse_size_plain:
  assumes "list_all ascii_alpha u" "unit_factor (map to_lower u) = Some k" "0 < n * k" "n * k < 2 ^ 64"
  shows "parse_size (show_nat n @ u) = Some (of_nat (n * k))"
proof -
  have d: "\<not> is_space c \<and> \<not> ascii_alpha c" if "c \<in> set (show_nat n)" for c
    using digit_not [OF show_nat_digits [OF that]] by blast
  have t: "trim (show_nat n @ u) = show_nat n @ u" "trim (show_nat n) = show_nat n" "trim u = u"
    using d assms(1) alpha_not_space by (auto intro!: trim_id simp: list_all_iff)
  have w: "takeWhile (\<lambda>c. \<not> ascii_alpha c) (show_nat n @ u) = show_nat n"
    using d assms(1) by (cases u) (auto simp: takeWhile_append2)
  have "nat \<lfloor>(of_nat n :: rat) * of_nat k\<rfloor> = n * k" by (metis floor_of_nat nat_int of_nat_mult)
  then show ?thesis using t w assms parse_decimal_show [of n] by (simp add: parse_size_def Let_def)
qed

end
