(* ===== verification/Daemon.thy ===== *)
theory Daemon
  imports Proto Manifest
begin

text \<open>
  The supervisor (\<^verbatim>\<open>amber/src/daemon.rs\<close>): the registry of live virtual machines, the warm
  pool, admission against the memory budget, and the request handlers.  Processes, pipes and the log
  directory are the host's: the outcome of each call is an argument.  A kill flag is shared between a
  registry entry and the thread that supervises the process, so the flags are kept by identifier
  beside the registry.  The manifest is read anew for every decision and is an argument too.
\<close>

section \<open>State\<close>

record vm_entry =
  ve_info :: vm_info
  ve_control :: bool
  ve_stdout :: bool
  ve_stdin :: bool
  ve_vsock :: "string option"

record daemon =
  d_reg :: "(string \<times> vm_entry) list"
  d_pool :: "(string \<times> string list) list"
  d_counter :: u64
  d_kill :: "string list"
  d_workers :: "(string \<times> string option) list"
  d_inflight :: "string list"
  d_ctl :: "(string \<times> bytes) list"

definition daemon_init :: daemon where
  "daemon_init = \<lparr>d_reg = [], d_pool = [], d_counter = 0, d_kill = [], d_workers = [], d_inflight = [], d_ctl = []\<rparr>"

definition reg_remove :: "string \<Rightarrow> daemon \<Rightarrow> daemon" where
  "reg_remove i d = d\<lparr>d_reg := filter (\<lambda>(k, e). k \<noteq> i) (d_reg d)\<rparr>"

definition reg_update :: "string \<Rightarrow> (vm_entry \<Rightarrow> vm_entry) \<Rightarrow> daemon \<Rightarrow> daemon" where
  "reg_update i f d = d\<lparr>d_reg := map (\<lambda>(k, e). (k, if k = i then f e else e)) (d_reg d)\<rparr>"

definition settle :: "string \<Rightarrow> daemon \<Rightarrow> daemon" where
  "settle i d = d\<lparr>d_inflight := removeAll i (d_inflight d)\<rparr>"

text \<open>The bytes sent down the control channels, in order, and those of one machine.\<close>

definition ctl_write :: "string \<Rightarrow> bytes \<Rightarrow> daemon \<Rightarrow> daemon" where
  "ctl_write i bs d = d\<lparr>d_ctl := d_ctl d @ [(i, bs)]\<rparr>"

definition ctl_stream :: "string \<Rightarrow> daemon \<Rightarrow> bytes" where
  "ctl_stream i d = concat (map snd (filter (\<lambda>p. fst p = i) (d_ctl d)))"


section \<open>Budget\<close>

definition DEFAULT_MEM_BYTES :: u64 where "DEFAULT_MEM_BYTES = 512 * 1024 * 1024"

definition vm_ram_bytes :: "manifest option \<Rightarrow> string \<Rightarrow> u64" where
  "vm_ram_bytes mf target =
     (case mf of
        None \<Rightarrow> DEFAULT_MEM_BYTES
      | Some m \<Rightarrow>
      (case manifest_template m target of
        None \<Rightarrow> DEFAULT_MEM_BYTES
      | Some t \<Rightarrow>
      (case tp_ram_cap t of
        None \<Rightarrow> DEFAULT_MEM_BYTES
      | Some s \<Rightarrow> (case parse_size s of None \<Rightarrow> DEFAULT_MEM_BYTES | Some b \<Rightarrow> b))))"

definition ram_budget :: "manifest option \<Rightarrow> u64 option" where
  "ram_budget mf =
     (case mf of
        None \<Rightarrow> None
      | Some m \<Rightarrow> (case fl_ram_budget (mf_fleet m) of None \<Rightarrow> None | Some s \<Rightarrow> parse_size s))"

definition pool_target :: "manifest option \<Rightarrow> nat" where
  "pool_target mf =
     (case mf of
        None \<Rightarrow> 1
      | Some m \<Rightarrow> (case fl_pool_size (mf_fleet m) of None \<Rightarrow> 1 | Some n \<Rightarrow> max n 1))"

definition used_bytes :: "daemon \<Rightarrow> u64" where
  "used_bytes d = sum_list (map (\<lambda>(k, e). vi_ram_bytes (ve_info e)) (d_reg d))"

definition vm_name :: "u64 \<Rightarrow> string" where
  "vm_name n = ''vm'' @ show_nat (unat n)"

definition reserve ::
  "manifest option \<Rightarrow> u64 \<Rightarrow> string \<Rightarrow> daemon \<Rightarrow> ((u64 \<times> u64 \<times> u64) + string) \<times> daemon" where
  "reserve mf now reference d =
     (let requested = vm_ram_bytes mf reference; used = used_bytes d;
          i = vm_name (d_counter d + 1);
          info = \<lparr>vi_id = i, vi_reference = reference, vi_pid = 0, vi_started = now,
                  vi_ram_bytes = requested, vi_rss_bytes = 0, vi_paused = False\<rparr>;
          e = \<lparr>ve_info = info, ve_control = False, ve_stdout = False, ve_stdin = False, ve_vsock = None\<rparr>;
          admitted = (Inr i,
            (reg_remove i d)\<lparr>d_counter := d_counter d + 1, d_reg := (i, e) # d_reg (reg_remove i d),
                             d_inflight := i # d_inflight d\<rparr>)
      in case ram_budget mf of
           None \<Rightarrow> admitted
         | Some budget \<Rightarrow> if used + requested > budget then (Inl (budget, used, requested), d) else admitted)"

text \<open>The last worker of the first template that has one.\<close>

fun pop_pooled :: "(string \<times> string list) list \<Rightarrow> (string \<times> (string \<times> string list) list) option" where
  "pop_pooled [] = None"
| "pop_pooled ((t, ids) # p) =
     (if ids = [] then map_option (\<lambda>(i, p'). (i, (t, ids) # p')) (pop_pooled p)
      else Some (last ids, (t, butlast ids) # p))"

definition evict_one_pooled :: "daemon \<Rightarrow> bool \<times> daemon" where
  "evict_one_pooled d =
     (case pop_pooled (d_pool d) of
        None \<Rightarrow> (False, d)
      | Some (i, p) \<Rightarrow>
          let d1 = d\<lparr>d_pool := p\<rparr>
          in (True, if map_of (d_reg d1) i = None then d1
                    else (reg_remove i d1)\<lparr>d_kill := i # d_kill d1\<rparr>))"

definition pool_size :: "daemon \<Rightarrow> nat" where
  "pool_size d = sum_list (map (\<lambda>(t, ids). length ids) (d_pool d))"

lemma pop_pooled_size:
  "pop_pooled p = Some (i, p') \<Longrightarrow>
     sum_list (map (\<lambda>(t, ids). length ids) p') < sum_list (map (\<lambda>(t, ids :: string list). length ids) p)"
  by (induction p arbitrary: p' rule: pop_pooled.induct) (fastforce split: if_splits)+

lemma evict_size: "evict_one_pooled d = (True, d') \<Longrightarrow> pool_size d' < pool_size d"
  using pop_pooled_size [of "d_pool d"]
  by (auto simp: evict_one_pooled_def pool_size_def reg_remove_def Let_def split: option.splits)

lemma reserve_refused: "reserve mf now reference d = (Inl b, d') \<Longrightarrow> d' = d"
  by (auto simp: reserve_def Let_def split: option.splits if_splits)

function reserve_with_evict ::
  "manifest option \<Rightarrow> u64 \<Rightarrow> string \<Rightarrow> daemon \<Rightarrow> ((u64 \<times> u64 \<times> u64) + string) \<times> daemon" where
  "reserve_with_evict mf now reference d =
     (case reserve mf now reference d of
        (Inr i, d1) \<Rightarrow> (Inr i, d1)
      | (Inl budget, d1) \<Rightarrow>
          (case evict_one_pooled d1 of
             (False, d2) \<Rightarrow> (Inl budget, d2)
           | (True, d2) \<Rightarrow> reserve_with_evict mf now reference d2))"
  by pat_completeness auto
termination
  by (relation "measure (\<lambda>(mf, now, r, d). pool_size d)")
    (auto dest!: sym [of _ "reserve _ _ _ _"] sym [of _ "evict_one_pooled _"] reserve_refused evict_size)

declare reserve_with_evict.simps [simp del]

definition set_runtime :: "string \<Rightarrow> u32 \<Rightarrow> daemon \<Rightarrow> daemon" where
  "set_runtime i pid = reg_update i (\<lambda>e. e\<lparr>ve_info := (ve_info e)\<lparr>vi_pid := pid\<rparr>, ve_control := True\<rparr>)"


section \<open>Workers\<close>

definition fork_vsock_base :: "string \<Rightarrow> u32 \<Rightarrow> string \<Rightarrow> string" where
  "fork_vsock_base tmp pid i = path_join tmp (''amber-fork-'' @ show_nat (unat pid) @ ''-'' @ i @ ''.sock'')"

text \<open>How the host answers the calls of one spawn: the log directory and file, the path of the
  executable, the control channel, the process, and whether the worker signals that it is warm.\<close>

record spawn_host =
  sh_logs :: bool
  sh_exe :: bool
  sh_attach :: bool
  sh_pid :: "u32 option"
  sh_warm :: bool

definition abandon :: "string \<Rightarrow> daemon \<Rightarrow> daemon" where
  "abandon i d = settle i (reg_remove i d)"

definition spawn_paused ::
  "manifest option \<Rightarrow> u64 \<Rightarrow> spawn_host \<Rightarrow> string \<Rightarrow> u32 \<Rightarrow> string \<Rightarrow> string option \<Rightarrow> daemon \<Rightarrow>
     (io_error + string) \<times> daemon" where
  "spawn_paused mf now H tmp self template vsock d =
     (case reserve mf now template d of
        (Inl b, d1) \<Rightarrow> (Inl (OtherIo ''RAM budget exceeded''), d1)
      | (Inr i, d1) \<Rightarrow>
          if \<not> sh_logs H then (Inl (OtherIo ''logs''), settle i d1)
          else if \<not> sh_exe H then (Inl (OtherIo ''exe''), settle i d1)
          else if \<not> sh_attach H then (Inl (OtherIo ''control''), abandon i d1)
          else
            (case sh_pid H of
               None \<Rightarrow> (Inl (OtherIo ''spawn''), abandon i d1)
             | Some pid \<Rightarrow>
                 let base = (case vsock of Some v \<Rightarrow> v | None \<Rightarrow> fork_vsock_base tmp self i);
                     d2 = reg_update i (\<lambda>e. e\<lparr>ve_info := (ve_info e)\<lparr>vi_pid := pid\<rparr>\<rparr>) d1
                 in if \<not> sh_warm H then (Inl (OtherIo ''worker failed to warm''), abandon i d2)
                    else (Inr i,
                      settle i (reg_update i (\<lambda>e. e\<lparr>ve_info := (ve_info e)\<lparr>vi_pid := pid\<rparr>, ve_control := True,
                                                    ve_stdout := True, ve_stdin := True, ve_vsock := Some base\<rparr>)
                                 (d2\<lparr>d_workers := (i, Some template) # d_workers d2\<rparr>)))))"

text \<open>The end of a supervising thread: the entry goes, and a pooled worker leaves its pool.\<close>

definition reap_worker :: "string \<Rightarrow> string option \<Rightarrow> daemon \<Rightarrow> daemon" where
  "reap_worker i tmpl d =
     (let d1 = (reg_remove i d)\<lparr>d_workers := filter (\<lambda>(k, t). k \<noteq> i) (d_workers d)\<rparr>
      in case tmpl of
           None \<Rightarrow> d1
         | Some t \<Rightarrow> d1\<lparr>d_pool := map (\<lambda>(u, ids). (u, if u = t then filter (\<lambda>x. x \<noteq> i) ids else ids)) (d_pool d1)\<rparr>)"

text \<open>One poll of a supervising thread sees the process ended (with a code or by a signal), an error,
  or the process alive; the flags are read after it.\<close>

datatype poll = Exited "32 word option" | WaitFailed | Alive

fun supervise :: "(poll \<times> bool \<times> bool) list \<Rightarrow> 32 word option" where
  "supervise [] = None"
| "supervise ((p, kill, client_gone) # ps) =
     (case p of
        Exited c \<Rightarrow> Some (case c of Some code \<Rightarrow> code | None \<Rightarrow> - 1)
      | WaitFailed \<Rightarrow> Some (- 1)
      | Alive \<Rightarrow> if kill \<or> client_gone then Some (- 1) else supervise ps)"

text \<open>The byte that lets a paused worker go, and a control frame; \<open>wrote\<close> is whether the host took it.\<close>

definition release :: "bool \<Rightarrow> string \<Rightarrow> daemon \<Rightarrow> bool \<times> daemon" where
  "release wrote i d =
     (case map_of (d_reg d) i of
        None \<Rightarrow> (False, d)
      | Some e \<Rightarrow> if ve_control e then (wrote, if wrote then ctl_write i [1] d else d) else (False, d))"

definition control_op :: "bool \<Rightarrow> string \<Rightarrow> bytes \<Rightarrow> bool option \<Rightarrow> daemon \<Rightarrow> reply \<times> daemon" where
  "control_op wrote i frame set_paused d =
     (case map_of (d_reg d) i of
        None \<Rightarrow> (ErrorReply (''no such vm: '' @ i), d)
      | Some e \<Rightarrow>
          if \<not> ve_control e then (ErrorReply (''vm '' @ i @ '' has no control channel''), d)
          else if \<not> wrote then (ErrorReply ''control write'', d)
          else (OkReply,
                let d1 = ctl_write i frame d
                in case set_paused of
                     None \<Rightarrow> d1
                   | Some p \<Rightarrow> reg_update i (\<lambda>e. e\<lparr>ve_info := (ve_info e)\<lparr>vi_paused := p\<rparr>\<rparr>) d1))"

definition pool_pop :: "string \<Rightarrow> daemon \<Rightarrow> string option \<times> daemon" where
  "pool_pop t d =
     (case map_of (d_pool d) t of
        None \<Rightarrow> (None, d)
      | Some ids \<Rightarrow>
          if ids = [] then (None, d)
          else (Some (last ids), d\<lparr>d_pool := map (\<lambda>(u, xs). (u, if u = t then butlast xs else xs)) (d_pool d)\<rparr>))"

definition pool_push :: "string \<Rightarrow> string \<Rightarrow> daemon \<Rightarrow> daemon" where
  "pool_push t i d =
     (if map_of (d_pool d) t = None then d\<lparr>d_pool := (t, [i]) # d_pool d\<rparr>
      else d\<lparr>d_pool := map (\<lambda>(u, xs). (u, if u = t then xs @ [i] else xs)) (d_pool d)\<rparr>)"

text \<open>Topping a pool up: one spawn per missing worker, ending at the first failure; the hosts' answers
  are a list, whose end stands for a thread not scheduled further.\<close>

fun refill_pool :: "manifest option \<Rightarrow> u64 \<Rightarrow> spawn_host list \<Rightarrow> string \<Rightarrow> u32 \<Rightarrow> string \<Rightarrow> daemon \<Rightarrow> daemon" where
  "refill_pool mf now [] tmp self t d = d"
| "refill_pool mf now (H # Hs) tmp self t d =
     (if length (case map_of (d_pool d) t of None \<Rightarrow> [] | Some ids \<Rightarrow> ids) < pool_target mf
      then (case spawn_paused mf now H tmp self t None d of
              (Inr i, d1) \<Rightarrow> refill_pool mf now Hs tmp self t (pool_push t i d1)
            | (Inl e, d1) \<Rightarrow> d1)
      else d)"


section \<open>Requests\<close>

text \<open>A fork up to its reply: the identifier of the released worker and whether its console was still
  held, or the error.\<close>

definition handle_fork ::
  "manifest option \<Rightarrow> u64 \<Rightarrow> spawn_host \<Rightarrow> spawn_host list \<Rightarrow> bool \<Rightarrow> string \<Rightarrow> u32 \<Rightarrow> string \<Rightarrow> daemon \<Rightarrow>
     (reply + string \<times> bool) \<times> daemon" where
  "handle_fork mf now H Hs wrote tmp self template d =
     (case (case pool_pop template d of
              (Some i, d1) \<Rightarrow> (Inr i, d1)
            | (None, d1) \<Rightarrow> spawn_paused mf now H tmp self template None d1) of
        (Inl e, d2) \<Rightarrow> (Inl (ErrorReply (err_text e)), d2)
      | (Inr i, d2) \<Rightarrow>
          let cout = (case map_of (d_reg d2) i of None \<Rightarrow> False | Some e \<Rightarrow> ve_stdout e);
              d3 = reg_update i (\<lambda>e. e\<lparr>ve_stdout := False, ve_stdin := False\<rparr>) d2
          in case release wrote i d3 of
               (False, d4) \<Rightarrow> (Inl (ErrorReply (''failed to release '' @ i)), d4)
             | (True, d4) \<Rightarrow> (Inr (i, cout), refill_pool mf now Hs tmp self template d4))"

definition fork_reply :: "string \<Rightarrow> daemon \<Rightarrow> reply" where
  "fork_reply i d = Started i (case map_of (d_reg d) i of None \<Rightarrow> None | Some e \<Rightarrow> ve_vsock e)"

text \<open>From the reservation to the process of a machine, the part that a background start and a one-shot
  run have in common.\<close>

definition launch :: "spawn_host \<Rightarrow> string \<Rightarrow> daemon \<Rightarrow> (io_error + unit) \<times> daemon" where
  "launch H i d =
     (if \<not> sh_exe H then (Inl (OtherIo ''exe''), settle i d)
      else if \<not> sh_attach H then (Inl (OtherIo ''control''), abandon i d)
      else case sh_pid H of
             None \<Rightarrow> (Inl (OtherIo ''spawn''), abandon i d)
           | Some pid \<Rightarrow> (Inr (), set_runtime i pid d))"

definition enlist_worker :: "string \<Rightarrow> string option \<Rightarrow> daemon \<Rightarrow> daemon" where
  "enlist_worker i t d = settle i (d\<lparr>d_workers := (i, t) # d_workers d\<rparr>)"

definition start_detached ::
  "manifest option \<Rightarrow> u64 \<Rightarrow> spawn_host \<Rightarrow> string \<Rightarrow> daemon \<Rightarrow> (io_error + reply) \<times> daemon" where
  "start_detached mf now H reference d =
     (case reserve_with_evict mf now reference d of
        (Inl (budget, used, requested), d1) \<Rightarrow> (Inr (BudgetExceeded budget used requested), d1)
      | (Inr i, d1) \<Rightarrow>
          if \<not> sh_logs H then (Inl (OtherIo ''logs''), settle i d1)
          else (case launch H i d1 of
                  (Inl e, d2) \<Rightarrow> (Inl e, d2)
                | (Inr u, d2) \<Rightarrow> (Inr (Started i None), enlist_worker i None d2)))"

text \<open>A one-shot run supervises its process in the handler; the polls that never end the loop stand for
  a machine that is still running.  When the socket cannot be duplicated the handler returns and
  nothing supervises the process.\<close>

definition run_one_shot ::
  "manifest option \<Rightarrow> u64 \<Rightarrow> spawn_host \<Rightarrow> bool \<Rightarrow> (poll \<times> bool \<times> bool) list \<Rightarrow> string \<Rightarrow> daemon \<Rightarrow>
     (io_error + reply option) \<times> daemon" where
  "run_one_shot mf now H cloned polls reference d =
     (case reserve_with_evict mf now reference d of
        (Inl (budget, used, requested), d1) \<Rightarrow> (Inr (Some (BudgetExceeded budget used requested)), d1)
      | (Inr i, d1) \<Rightarrow>
          (case launch H i d1 of
             (Inl e, d2) \<Rightarrow> (Inl e, d2)
           | (Inr u, d2) \<Rightarrow>
               if \<not> cloned then (Inl (OtherIo ''clone''), settle i d2)
               else
                 let d3 = enlist_worker i None d2
                 in case supervise polls of
                      None \<Rightarrow> (Inr None, d3)
                    | Some code \<Rightarrow> (Inr (Some (ExitReply code)), reap_worker i None d3)))"

definition handle_kill :: "string \<Rightarrow> daemon \<Rightarrow> reply \<times> daemon" where
  "handle_kill i d =
     (case map_of (d_reg d) i of
        None \<Rightarrow> (ErrorReply (''no such vm: '' @ i), d)
      | Some e \<Rightarrow> (OkReply, d\<lparr>d_kill := i # d_kill d\<rparr>))"

definition handle_list :: "(u32 \<Rightarrow> u64) \<Rightarrow> daemon \<Rightarrow> reply" where
  "handle_list rss d =
     Vms (map (\<lambda>(k, e). (ve_info e)\<lparr>vi_rss_bytes := rss (vi_pid (ve_info e))\<rparr>) (d_reg d))"

definition handle_budget :: "manifest option \<Rightarrow> (u32 \<Rightarrow> u64) \<Rightarrow> u64 \<Rightarrow> daemon \<Rightarrow> reply" where
  "handle_budget mf rss machine d =
     BudgetReply (case ram_budget mf of None \<Rightarrow> 0 | Some b \<Rightarrow> b) (used_bytes d)
       (sum_list (map (\<lambda>(k, e). rss (vi_pid (ve_info e))) (d_reg d))) machine"

definition shutdown_kills :: "daemon \<Rightarrow> u32 list" where
  "shutdown_kills d = filter (\<lambda>p. p \<noteq> 0) (map (\<lambda>(k, e). vi_pid (ve_info e)) (d_reg d))"

end
