(* ===== verification/Serve.thy ===== *)
theory Serve
  imports Daemon Exec Core
begin

text \<open>
  A connection of the supervisor from its first byte to its last reply
  (\<^verbatim>\<open>handle\<close> of \<^verbatim>\<open>amber/src/daemon.rs\<close> and what it calls), with the
  console relays, and the client's side of a plain request.  What the host answers is the record
  \<open>req_host\<close>.  A reply that cannot be written ends the connection and changes nothing else, so replies
  are the bytes handed to the socket.
\<close>

section \<open>Relays\<close>

text \<open>The pieces read from the guest's console as frames, up to the first that the client does not take;
  the flag says whether there was one.\<close>

fun relay_output :: "(nat \<Rightarrow> bool) \<Rightarrow> nat \<Rightarrow> bytes list \<Rightarrow> bytes \<times> bool" where
  "relay_output ok i [] = ([], False)"
| "relay_output ok i (p # ps) =
     (if \<not> ok i then ([], True)
      else case relay_output ok (Suc i) ps of (out, gone) \<Rightarrow> (write_frame TAG_STDOUT p @ out, gone))"

text \<open>The client's frames to the guest's console: what is delivered and whether the client left.  A
  guest that does not take its input ends the relay without that mark.\<close>

function relay_input :: "(nat \<Rightarrow> bool) \<Rightarrow> nat \<Rightarrow> bytes \<Rightarrow> bytes \<times> bool" where
  "relay_input ok i s =
     (case read_frame s of
        Inr (Some (tag, payload), rest) \<Rightarrow>
          if tag = TAG_STDIN
          then if \<not> ok i then ([], False)
               else (case relay_input ok (Suc i) rest of (out, gone) \<Rightarrow> (payload @ out, gone))
          else relay_input ok i rest
      | _ \<Rightarrow> ([], True))"
  by pat_completeness auto
termination
  by (relation "measure (\<lambda>(ok, i, s). length s)")
    (auto simp: read_frame_def read_exact_def Let_def split: if_splits sum.splits)

declare relay_input.simps [simp del]

text \<open>The interactive relay; \<open>left\<close> is whether the input side had seen the client leave by the time the
  output side ended.  The result is what the client gets and whether the worker is to be killed.\<close>

definition relay_interactive ::
  "proto_codec \<Rightarrow> (nat \<Rightarrow> bool) \<Rightarrow> bool \<Rightarrow> bytes list \<Rightarrow> bool \<Rightarrow> bytes \<times> bool" where
  "relay_interactive J ok cout pieces left =
     (let (out, gone) = (if cout then relay_output ok 0 pieces else ([], False))
      in (out @ write_reply J (ExitReply 0), gone \<or> left))"


section \<open>Requests\<close>

record req_host =
  rh_now :: u64
  rh_tmp :: string
  rh_self :: u32
  rh_spawn :: spawn_host
  rh_refill :: "spawn_host list"
  rh_wrote :: bool
  rh_cloned :: bool
  rh_polls :: "(poll \<times> bool \<times> bool) list"
  rh_rss :: "u32 \<Rightarrow> u64"
  rh_machine :: u64
  rh_bound :: bool
  rh_agent :: "(bytes \<Rightarrow> bytes) option"
  rh_takes :: "nat \<Rightarrow> bool"
  rh_console :: "bytes list"
  rh_left :: bool
  rh_log :: "string \<Rightarrow> bytes option"

text \<open>How a connection ends: with an error that is only logged or without, the bytes the client gets,
  and the daemon, which a shutdown ends after killing processes and removing sockets.\<close>

datatype after = Serving daemon | Down "u32 list" "string list"

type_synonym served = "io_error option \<times> bytes \<times> after"

definition kill_flag :: "string \<Rightarrow> daemon \<Rightarrow> daemon" where
  "kill_flag i d = (if map_of (d_reg d) i = None then d else d\<lparr>d_kill := i # d_kill d\<rparr>)"

definition serve_fork ::
  "manifest option \<Rightarrow> proto_codec \<Rightarrow> req_host \<Rightarrow> string \<Rightarrow> bool \<Rightarrow> daemon \<Rightarrow> served" where
  "serve_fork mf J H template interactive d =
     (case handle_fork mf (rh_now H) (rh_spawn H) (rh_refill H) (rh_wrote H) (rh_tmp H) (rh_self H) template d of
        (Inl r, d1) \<Rightarrow> (None, write_reply J r, Serving d1)
      | (Inr (i, cout), d1) \<Rightarrow>
          if interactive
          then (if \<not> rh_cloned H then (Some (OtherIo ''clone''), [], Serving d1)
                else case relay_interactive J (rh_takes H) cout (rh_console H) (rh_left H) of
                       (out, kill) \<Rightarrow> (None, out, Serving (if kill then kill_flag i d1 else d1)))
          else (None, write_reply J (fork_reply i d1), Serving d1))"

definition exec_base :: "string \<Rightarrow> u32 \<Rightarrow> u64 \<Rightarrow> string" where
  "exec_base tmp self n =
     path_join tmp (''amber-exec-'' @ show_nat (unat self) @ ''-'' @ show_nat (unat n) @ ''.sock'')"

definition handle_exec ::
  "manifest option \<Rightarrow> proto_codec \<Rightarrow> req_host \<Rightarrow> string \<Rightarrow> bytes \<Rightarrow> bytes \<Rightarrow> daemon \<Rightarrow> served" where
  "handle_exec mf J H template cmd client d =
     (let base = exec_base (rh_tmp H) (rh_self H) (d_counter d);
          d0 = d\<lparr>d_counter := d_counter d + 1\<rparr>
      in if \<not> rh_bound H then (Some (OtherIo ''bind''), [], Serving d0)
         else (case spawn_paused mf (rh_now H) (rh_spawn H) (rh_tmp H) (rh_self H) template (Some base) d0 of
                 (Inl e, d1) \<Rightarrow> (None, write_reply J (ErrorReply (err_text e)), Serving d1)
               | (Inr i, d1) \<Rightarrow>
                   (None, handle_exec_io J (rh_takes H) cmd client (rh_agent H),
                    Serving (kill_flag i (snd (release (rh_wrote H) i d1))))))"

definition stream_logs :: "proto_codec \<Rightarrow> req_host \<Rightarrow> string \<Rightarrow> bytes" where
  "stream_logs J H i =
     (case rh_log H i of
        Some bs \<Rightarrow> write_frame TAG_STDOUT bs @ write_reply J OkReply
      | None \<Rightarrow> write_reply J (ErrorReply (''no logs for '' @ i)))"

text \<open>The console frames of a one-shot run come before its exit code.\<close>

definition serve_one_shot :: "manifest option \<Rightarrow> proto_codec \<Rightarrow> req_host \<Rightarrow> string \<Rightarrow> daemon \<Rightarrow> served" where
  "serve_one_shot mf J H reference d =
     (case run_one_shot mf (rh_now H) (rh_spawn H) (rh_cloned H) (rh_polls H) reference d of
        (Inl e, d1) \<Rightarrow> (Some e, [], Serving d1)
      | (Inr (Some (ExitReply code)), d1) \<Rightarrow>
          (None, fst (relay_output (rh_takes H) 0 (rh_console H)) @ write_reply J (ExitReply code), Serving d1)
      | (Inr (Some r), d1) \<Rightarrow> (None, write_reply J r, Serving d1)
      | (Inr None, d1) \<Rightarrow> (None, fst (relay_output (rh_takes H) 0 (rh_console H)), Serving d1))"

definition reply_with :: "proto_codec \<Rightarrow> reply \<times> daemon \<Rightarrow> served" where
  "reply_with J r = (None, write_reply J (fst r), Serving (snd r))"

definition serve_request ::
  "manifest option \<Rightarrow> proto_codec \<Rightarrow> req_host \<Rightarrow> string \<Rightarrow> request \<Rightarrow> bytes \<Rightarrow> daemon \<Rightarrow> served" where
  "serve_request mf J H sock req client d =
     (case req of
        ListVms \<Rightarrow> reply_with J (handle_list (rh_rss H) d, d)
      | BudgetReq \<Rightarrow> reply_with J (handle_budget mf (rh_rss H) (rh_machine H) d, d)
      | Balloon i mib \<Rightarrow> reply_with J (control_op (rh_wrote H) i (BALLOON # to_le 8 mib) None d)
      | Pause i \<Rightarrow> reply_with J (control_op (rh_wrote H) i [PAUSE] (Some True) d)
      | Resume i \<Rightarrow> reply_with J (control_op (rh_wrote H) i [RESUME] (Some False) d)
      | Fork template interactive \<Rightarrow> serve_fork mf J H template interactive d
      | Exec template cmd \<Rightarrow> handle_exec mf J H template (map of_char cmd) client d
      | Kill i \<Rightarrow> reply_with J (handle_kill i d)
      | ShutdownReq \<Rightarrow>
          (None, write_reply J OkReply,
           Down (shutdown_kills d) (List.map_filter (\<lambda>(k, e). ve_vsock e) (d_reg d) @ [sock]))
      | RunOneShot reference argv \<Rightarrow> serve_one_shot mf J H reference d
      | RunDetached reference argv \<Rightarrow>
          (case start_detached mf (rh_now H) (rh_spawn H) reference d of
             (Inl e, d1) \<Rightarrow> (Some e, [], Serving d1)
           | (Inr r, d1) \<Rightarrow> (None, write_reply J r, Serving d1))
      | Logs i \<Rightarrow> (None, stream_logs J H i, Serving d))"

definition authorized :: "u32 option \<Rightarrow> u32 \<Rightarrow> bool" where
  "authorized peer euid = (peer = Some euid)"

definition handle ::
  "manifest option \<Rightarrow> proto_codec \<Rightarrow> req_host \<Rightarrow> u32 option \<Rightarrow> u32 \<Rightarrow> string \<Rightarrow> bytes \<Rightarrow> daemon \<Rightarrow> served" where
  "handle mf J H peer euid sock client d =
     (if \<not> authorized peer euid then (None, write_reply J (ErrorReply ''unauthorized''), Serving d)
      else case read_frame client of
             Inl e \<Rightarrow> (Some e, [], Serving d)
           | Inr (None, rest) \<Rightarrow> (None, [], Serving d)
           | Inr (Some (tag, payload), rest) \<Rightarrow>
               if tag \<noteq> TAG_REQUEST
               then (None, write_reply J (ErrorReply ''expected a request''), Serving d)
               else (case dec_request J payload of
                       Inl e \<Rightarrow> (None, write_reply J (ErrorReply (''bad request: '' @ e)), Serving d)
                     | Inr req \<Rightarrow> serve_request mf J H sock req rest d))"


section \<open>The client\<close>

definition client_request :: "proto_codec \<Rightarrow> bytes \<Rightarrow> io_error + reply" where
  "client_request J s =
     (case read_frame s of
        Inl e \<Rightarrow> Inl e
      | Inr (Some (tag, payload), rest) \<Rightarrow>
          if tag = TAG_REPLY
          then (case dec_reply J payload of None \<Rightarrow> Inl InvalidData | Some r \<Rightarrow> Inr r)
          else Inl (OtherIo ''unexpected reply'')
      | Inr (None, rest) \<Rightarrow> Inl (OtherIo ''unexpected reply''))"

definition client_started :: "io_error + reply \<Rightarrow> io_error + (string \<times> string option)" where
  "client_started r =
     (case r of
        Inl e \<Rightarrow> Inl e
      | Inr (Started i vsock) \<Rightarrow> Inr (i, vsock)
      | Inr (BudgetExceeded budget used requested) \<Rightarrow> Inl (OtherIo (budget_msg budget used requested))
      | Inr (ErrorReply m) \<Rightarrow> Inl (OtherIo m)
      | Inr _ \<Rightarrow> Inl (OtherIo ''unexpected reply''))"

definition client_ok :: "io_error + reply \<Rightarrow> io_error + unit" where
  "client_ok r =
     (case r of
        Inl e \<Rightarrow> Inl e
      | Inr (ErrorReply m) \<Rightarrow> Inl (OtherIo m)
      | Inr _ \<Rightarrow> Inr ())"

text \<open>The output side of an interactive run or fork.\<close>

function stream_client :: "proto_codec \<Rightarrow> bytes \<Rightarrow> bytes \<Rightarrow> (io_error + 32 word) \<times> bytes" where
  "stream_client J out s =
     (case read_frame s of
        Inl e \<Rightarrow> (Inl e, out)
      | Inr (None, rest) \<Rightarrow> (Inr 0, out)
      | Inr (Some (tag, b), rest) \<Rightarrow>
          if tag = TAG_STDOUT then stream_client J (out @ b) rest
          else if tag = TAG_REPLY
          then (case dec_reply J b of
                  None \<Rightarrow> (Inl InvalidData, out)
                | Some (ExitReply code) \<Rightarrow> (Inr code, out)
                | Some (ErrorReply m) \<Rightarrow> (Inl (OtherIo m), out)
                | Some (BudgetExceeded b u r) \<Rightarrow> (Inl (OtherIo (budget_msg b u r)), out)
                | Some _ \<Rightarrow> (Inr 0, out))
          else (Inr 0, out))"
  by pat_completeness auto
termination
  by (relation "measure (\<lambda>(J, out, s). length s)")
    (auto simp: read_frame_def read_exact_def Let_def split: if_splits sum.splits)

declare stream_client.simps [simp del]

function client_logs :: "proto_codec \<Rightarrow> bytes \<Rightarrow> bytes \<Rightarrow> (io_error + unit) \<times> bytes" where
  "client_logs J out s =
     (case read_frame s of
        Inl e \<Rightarrow> (Inl e, out)
      | Inr (Some (tag, b), rest) \<Rightarrow>
          if tag = TAG_STDOUT then client_logs J (out @ b) rest
          else if tag = TAG_REPLY
          then (case dec_reply J b of
                  None \<Rightarrow> (Inl InvalidData, out)
                | Some (ErrorReply m) \<Rightarrow> (Inl (OtherIo m), out)
                | Some _ \<Rightarrow> (Inr (), out))
          else (Inr (), out)
      | Inr (None, rest) \<Rightarrow> (Inr (), out))"
  by pat_completeness auto
termination
  by (relation "measure (\<lambda>(J, out, s). length s)")
    (auto simp: read_frame_def read_exact_def Let_def split: if_splits sum.splits)

declare client_logs.simps [simp del]

end
