(* ===== verification/Daemon_Props.thy ===== *)
theory Daemon_Props
  imports Daemon
begin

text \<open>
  The daemon as its threads interleave: every region under the registry or pool lock is one step.
  Admission keeps the fleet within its budget along every interleaving; an arithmetic corner and a
  cleanup that is missing break it.
\<close>

section \<open>Interleavings\<close>

definition pool_ids :: "daemon \<Rightarrow> string set" where
  "pool_ids d = (\<Union>p \<in> set (d_pool d). set (snd p))"

inductive daemon_step :: "manifest option \<Rightarrow> daemon \<Rightarrow> daemon \<Rightarrow> bool" for mf where
  admit: "\<lbrakk>reserve mf now r d = (Inr i, d'); unat (d_counter d) + 1 < 2 ^ 64\<rbrakk> \<Longrightarrow> daemon_step mf d d'"
| evict: "evict_one_pooled d = (True, d') \<Longrightarrow> daemon_step mf d d'"
| give_up: "i \<in> set (d_inflight d) \<Longrightarrow> daemon_step mf d (settle i d)"
| cleanup: "i \<in> set (d_inflight d) \<Longrightarrow> daemon_step mf d (abandon i d)"
| touch: "(\<And>e. vi_ram_bytes (ve_info (f e)) = vi_ram_bytes (ve_info e) \<and> vi_id (ve_info (f e)) = vi_id (ve_info e)) \<Longrightarrow> daemon_step mf d (reg_update i f d)"
| enlist: "i \<in> set (d_inflight d) \<Longrightarrow> daemon_step mf d (settle i (d\<lparr>d_workers := (i, t) # d_workers d\<rparr>))"
| push: "i \<in> fst ` set (d_workers d) \<or> i \<notin> fst ` set (d_reg d) \<and> (\<exists>n. 0 < n \<and> n \<le> unat (d_counter d) \<and> i = vm_name (of_nat n))
    \<Longrightarrow> daemon_step mf d (pool_push t i d)"
| pop: "pool_pop t d = (Some i, d') \<Longrightarrow> daemon_step mf d d'"
| kill: "daemon_step mf d (d\<lparr>d_kill := i # d_kill d\<rparr>)"
| tick: "unat (d_counter d) + 1 < 2 ^ 64 \<Longrightarrow> daemon_step mf d (d\<lparr>d_counter := d_counter d + 1\<rparr>)"
| send: "daemon_step mf d (ctl_write i bs d)"
| reap: "(i, t) \<in> set (d_workers d) \<Longrightarrow> daemon_step mf d (reap_worker i t d)"

definition ram_total :: "daemon \<Rightarrow> nat" where
  "ram_total d = sum_list (map (\<lambda>(k, e). unat (vi_ram_bytes (ve_info e))) (d_reg d))"

lemma unat_sum_list:
  "sum_list (map unat xs) < 2 ^ 64 \<Longrightarrow> unat (sum_list xs :: u64) = sum_list (map unat xs)"
  by (induction xs) (simp_all add: unat_word_ariths)

lemma used_ram_total: "ram_total d < 2 ^ 64 \<Longrightarrow> unat (used_bytes d) = ram_total d"
  using unat_sum_list [of "map (\<lambda>(k, e). vi_ram_bytes (ve_info e)) (d_reg d)"]
  by (simp add: used_bytes_def ram_total_def split_def comp_def)

lemma ram_remove: "ram_total (reg_remove i d) \<le> ram_total d"
proof -
  have "sum_list (map (\<lambda>(k, e). f e) (filter (\<lambda>(k, e). k \<noteq> i) xs)) \<le> sum_list (map (\<lambda>(k, e). f e) xs)"
    for f :: "vm_entry \<Rightarrow> nat" and xs by (induction xs) auto
  then show ?thesis by (simp add: ram_total_def reg_remove_def)
qed

lemma ram_update:
  "(\<And>e. vi_ram_bytes (ve_info (f e)) = vi_ram_bytes (ve_info e)) \<Longrightarrow> ram_total (reg_update i f d) = ram_total d"
  unfolding ram_total_def reg_update_def
  by (simp add: comp_def split_def) (metis (mono_tags, lifting))

lemma ram_same: "d_reg d' = d_reg d \<Longrightarrow> ram_total d' = ram_total d"
  by (simp add: ram_total_def)

lemma ram_reserve:
  assumes "reserve mf now r d = (Inr i, d')"
  shows "ram_total d' \<le> ram_total d + unat (vm_ram_bytes mf r)"
    "ram_budget mf = Some B \<Longrightarrow> used_bytes d + vm_ram_bytes mf r \<le> B"
  using assms ram_remove [of "vm_name (d_counter d + 1)" d]
  by (auto simp: reserve_def ram_total_def Let_def split: option.splits if_splits)

lemma ram_evict: "evict_one_pooled d = (b, d') \<Longrightarrow> ram_total d' \<le> ram_total d"
proof -
  assume ev: "evict_one_pooled d = (b, d')"
  have "ram_total (reg_remove i (d\<lparr>d_pool := p\<rparr>)) \<le> ram_total d" for i p
    using ram_remove [of i "d\<lparr>d_pool := p\<rparr>"] by (simp add: ram_total_def)
  then show ?thesis using ev
    by (auto simp: evict_one_pooled_def ram_total_def Let_def split: option.splits if_splits)
qed

text \<open>Adding one admitted machine does not go past the budget.\<close>

lemma admit_fits:
  assumes "ram_budget mf = Some B" "\<And>r. unat B + unat (vm_ram_bytes mf r) < 2 ^ 64" "ram_total d \<le> unat B"
    and "reserve mf now r d = (Inr i, d')"
  shows "ram_total d' \<le> unat B"
proof -
  have lt: "ram_total d + unat (vm_ram_bytes mf r) < 2 ^ 64" using assms(2) [of r] assms(3) by linarith
  then have "unat (used_bytes d) = ram_total d" by (intro used_ram_total) simp
  then have "unat (used_bytes d + vm_ram_bytes mf r) = ram_total d + unat (vm_ram_bytes mf r)"
    using lt by (simp add: unat_word_ariths)
  then show ?thesis using ram_reserve [OF assms(4)] assms(1) by (simp add: word_le_nat_alt)
qed

lemma step_budget:
  assumes "daemon_step mf d d'" "ram_budget mf = Some B" "\<And>r. unat B + unat (vm_ram_bytes mf r) < 2 ^ 64"
    "ram_total d \<le> unat B"
  shows "ram_total d' \<le> unat B"
  using assms
proof (induction rule: daemon_step.induct)
  case (admit now r d i d')
  then show ?case using admit_fits by blast
next
  case (evict d d')
  then show ?case using ram_evict [OF evict(1)] by simp
next
  case (cleanup i d)
  then show ?case using ram_remove [of i d] by (simp add: abandon_def settle_def ram_total_def)
next
  case (touch f d i)
  then show ?case by (simp add: ram_update)
next
  case (reap i t d)
  then show ?case using ram_remove [of i d] by (cases t) (simp_all add: reap_worker_def ram_total_def Let_def)
qed (auto simp: ram_total_def settle_def ctl_write_def pool_push_def pool_pop_def split: option.splits if_splits)


definition demo_manifest :: manifest where
  "demo_manifest =
     \<lparr>mf_fleet = \<lparr>fl_ram_budget = Some (show_nat 1 @ ''GiB''), fl_pool_size = None\<rparr>,
      mf_template = [(''huge'', \<lparr>tp_image = ''x'', tp_ram_cap = Some (show_nat (2 ^ 64 - 1)), tp_disk_bps = None,
        tp_net_bps = None, tp_disks = [], tp_env = [], tp_vcpus = None\<rparr>)]\<rparr>"

lemma demo_budget: "ram_budget (Some demo_manifest) = Some 0x40000000"
proof -
  have "map to_lower ''GiB'' = ''gib''" by code_simp
  then have "parse_size (show_nat 1 @ ''GiB'') = Some (of_nat (1 * (1024 * 1024 * 1024)))"
    by (intro parse_size_plain) (simp_all add: ascii_alpha_def unit_factor_def)
  then show ?thesis by (simp add: ram_budget_def demo_manifest_def)
qed

lemma demo_ram: "r \<noteq> ''huge'' \<Longrightarrow> vm_ram_bytes (Some demo_manifest) r = 0x20000000"
  by (simp add: vm_ram_bytes_def demo_manifest_def manifest_template_def DEFAULT_MEM_BYTES_def)

lemma demo_huge: "vm_ram_bytes (Some demo_manifest) ''huge'' = - 1"
proof -
  have "parse_size (show_nat (2 ^ 64 - 1) @ '''') = Some (of_nat ((2 ^ 64 - 1) * 1))"
    by (rule parse_size_plain) (simp_all add: unit_factor_def)
  then show ?thesis by (simp add: vm_ram_bytes_def demo_manifest_def manifest_template_def)
qed

definition small_manifest :: manifest where
  "small_manifest = demo_manifest\<lparr>mf_template := []\<rparr>"


text \<open>Admission is computed modulo 2 to the 64: with any machine registered, a template whose cap
  does not fit beside it is admitted, whatever the budget, and the fleet is over budget.\<close>

theorem budget_wraps:
  assumes "ram_budget mf = Some B" "vm_ram_bytes mf r = - 1" "0 < used_bytes d" "used_bytes d \<le> B"
    and "vm_name (d_counter d + 1) \<notin> fst ` set (d_reg d)"
  shows "\<exists>i d'. reserve mf now r d = (Inr i, d') \<and> unat B < ram_total d'"
proof -
  have wrap: "used_bytes d + vm_ram_bytes mf r \<le> B"
  proof -
    have "used_bytes d \<noteq> 0" using assms(3) by auto
    then have "unat (used_bytes d - 1) = unat (used_bytes d) - 1" by (rule unat_minus_one)
    then show ?thesis using assms(2,4) by (simp add: word_le_nat_alt)
  qed
  let ?i = "vm_name (d_counter d + 1)"
  obtain d' where d': "reserve mf now r d = (Inr ?i, d')"
    using wrap assms(1) by (simp add: reserve_def Let_def not_less)
  have "filter (\<lambda>(k, e). k \<noteq> ?i) (d_reg d) = d_reg d" using assms(5) by (force simp: filter_id_conv)
  then have sum: "ram_total d' = unat (- 1 :: u64) + ram_total d"
    using d' assms(1,2) by (auto simp: reserve_def Let_def ram_total_def reg_remove_def split: if_splits)
  have "ram_total d \<noteq> 0" using used_ram_total [of d] assms(3) by (cases "ram_total d = 0") (auto simp: word_less_nat_alt)
  moreover have "unat B \<le> unat (- 1 :: u64)" by (simp flip: word_le_nat_alt)
  ultimately show ?thesis using d' sum by auto
qed

theorem budget_wraps_witness:
  "\<exists>d d' i. (daemon_step (Some demo_manifest))\<^sup>*\<^sup>* daemon_init d \<and>
     reserve (Some demo_manifest) 0 ''huge'' d = (Inr i, d') \<and> 0x40000000 < ram_total d'"
proof -
  let ?mf = "Some demo_manifest"
  obtain d where d: "reserve ?mf 0 ''alpine'' daemon_init = (Inr (vm_name 1), d)"
    by (simp add: reserve_def demo_budget demo_ram daemon_init_def used_bytes_def Let_def)
  then have reg: "map fst (d_reg d) = [vm_name 1]" "used_bytes d = 0x20000000" "d_counter d = 1"
    by (auto simp: reserve_def demo_budget demo_ram daemon_init_def used_bytes_def Let_def reg_remove_def)
  have reach: "(daemon_step ?mf)\<^sup>*\<^sup>* daemon_init d"
    using daemon_step.admit [OF d] by (simp add: daemon_init_def r_into_rtranclp)
  have "fst ` set (d_reg d) = {vm_name 1}" using reg(1) by (metis list.set(1,2) list.set_map)
  then have new: "vm_name (d_counter d + 1) \<notin> fst ` set (d_reg d)" using reg(3) by (simp add: vm_name_def)
  show ?thesis
    using budget_wraps [OF demo_budget demo_huge _ _ new, of 0] reg(2) reach by auto
qed

section \<open>Reservations\<close>

text \<open>The identifiers handed out so far.\<close>

definition issued :: "daemon \<Rightarrow> string set" where
  "issued d = {vm_name (of_nat n) | n. 0 < n \<and> n \<le> unat (d_counter d)}"

definition known_ids :: "daemon \<Rightarrow> string set" where
  "known_ids d = fst ` set (d_reg d) \<union> set (d_inflight d) \<union> fst ` set (d_workers d) \<union> pool_ids d"

lemma vm_name_inject: "vm_name a = vm_name b \<longleftrightarrow> a = b"
  by (simp add: vm_name_def word_unat_eq_iff)

lemma fresh_name: "unat (d_counter d) + 1 < 2 ^ 64 \<Longrightarrow> vm_name (d_counter d + 1) \<notin> issued d"
proof
  assume lt: "unat (d_counter d) + 1 < 2 ^ 64" and "vm_name (d_counter d + 1) \<in> issued d"
  then obtain n where n: "n \<le> unat (d_counter d)" "d_counter d + 1 = of_nat n" by (auto simp: issued_def vm_name_inject)
  have "unat (d_counter d + 1) = unat (d_counter d) + 1" using lt by (simp add: unat_word_ariths)
  moreover have "unat (of_nat n :: u64) = n" using n(1) lt by (simp add: unat_of_nat)
  ultimately show False using n by simp
qed

lemma reg_keys:
  "fst ` set (d_reg (reg_remove i d)) = fst ` set (d_reg d) - {i}"
  "fst ` set (d_reg (reg_update i f d)) = fst ` set (d_reg d)"
  by (force simp: reg_remove_def reg_update_def)+

lemma reserve_state:
  assumes "reserve mf now r d = (Inr i, d')"
  shows "i = vm_name (d_counter d + 1)" "d_counter d' = d_counter d + 1" "d_inflight d' = i # d_inflight d"
    "d_workers d' = d_workers d" "d_pool d' = d_pool d"
    "d_reg d' = (i, snd (hd (d_reg d'))) # d_reg (reg_remove i d)" "vi_ram_bytes (ve_info (snd (hd (d_reg d')))) = vm_ram_bytes mf r"
  using assms by (auto simp: reserve_def Let_def reg_remove_def split: option.splits if_splits)

lemma pool_ids_pop: "pop_pooled p = Some (i, p') \<Longrightarrow> 
    i \<in> (\<Union>x \<in> set p. set (snd x)) \<and> (\<Union>x \<in> set p'. set (snd x)) \<subseteq> (\<Union>x \<in> set p. set (snd x))"
proof (induction p arbitrary: p' rule: pop_pooled.induct)
  case (2 t ids p)
  then show ?case by (fastforce split: if_splits dest: in_set_butlastD)
qed simp

text \<open>A reservation nobody is working on: registered, with no handler, no process and no pool.\<close>

definition stuck :: "string \<Rightarrow> u64 \<Rightarrow> daemon \<Rightarrow> bool" where
  "stuck i ram d \<longleftrightarrow> (\<exists>e. (i, e) \<in> set (d_reg d) \<and> vi_ram_bytes (ve_info e) = ram) \<and> i \<in> issued d \<and>
     i \<notin> set (d_inflight d) \<and> i \<notin> fst ` set (d_workers d) \<and> i \<notin> pool_ids d"

lemma issued_mono: "unat (d_counter d) \<le> unat (d_counter d') \<Longrightarrow> issued d \<subseteq> issued d'"
  by (auto simp: issued_def)

lemma stuck_remove: "stuck i ram d \<Longrightarrow> j \<noteq> i \<Longrightarrow> \<exists>e. (i, e) \<in> set (d_reg (reg_remove j d)) \<and> vi_ram_bytes (ve_info e) = ram"
  by (auto simp: stuck_def reg_remove_def)

lemma step_stuck: "daemon_step mf d d' \<Longrightarrow> stuck i ram d \<Longrightarrow> stuck i ram d'"
proof (induction rule: daemon_step.induct)
  case (admit now r d j d')
  note st = reserve_state [OF admit(1)]
  have j: "j \<noteq> i" using fresh_name [OF admit(2)] st(1) admit(3) by (auto simp: stuck_def)
  have "issued d \<subseteq> issued d'" using st(2) admit(2) by (intro issued_mono) (simp add: unat_word_ariths)
  moreover have "pool_ids d' = pool_ids d" using st(5) by (simp add: pool_ids_def)
  moreover have "\<exists>e. (i, e) \<in> set (d_reg d') \<and> vi_ram_bytes (ve_info e) = ram"
    using stuck_remove [OF admit(3) j] by (subst st(6)) auto
  ultimately show ?case using admit(3) st(3,4) j by (auto simp: stuck_def)
next
  case (evict d d')
  then obtain j p where p: "pop_pooled (d_pool d) = Some (j, p)"
    by (auto simp: evict_one_pooled_def split: option.splits)
  have "d_pool d' = p" using evict(1) p by (auto simp: evict_one_pooled_def reg_remove_def Let_def split: if_splits)
  then have sub: "j \<in> pool_ids d" "pool_ids d' \<subseteq> pool_ids d" using pool_ids_pop [OF p] by (simp_all add: pool_ids_def)
  then have j: "j \<noteq> i" using evict(2) by (auto simp: stuck_def)
  show ?case using evict sub j p
    by (auto simp: stuck_def evict_one_pooled_def reg_remove_def issued_def Let_def split: if_splits)
next
  case (reap j t d)
  then have "j \<noteq> i" by (force simp: stuck_def)
  then show ?case using reap
    by (cases t) (auto simp: stuck_def reap_worker_def reg_remove_def issued_def pool_ids_def Let_def split: if_splits)
next
  case (push j d t)
  then have j: "j \<noteq> i" by (force simp: stuck_def)
  have "pool_ids (pool_push t j d) \<subseteq> insert j (pool_ids d)"
    by (auto simp: pool_ids_def pool_push_def split: if_splits)
  then show ?case using push j by (auto simp: stuck_def pool_push_def issued_def)
next
  case (pop t d j d')
  have "pool_ids d' \<subseteq> pool_ids d"
    using pop(1) by (force simp: pool_ids_def pool_pop_def split: option.splits if_splits dest: in_set_butlastD)
  then show ?case using pop by (auto simp: stuck_def pool_pop_def issued_def split: option.splits if_splits)
next
  case (touch f d j)
  then show ?case by (force simp: stuck_def reg_update_def issued_def pool_ids_def)
next
  case (tick d)
  have "issued d \<subseteq> issued (d\<lparr>d_counter := d_counter d + 1\<rparr>)"
    using tick(1) by (intro issued_mono) (simp add: unat_word_ariths)
  then show ?case using tick(2) by (auto simp: stuck_def pool_ids_def)
qed (auto simp: stuck_def settle_def abandon_def reg_remove_def ctl_write_def issued_def pool_ids_def)

lemma issued_next:
  "unat (d_counter d) + 1 < 2 ^ 64 \<Longrightarrow> d_counter d' = d_counter d + 1 \<Longrightarrow> issued d' = insert (vm_name (d_counter d + 1)) (issued d)"
proof -
  assume lt: "unat (d_counter d) + 1 < 2 ^ 64" and c: "d_counter d' = d_counter d + 1"
  have u: "unat (d_counter d + 1) = unat (d_counter d) + 1" using lt by (simp add: unat_word_ariths)
  have w: "of_nat (unat (d_counter d) + 1) = d_counter d + 1" by (metis u of_nat_unat ucast_id)
  have "{n. 0 < n \<and> n \<le> unat (d_counter d) + 1} = insert (unat (d_counter d) + 1) {n. 0 < n \<and> n \<le> unat (d_counter d)}"
    by auto
  then have "(\<lambda>n. vm_name (of_nat n)) ` {n. 0 < n \<and> n \<le> unat (d_counter d) + 1} =
    insert (vm_name (d_counter d + 1)) ((\<lambda>n. vm_name (of_nat n)) ` {n. 0 < n \<and> n \<le> unat (d_counter d)})"
    by (simp only: image_insert w)
  then show ?thesis unfolding issued_def c u by (simp add: image_def setcompr_eq_image)
qed

lemma known_shrink:
  assumes "known_ids d \<subseteq> issued d" "d_counter d' = d_counter d" "known_ids d' \<subseteq> known_ids d"
  shows "known_ids d' \<subseteq> issued d'"
  using assms by (simp add: issued_def)

lemma step_known: "daemon_step mf d d' \<Longrightarrow> known_ids d \<subseteq> issued d \<Longrightarrow> known_ids d' \<subseteq> issued d'"
proof (induction rule: daemon_step.induct)
  case (admit now r d j d')
  note st = reserve_state [OF admit(1)]
  have "fst ` set (d_reg d') \<subseteq> insert j (fst ` set (d_reg d))"
    by (subst st(6)) (auto simp: reg_remove_def)
  then have "known_ids d' \<subseteq> insert j (known_ids d)" using st(3-5) by (auto simp: known_ids_def pool_ids_def)
  then show ?case using issued_next [OF admit(2) st(2)] st(1) admit(3) by auto
next
  case (evict d d')
  then obtain j p where p: "pop_pooled (d_pool d) = Some (j, p)"
    by (auto simp: evict_one_pooled_def split: option.splits)
  have same: "d_pool d' = p" "set (d_reg d') \<subseteq> set (d_reg d)" "d_inflight d' = d_inflight d" "d_workers d' = d_workers d"
    "d_counter d' = d_counter d"
    using evict(1) p by (auto simp: evict_one_pooled_def reg_remove_def Let_def split: if_splits)
  then have "pool_ids d' \<subseteq> pool_ids d" using pool_ids_pop [OF p] by (simp add: pool_ids_def)
  then have "known_ids d' \<subseteq> known_ids d" using same by (auto simp: known_ids_def)
  then show ?case by (rule known_shrink [OF evict(2) same(5)])
next
  case (reap j t d)
  have "known_ids (reap_worker j t d) \<subseteq> known_ids d"
    by (cases t) (fastforce simp: known_ids_def reap_worker_def reg_remove_def pool_ids_def Let_def split: if_splits)+
  moreover have "d_counter (reap_worker j t d) = d_counter d" by (cases t) (auto simp: reap_worker_def reg_remove_def Let_def)
  ultimately show ?case using known_shrink reap(2) by blast
next
  case (push j d t)
  have "pool_ids (pool_push t j d) \<subseteq> insert j (pool_ids d)"
    by (auto simp: pool_ids_def pool_push_def split: if_splits)
  then have "known_ids (pool_push t j d) \<subseteq> insert j (known_ids d)" by (auto simp: known_ids_def pool_push_def)
  moreover have "j \<in> issued d" using push by (auto simp: known_ids_def issued_def)
  moreover have "issued (pool_push t j d) = issued d" by (simp add: issued_def pool_push_def)
  ultimately show ?case using push(2) by auto
next
  case (pop t d j d')
  have "pool_ids d' \<subseteq> pool_ids d"
    using pop(1) by (force simp: pool_ids_def pool_pop_def split: option.splits if_splits dest: in_set_butlastD)
  moreover have "d' = d\<lparr>d_pool := d_pool d'\<rparr>"
    using pop(1) by (auto simp: pool_pop_def split: option.splits if_splits)
  then have same: "d_reg d' = d_reg d" "d_inflight d' = d_inflight d" "d_workers d' = d_workers d" "d_counter d' = d_counter d"
    by (metis daemon.select_convs daemon.surjective daemon.update_convs)+
  ultimately have "known_ids d' \<subseteq> known_ids d" unfolding known_ids_def same by blast
  then show ?case by (rule known_shrink [OF pop(2) same(4)])
next
  case (touch f d j)
  have "known_ids (reg_update j f d) = known_ids d"
    using reg_keys(2) [of j f d] by (simp add: known_ids_def reg_update_def pool_ids_def)
  then show ?case using known_shrink [OF touch(2), of "reg_update j f d"] by (simp add: reg_update_def)
next
  case (tick d)
  then show ?case using issued_next [of d "d\<lparr>d_counter := d_counter d + 1\<rparr>"] by (auto simp: known_ids_def pool_ids_def)
qed (auto simp: known_ids_def settle_def abandon_def reg_remove_def ctl_write_def issued_def pool_ids_def)

lemma reach_known: "(daemon_step mf)\<^sup>*\<^sup>* daemon_init d \<Longrightarrow> known_ids d \<subseteq> issued d"
proof (induction rule: rtranclp_induct)
  case base
  then show ?case by (simp add: known_ids_def daemon_init_def pool_ids_def)
qed (rule step_known)

text \<open>Admission with eviction is a sequence of steps that ends in an admission.\<close>

lemma reserve_with_evict_steps:
  "reserve_with_evict mf now r d = (Inr i, d1) \<Longrightarrow>
     \<exists>d0. (daemon_step mf)\<^sup>*\<^sup>* d d0 \<and> d_counter d0 = d_counter d \<and> reserve mf now r d0 = (Inr i, d1)"
proof (induction mf now r d rule: reserve_with_evict.induct)
  case (1 mf now r d)
  show ?case
  proof (cases "reserve mf now r d")
    case (Pair x dx)
    show ?thesis
    proof (cases x)
      case (Inr j)
      then show ?thesis using "1.prems" Pair by (subst (asm) reserve_with_evict.simps) auto
    next
      case (Inl b)
      then have dx: "dx = d" using Pair reserve_refused by simp
      obtain ev d2 where ev: "evict_one_pooled d = (ev, d2)" by (cases "evict_one_pooled d")
      have "ev" and run: "reserve_with_evict mf now r d2 = (Inr i, d1)"
        using "1.prems" Pair Inl dx ev by (subst (asm) reserve_with_evict.simps, cases ev, simp_all)+
      then have IH: "\<exists>d0. (daemon_step mf)\<^sup>*\<^sup>* d2 d0 \<and> d_counter d0 = d_counter d2 \<and> reserve mf now r d0 = (Inr i, d1)"
        using "1.IH" [OF Pair [symmetric] Inl, of True d2] dx ev by simp
      have "d_counter d2 = d_counter d"
        using ev by (auto simp: evict_one_pooled_def reg_remove_def Let_def split: option.splits if_splits)
      moreover have "daemon_step mf d d2" using ev \<open>ev\<close> by (auto intro: daemon_step.evict)
      ultimately show ?thesis using IH by (metis converse_rtranclp_into_rtranclp)
    qed
  qed
qed

text \<open>C24. A start that fails before its process exists keeps its reservation for good: when the log
  file cannot be created the client gets no reply, the machine stays registered along every further
  interleaving with its memory charged to the budget, and killing it is acknowledged without effect.\<close>

theorem reservation_leak:
  assumes "(daemon_step mf)\<^sup>*\<^sup>* daemon_init d" "unat (d_counter d) + 1 < 2 ^ 64" "\<not> sh_logs H"
    and "start_detached mf now H r d = (Inl e, d')" "(daemon_step mf)\<^sup>*\<^sup>* d' d''"
  shows "\<exists>i x. i \<notin> known_ids d \<and> (i, x) \<in> set (d_reg d'') \<and> vi_ram_bytes (ve_info x) = vm_ram_bytes mf r \<and>
     fst (handle_kill i d'') = OkReply"
proof -
  obtain i d1 where r: "reserve_with_evict mf now r d = (Inr i, d1)" "d' = settle i d1"
    using assms(3,4)
    by (auto simp: start_detached_def split: prod.splits sum.splits if_splits)
  from reserve_with_evict_steps [OF r(1)] obtain d0 where
    d0: "(daemon_step mf)\<^sup>*\<^sup>* d d0" "d_counter d0 = d_counter d" "reserve mf now r d0 = (Inr i, d1)" by blast
  note st = reserve_state [OF d0(3)]
  have known: "known_ids d0 \<subseteq> issued d0" using assms(1) d0(1) by (intro reach_known) (rule rtranclp_trans)
  have new: "i \<notin> issued d0" using fresh_name [of d0] d0(2) assms(2) st(1) by simp
  then have none: "i \<notin> known_ids d0" using known by blast
  have "i \<in> issued d1" using issued_next [of d0 d1] st(1,2) d0(2) assms(2) by simp
  moreover have "(i, snd (hd (d_reg d1))) \<in> set (d_reg d1)" by (subst st(6)) simp
  ultimately have "stuck i (vm_ram_bytes mf r) d'"
    using none st(3-5,7) r(2) by (auto simp: stuck_def settle_def known_ids_def issued_def pool_ids_def)
  with assms(5) have "stuck i (vm_ram_bytes mf r) d''"
    by (induction rule: rtranclp_induct) (auto intro: step_stuck)
  then obtain x where x: "(i, x) \<in> set (d_reg d'')" "vi_ram_bytes (ve_info x) = vm_ram_bytes mf r"
    by (auto simp: stuck_def)
  then have some: "map_of (d_reg d'') i \<noteq> None" by (metis weak_map_of_SomeI option.distinct(1))
  have "fst (handle_kill i d'') = OkReply" using some by (auto simp: handle_kill_def)
  moreover have "i \<notin> known_ids d" using new d0(2) reach_known [OF assms(1)] by (auto simp: issued_def)
  ultimately show ?thesis using x by blast
qed

theorem reservation_leak_witness:
  "\<exists>e d' i x. start_detached None 0 \<lparr>sh_logs = False, sh_exe = True, sh_attach = True, sh_pid = None, sh_warm = True\<rparr> ''alpine'' daemon_init = (Inl e, d') \<and>
     (i, x) \<in> set (d_reg d') \<and> vi_ram_bytes (ve_info x) = vm_ram_bytes None ''alpine'' \<and> fst (handle_kill i d') = OkReply"
proof -
  let ?H = "\<lparr>sh_logs = False, sh_exe = True, sh_attach = True, sh_pid = None, sh_warm = True\<rparr>"
  obtain i d1 where r: "reserve_with_evict None 0 ''alpine'' daemon_init = (Inr i, d1)"
    using reserve_with_evict.simps [of None 0 "''alpine''" daemon_init] by (auto simp: reserve_def ram_budget_def Let_def)
  then have st: "start_detached None 0 ?H ''alpine'' daemon_init = (Inl (OtherIo ''logs''), settle i d1)"
    by (simp add: start_detached_def)
  have "unat (d_counter daemon_init) + 1 < 2 ^ 64" "\<not> sh_logs ?H" by (simp_all add: daemon_init_def)
  from reservation_leak [OF rtranclp.rtrancl_refl this st rtranclp.rtrancl_refl] show ?thesis using st by blast
qed

section \<open>The registry\<close>

text \<open>Every machine is registered once, under the identifier it carries, and that identifier was issued.\<close>

definition registry_ok :: "daemon \<Rightarrow> bool" where
  "registry_ok d \<longleftrightarrow> distinct (map fst (d_reg d)) \<and> (\<forall>(k, e) \<in> set (d_reg d). vi_id (ve_info e) = k)"

lemma registry_remove: "registry_ok d \<Longrightarrow> registry_ok (reg_remove i d)"
proof -
  have "map fst (filter (\<lambda>(k, e). k \<noteq> i) xs) = filter (\<lambda>k. k \<noteq> i) (map fst xs)" for xs :: "(string \<times> vm_entry) list"
    by (induction xs) auto
  then show "registry_ok d \<Longrightarrow> registry_ok (reg_remove i d)" by (auto simp: registry_ok_def reg_remove_def)
qed

lemma registry_update:
  "(\<And>e. vi_id (ve_info (f e)) = vi_id (ve_info e)) \<Longrightarrow> registry_ok d \<Longrightarrow> registry_ok (reg_update i f d)"
  by (auto simp: registry_ok_def reg_update_def comp_def split_def)

lemma registry_same: "d_reg d' = d_reg d \<Longrightarrow> registry_ok d' = registry_ok d"
  by (simp add: registry_ok_def)

lemma registry_reserve:
  assumes "reserve mf now r d = (Inr i, d')" "registry_ok d"
  shows "registry_ok d'"
  using assms registry_remove [OF assms(2), of i]
  by (auto simp: registry_ok_def reserve_def reg_remove_def Let_def split: option.splits if_splits)

lemma registry_step: "daemon_step mf d d' \<Longrightarrow> registry_ok d \<Longrightarrow> registry_ok d'"
proof (induction rule: daemon_step.induct)
  case (admit now r d i d')
  then show ?case by (blast intro: registry_reserve)
next
  case (evict d d')
  have "d_reg d' = d_reg d \<or> (\<exists>i. d_reg d' = d_reg (reg_remove i d))"
    using evict(1) by (auto simp: evict_one_pooled_def Let_def reg_remove_def split: option.splits if_splits)
  then show ?case using evict(2) registry_remove registry_same by blast
next
  case (cleanup i d)
  then show ?case using registry_remove [of d i] by (simp add: abandon_def settle_def registry_ok_def)
next
  case (touch f d i)
  then show ?case by (blast intro: registry_update)
next
  case (reap i t d)
  then show ?case using registry_remove [of d i] by (cases t) (simp_all add: reap_worker_def registry_ok_def Let_def)
qed (auto simp: registry_ok_def settle_def ctl_write_def pool_push_def pool_pop_def split: option.splits if_splits)

text \<open>C23. The registry is well formed along every interleaving: identifiers are pairwise different, each
  entry carries the identifier it is registered under, and each was issued by the counter.\<close>

theorem registry_well_formed:
  assumes "(daemon_step mf)\<^sup>*\<^sup>* daemon_init d"
  shows "distinct (map fst (d_reg d)) \<and> (\<forall>(k, e) \<in> set (d_reg d). vi_id (ve_info e) = k \<and>
     (\<exists>n. 0 < n \<and> n \<le> unat (d_counter d) \<and> k = vm_name (of_nat n)))"
proof -
  have "registry_ok d" using assms
  proof (induction rule: rtranclp_induct)
    case base
    then show ?case by (simp add: registry_ok_def daemon_init_def)
  qed (rule registry_step)
  then have ok: "distinct (map fst (d_reg d))" "\<And>k e. (k, e) \<in> set (d_reg d) \<Longrightarrow> vi_id (ve_info e) = k"
    by (auto simp: registry_ok_def)
  have "k \<in> issued d" if "(k, e) \<in> set (d_reg d)" for k e
    using reach_known [OF assms] image_eqI [OF _ that, of k fst] by (auto simp: known_ids_def)
  then have "\<exists>n. 0 < n \<and> n \<le> unat (d_counter d) \<and> k = vm_name (of_nat n)" if "(k, e) \<in> set (d_reg d)" for k e
    using that unfolding issued_def by blast
  then show ?thesis using ok by (intro conjI ballI) (simp_all add: split_paired_all)
qed

theorem registry_well_formed_witness:
  "\<exists>d. (daemon_step None)\<^sup>*\<^sup>* daemon_init d \<and> map fst (d_reg d) = [''vm2'', ''vm1''] \<and> distinct (map fst (d_reg d)) \<and>
     (\<forall>(k, e) \<in> set (d_reg d). vi_id (ve_info e) = k)"
proof -
  obtain d where d: "reserve None 0 ''a'' daemon_init = (Inr (vm_name 1), d)" by (simp add: reserve_def ram_budget_def daemon_init_def Let_def)
  then have c: "d_counter d = 1" "map fst (d_reg d) = [vm_name 1]"
    by (auto simp: reserve_def ram_budget_def daemon_init_def reg_remove_def Let_def)
  obtain d' where d': "reserve None 0 ''b'' d = (Inr (vm_name 2), d')" by (simp add: reserve_def ram_budget_def c(1) Let_def)
  have n: "vm_name 1 = ''vm1''" "vm_name 2 = ''vm2''" by code_simp+
  have "daemon_step None daemon_init d" using daemon_step.admit [OF d] by (simp add: daemon_init_def)
  moreover have "daemon_step None d d'" using daemon_step.admit [OF d'] c(1) by simp
  ultimately have reach: "(daemon_step None)\<^sup>*\<^sup>* daemon_init d'" by (meson converse_rtranclp_into_rtranclp r_into_rtranclp)
  have "filter (\<lambda>(k, e). k \<noteq> ''vm2'') xs = xs" if "map fst xs = [''vm1'']" for xs :: "(string \<times> vm_entry) list"
    using that by (cases xs) auto
  then have "map fst (d_reg d') = [''vm2'', ''vm1'']"
    using d' c n by (auto simp: reserve_def ram_budget_def reg_remove_def Let_def)
  then show ?thesis using registry_well_formed [OF reach] reach by fastforce
qed

end
