(* ===== verification/Serve_Props.thy ===== *)
theory Serve_Props
  imports Serve Daemon_Props Machine_Props
begin

text \<open>
  Connections against the interleaving of the daemon's regions: whatever a request does is a sequence
  of its steps, so the invariants of the steps hold between requests.  Then two places where the two
  ends of a channel disagree: a log that does not fit a frame, and control frames for a worker that
  still waits to be released.
\<close>

section \<open>Requests are sequences of steps\<close>

lemma steps_one: "daemon_step mf d d' \<Longrightarrow> (daemon_step mf)\<^sup>*\<^sup>* d d'"
  by (rule r_into_rtranclp)

lemma step_then: "daemon_step mf d d1 \<Longrightarrow> (daemon_step mf)\<^sup>*\<^sup>* d1 d2 \<Longrightarrow> (daemon_step mf)\<^sup>*\<^sup>* d d2"
  by (rule converse_rtranclp_into_rtranclp)

lemma steps_touch:
  assumes "\<And>e. vi_ram_bytes (ve_info (f e)) = vi_ram_bytes (ve_info e) \<and> vi_id (ve_info (f e)) = vi_id (ve_info e)"
  shows "(daemon_step mf)\<^sup>*\<^sup>* d (reg_update i f d)"
  using assms by (intro steps_one daemon_step.touch)

lemma counter_kept [simp]:
  "d_counter (settle i d) = d_counter d" "d_counter (abandon i d) = d_counter d"
  "d_counter (reg_update i f d) = d_counter d" "d_counter (ctl_write i bs d) = d_counter d"
  "d_counter (pool_push t i d) = d_counter d" "d_counter (set_runtime i pid d) = d_counter d"
  "d_counter (enlist_worker i w d) = d_counter d"
  by (simp_all add: settle_def abandon_def reg_remove_def reg_update_def ctl_write_def pool_push_def set_runtime_def
      enlist_worker_def)

lemma inflight_kept [simp]:
  "d_inflight (reg_update i f d) = d_inflight d" "d_inflight (set_runtime i pid d) = d_inflight d"
  by (simp_all add: reg_update_def set_runtime_def)

lemma reserve_step:
  assumes "unat (d_counter d) + 1 < 2 ^ 64" "reserve mf now r d = (Inr i, d')"
  shows "daemon_step mf d d'" "i \<in> set (d_inflight d')" "unat (d_counter d') = unat (d_counter d) + 1"
  using assms reserve_state [OF assms(2)] by (auto intro: daemon_step.admit simp: unat_word_ariths)

lemma enlist_step: "i \<in> set (d_inflight d) \<Longrightarrow> (daemon_step mf)\<^sup>*\<^sup>* d (enlist_worker i w d)"
  unfolding enlist_worker_def by (intro steps_one daemon_step.enlist)

text \<open>A worker once spawned, as an update followed by its enlisting.\<close>

lemma enlist_update:
  "settle i (reg_update i f (d\<lparr>d_workers := (i, w) # d_workers d\<rparr>)) = enlist_worker i w (reg_update i f d)"
  by (simp add: enlist_worker_def settle_def reg_update_def)

lemma spawn_paused_steps:
  assumes "unat (d_counter d) + 1 < 2 ^ 64" "spawn_paused mf now H tmp self t v d = (r, d')"
  shows "(daemon_step mf)\<^sup>*\<^sup>* d d' \<and> unat (d_counter d') \<le> unat (d_counter d) + 1 \<and>
    (\<forall>i. r = Inr i \<longrightarrow> i \<in> fst ` set (d_workers d'))"
proof (cases "reserve mf now t d")
  case (Pair a d1)
  show ?thesis
  proof (cases a)
    case (Inl b)
    then show ?thesis using assms(2) Pair reserve_refused [of mf now t d b d1] by (auto simp: spawn_paused_def)
  next
    case (Inr i)
    then have res: "reserve mf now t d = (Inr i, d1)" using Pair by simp
    note st = reserve_step [OF assms(1) res]
    have up: "(daemon_step mf)\<^sup>*\<^sup>* d (settle i d1)" "(daemon_step mf)\<^sup>*\<^sup>* d (abandon i d1)"
      using st(1,2) by (meson step_then steps_one daemon_step.intros)+
    show ?thesis
    proof (cases "sh_logs H \<and> sh_exe H \<and> sh_attach H \<and> sh_pid H \<noteq> None")
      case False
      then show ?thesis using assms(2) up st(3) by (auto simp: spawn_paused_def res split: if_splits)
    next
      case True
      then obtain pid where pid: "sh_pid H = Some pid" by auto
      let ?d2 = "reg_update i (\<lambda>e. e\<lparr>ve_info := (ve_info e)\<lparr>vi_pid := pid\<rparr>\<rparr>) d1"
      have d2: "(daemon_step mf)\<^sup>*\<^sup>* d ?d2" by (rule step_then [OF st(1)], rule steps_touch) simp
      show ?thesis
      proof (cases "sh_warm H")
        case False
        then have "d' = abandon i ?d2" "r = Inl (OtherIo ''worker failed to warm'')"
          using assms(2) True pid by (simp_all add: spawn_paused_def res Let_def)
        moreover have "daemon_step mf ?d2 (abandon i ?d2)" using st(2) by (intro daemon_step.cleanup) simp
        ultimately show ?thesis using d2 st(3) by auto
      next
        case warm: True
        then obtain f where d': "d' = enlist_worker i (Some t) (reg_update i f ?d2)" "r = Inr i"
          "\<And>e. vi_ram_bytes (ve_info (f e)) = vi_ram_bytes (ve_info e) \<and> vi_id (ve_info (f e)) = vi_id (ve_info e)"
          using assms(2) True pid by (auto simp: spawn_paused_def res Let_def enlist_update)
        have "(daemon_step mf)\<^sup>*\<^sup>* ?d2 (reg_update i f ?d2)" using d'(3) by (rule steps_touch)
        moreover have "(daemon_step mf)\<^sup>*\<^sup>* (reg_update i f ?d2) d'" unfolding d'(1) using st(2) by (intro enlist_step) simp
        ultimately have "(daemon_step mf)\<^sup>*\<^sup>* d d'" using d2 by (meson rtranclp_trans)
        then show ?thesis using d'(1,2) st(3) by (simp add: enlist_worker_def settle_def)
      qed
    qed
  qed
qed

lemma refill_steps:
  "unat (d_counter d) + length Hs < 2 ^ 64 \<Longrightarrow> (daemon_step mf)\<^sup>*\<^sup>* d (refill_pool mf now Hs tmp self t d)"
proof (induction Hs arbitrary: d)
  case (Cons H Hs)
  obtain r d1 where sp: "spawn_paused mf now H tmp self t None d = (r, d1)" by (cases "spawn_paused mf now H tmp self t None d")
  have "unat (d_counter d) + 1 < 2 ^ 64" using Cons.prems by simp
  note steps = spawn_paused_steps [OF this sp]
  show ?case
  proof (cases r)
    case (Inl e)
    then show ?thesis using sp steps by auto
  next
    case (Inr i)
    have "daemon_step mf d1 (pool_push t i d1)" using steps Inr by (intro daemon_step.push) simp
    moreover have "(daemon_step mf)\<^sup>*\<^sup>* (pool_push t i d1) (refill_pool mf now Hs tmp self t (pool_push t i d1))"
      using Cons.prems steps by (intro Cons.IH) simp
    ultimately show ?thesis using sp steps Inr by (auto intro: rtranclp_trans step_then)
  qed
qed simp

lemma release_steps: "(daemon_step mf)\<^sup>*\<^sup>* d (snd (release w i d))" "d_counter (snd (release w i d)) = d_counter d"
  by (auto simp: release_def ctl_write_def intro!: steps_one daemon_step.send [unfolded ctl_write_def] split: option.splits)

lemma control_op_steps: "(daemon_step mf)\<^sup>*\<^sup>* d (snd (control_op w i frame p d))"
proof -
  have "(daemon_step mf)\<^sup>*\<^sup>* d (ctl_write i frame d)" by (intro steps_one daemon_step.send)
  moreover have "(daemon_step mf)\<^sup>*\<^sup>* (ctl_write i frame d)
      (reg_update i (\<lambda>e. e\<lparr>ve_info := (ve_info e)\<lparr>vi_paused := b\<rparr>\<rparr>) (ctl_write i frame d))" for b
    by (rule steps_touch) simp
  ultimately show ?thesis by (auto simp: control_op_def Let_def split: option.splits intro: rtranclp_trans)
qed

lemma kill_flag_steps: "(daemon_step mf)\<^sup>*\<^sup>* d (kill_flag i d)"
  by (auto simp: kill_flag_def intro: steps_one daemon_step.kill)

lemma pool_pop_steps: "(daemon_step mf)\<^sup>*\<^sup>* d (snd (pool_pop t d))" "d_counter (snd (pool_pop t d)) = d_counter d"
  by (cases "pool_pop t d"; auto simp: pool_pop_def split: option.splits if_splits
      intro!: steps_one daemon_step.pop [unfolded pool_pop_def])+

lemma handle_fork_steps:
  assumes "unat (d_counter d) + length Hs + 1 < 2 ^ 64"
  shows "(daemon_step mf)\<^sup>*\<^sup>* d (snd (handle_fork mf now H Hs w tmp self t d))"
proof -
  obtain p d1 where pop: "pool_pop t d = (p, d1)" by (cases "pool_pop t d")
  obtain a d2 where st: "(case p of Some i \<Rightarrow> (Inr i, d1) | None \<Rightarrow> spawn_paused mf now H tmp self t None d1) = (a, d2)"
    by (cases "case p of Some i \<Rightarrow> (Inr i, d1) | None \<Rightarrow> spawn_paused mf now H tmp self t None d1")
  have d1: "(daemon_step mf)\<^sup>*\<^sup>* d d1" "d_counter d1 = d_counter d" using pool_pop_steps(1) [of mf d t] pool_pop_steps(2) [of t d] pop by auto
  have "(daemon_step mf)\<^sup>*\<^sup>* d1 d2 \<and> unat (d_counter d2) \<le> unat (d_counter d) + 1"
    using st d1(2) assms spawn_paused_steps [of d1 mf now H tmp self t None a d2] by (cases p) auto
  with d1(1) have d2: "(daemon_step mf)\<^sup>*\<^sup>* d d2" "unat (d_counter d2) \<le> unat (d_counter d) + 1" by (auto intro: rtranclp_trans)
  show ?thesis
  proof (cases a)
    case (Inl e)
    then show ?thesis using pop st d2(1) by (cases p) (auto simp: handle_fork_def)
  next
    case (Inr i)
    let ?d3 = "reg_update i (\<lambda>e. e\<lparr>ve_stdout := False, ve_stdin := False\<rparr>) d2"
    obtain ok d4 where rel: "release w i ?d3 = (ok, d4)" by (cases "release w i ?d3")
    have d3: "(daemon_step mf)\<^sup>*\<^sup>* d2 ?d3" by (rule steps_touch) simp
    have d4: "(daemon_step mf)\<^sup>*\<^sup>* ?d3 d4" "d_counter d4 = d_counter d2"
      using release_steps(1) [of mf ?d3 w i] release_steps(2) [of w i ?d3] rel by simp_all
    have "(daemon_step mf)\<^sup>*\<^sup>* d4 (refill_pool mf now Hs tmp self t d4)" using d2(2) d4(2) assms by (intro refill_steps) simp
    moreover have "(daemon_step mf)\<^sup>*\<^sup>* d d4" using d2(1) d3 d4(1) by (meson rtranclp_trans)
    ultimately have "(daemon_step mf)\<^sup>*\<^sup>* d (if ok then refill_pool mf now Hs tmp self t d4 else d4)" by (auto intro: rtranclp_trans)
    moreover have "snd (handle_fork mf now H Hs w tmp self t d) = (if ok then refill_pool mf now Hs tmp self t d4 else d4)"
      using pop st Inr rel by (cases p; cases ok) (simp_all add: handle_fork_def Let_def)
    ultimately show ?thesis by simp
  qed
qed

lemma launch_steps:
  assumes "i \<in> set (d_inflight d)" "launch H i d = (r, d')"
  shows "(daemon_step mf)\<^sup>*\<^sup>* d d' \<and> (r = Inr () \<longrightarrow> i \<in> set (d_inflight d'))"
proof -
  have "(daemon_step mf)\<^sup>*\<^sup>* d (set_runtime i pid d)" for pid unfolding set_runtime_def by (rule steps_touch) simp
  moreover have "(daemon_step mf)\<^sup>*\<^sup>* d (settle i d)" "(daemon_step mf)\<^sup>*\<^sup>* d (abandon i d)"
    using assms(1) by (auto intro: steps_one daemon_step.intros)
  ultimately show ?thesis using assms by (auto simp: launch_def split: if_splits option.splits)
qed

text \<open>A reservation made with eviction, and the state it leaves when it is refused.\<close>

lemma refused_steps: "reserve_with_evict mf now r d = (Inl b, d') \<Longrightarrow> (daemon_step mf)\<^sup>*\<^sup>* d d'"
proof (induction mf now r d rule: reserve_with_evict.induct)
  case (1 mf now r d)
  obtain x dx where res: "reserve mf now r d = (x, dx)" by (cases "reserve mf now r d")
  obtain ev d2 where ev: "evict_one_pooled dx = (ev, d2)" by (cases "evict_one_pooled dx")
  from "1.prems" res obtain y where x: "x = Inl y"
    by (cases x) (simp_all add: reserve_with_evict.simps [of mf now r d])
  then have dx: "dx = d" using res reserve_refused by simp
  show ?case
  proof (cases ev)
    case True
    then have "reserve_with_evict mf now r d2 = (Inl b, d')"
      using "1.prems" res x ev by (simp add: reserve_with_evict.simps [of mf now r d])
    then have "(daemon_step mf)\<^sup>*\<^sup>* d2 d'" using "1.IH" [OF res [symmetric] x ev [symmetric]] True by simp
    moreover have "daemon_step mf d d2" using ev True dx by (auto intro: daemon_step.evict)
    ultimately show ?thesis by (rule step_then [rotated])
  next
    case False
    then have "d2 = d" using ev dx by (auto simp: evict_one_pooled_def Let_def split: option.splits)
    then show ?thesis using "1.prems" res x ev False by (simp add: reserve_with_evict.simps [of mf now r d])
  qed
qed

lemma admitted_steps:
  assumes "reserve_with_evict mf now r d = (Inr i, d')" "unat (d_counter d) + 1 < 2 ^ 64"
  shows "(daemon_step mf)\<^sup>*\<^sup>* d d'" "i \<in> set (d_inflight d')"
proof -
  from reserve_with_evict_steps [OF assms(1)] obtain d0 where
    d0: "(daemon_step mf)\<^sup>*\<^sup>* d d0" "d_counter d0 = d_counter d" "reserve mf now r d0 = (Inr i, d')" by blast
  note st = reserve_step [OF _ d0(3)]
  show "(daemon_step mf)\<^sup>*\<^sup>* d d'" using d0(1,2) st(1) assms(2) by (auto intro: rtranclp.rtrancl_into_rtrancl)
  show "i \<in> set (d_inflight d')" using d0(2) st(2) assms(2) by simp
qed

lemma start_detached_steps:
  assumes "unat (d_counter d) + 1 < 2 ^ 64"
  shows "(daemon_step mf)\<^sup>*\<^sup>* d (snd (start_detached mf now H r d))"
proof (cases "reserve_with_evict mf now r d")
  case (Pair a d1)
  show ?thesis
  proof (cases a)
    case (Inl b)
    then show ?thesis using Pair refused_steps [of mf now r d b d1] by (cases b) (simp add: start_detached_def)
  next
    case (Inr i)
    note st = admitted_steps [OF Pair [unfolded Inr] assms]
    obtain x d2 where l: "launch H i d1 = (x, d2)" by (cases "launch H i d1")
    note ls = launch_steps [OF st(2) l, of mf]
    have "(daemon_step mf)\<^sup>*\<^sup>* d1 (settle i d1)" using st(2) by (intro steps_one daemon_step.give_up)
    moreover have "(daemon_step mf)\<^sup>*\<^sup>* d2 (enlist_worker i None d2)" if "x = Inr ()" using that ls by (intro enlist_step) simp
    ultimately show ?thesis using Pair Inr l st(1) ls
      by (cases x) (auto simp: start_detached_def intro: rtranclp_trans)
  qed
qed

lemma run_one_shot_steps:
  assumes "unat (d_counter d) + 1 < 2 ^ 64"
  shows "(daemon_step mf)\<^sup>*\<^sup>* d (snd (run_one_shot mf now H c ps r d))"
proof (cases "reserve_with_evict mf now r d")
  case (Pair a d1)
  show ?thesis
  proof (cases a)
    case (Inl b)
    then show ?thesis using Pair refused_steps [of mf now r d b d1] by (cases b) (simp add: run_one_shot_def)
  next
    case (Inr i)
    note st = admitted_steps [OF Pair [unfolded Inr] assms]
    obtain x d2 where l: "launch H i d1 = (x, d2)" by (cases "launch H i d1")
    note ls = launch_steps [OF st(2) l, of mf]
    have d2: "(daemon_step mf)\<^sup>*\<^sup>* d d2" using st(1) ls by (auto intro: rtranclp_trans)
    show ?thesis
    proof (cases x)
      case (Inl e)
      then show ?thesis using Pair Inr l d2 by (simp add: run_one_shot_def)
    next
      case (Inr u)
      let ?d3 = "enlist_worker i None d2"
      have fl: "i \<in> set (d_inflight d2)" using ls Inr by simp
      have d3: "(daemon_step mf)\<^sup>*\<^sup>* d ?d3" using d2 enlist_step [OF fl] by (rule rtranclp_trans)
      have "daemon_step mf ?d3 (reap_worker i None ?d3)" by (intro daemon_step.reap) (simp add: enlist_worker_def settle_def)
      with d3 have "(daemon_step mf)\<^sup>*\<^sup>* d (reap_worker i None ?d3)" by (rule rtranclp.rtrancl_into_rtrancl)
      moreover have "(daemon_step mf)\<^sup>*\<^sup>* d (settle i d2)"
        using d2 fl by (auto intro: rtranclp.rtrancl_into_rtrancl daemon_step.give_up)
      ultimately show ?thesis using Pair \<open>a = Inr i\<close> l Inr d3
        by (auto simp: run_one_shot_def Let_def split: option.splits)
    qed
  qed
qed

lemma handle_exec_steps:
  assumes "unat (d_counter d) + 2 < 2 ^ 64" "handle_exec mf J H t cmd s d = (e, out, Serving d')"
  shows "(daemon_step mf)\<^sup>*\<^sup>* d d'"
proof -
  let ?d0 = "d\<lparr>d_counter := d_counter d + 1\<rparr>" and ?base = "exec_base (rh_tmp H) (rh_self H) (d_counter d)"
  obtain r d1 where sp: "spawn_paused mf (rh_now H) (rh_spawn H) (rh_tmp H) (rh_self H) t (Some ?base) ?d0 = (r, d1)"
    by (cases "spawn_paused mf (rh_now H) (rh_spawn H) (rh_tmp H) (rh_self H) t (Some ?base) ?d0")
  have tick: "daemon_step mf d ?d0" using assms(1) by (intro daemon_step.tick) simp
  have "unat (d_counter ?d0) + 1 < 2 ^ 64" using assms(1) by (simp add: unat_word_ariths)
  from spawn_paused_steps [OF this sp] tick have d1: "(daemon_step mf)\<^sup>*\<^sup>* d d1" by (auto intro: step_then)
  have "(daemon_step mf)\<^sup>*\<^sup>* d1 (kill_flag i (snd (release (rh_wrote H) i d1)))" for i
    using release_steps(1) kill_flag_steps by (rule rtranclp_trans)
  with d1 have "(daemon_step mf)\<^sup>*\<^sup>* d (kill_flag i (snd (release (rh_wrote H) i d1)))" for i by (rule rtranclp_trans)
  then show ?thesis using assms(2) sp d1 steps_one [OF tick] by (auto simp: handle_exec_def Let_def split: if_splits sum.splits)
qed

lemma serve_fork_steps:
  assumes "unat (d_counter d) + length (rh_refill H) + 1 < 2 ^ 64" "serve_fork mf J H t b d = (e, out, Serving d')"
  shows "(daemon_step mf)\<^sup>*\<^sup>* d d'"
proof -
  obtain r d1 where hf: "handle_fork mf (rh_now H) (rh_spawn H) (rh_refill H) (rh_wrote H) (rh_tmp H) (rh_self H) t d = (r, d1)"
    by (cases "handle_fork mf (rh_now H) (rh_spawn H) (rh_refill H) (rh_wrote H) (rh_tmp H) (rh_self H) t d")
  have d1: "(daemon_step mf)\<^sup>*\<^sup>* d d1"
    using handle_fork_steps [OF assms(1), of mf "rh_now H" "rh_spawn H" "rh_wrote H" "rh_tmp H" "rh_self H" t] hf by simp
  have "(daemon_step mf)\<^sup>*\<^sup>* d (kill_flag i d1)" for i using d1 kill_flag_steps by (rule rtranclp_trans)
  then show ?thesis using assms(2) hf d1 by (auto simp: serve_fork_def split: sum.splits if_splits prod.splits)
qed

text \<open>C9. Every connection is a sequence of the daemon's steps: whatever a peer sends and however the
  host answers, a daemon that is still serving afterwards has only gone through admissions, evictions,
  updates and removals of the interleaving, so budget and registry invariants carry over to it.\<close>

theorem handle_refines_steps:
  assumes "unat (d_counter d) + length (rh_refill H) + 2 < 2 ^ 64"
    and "handle mf J H peer euid sock client d = (e, out, Serving d')"
  shows "(daemon_step mf)\<^sup>*\<^sup>* d d'"
proof -
  have small: "unat (d_counter d) + 2 < 2 ^ 64" "unat (d_counter d) + 1 < 2 ^ 64"
    "unat (d_counter d) + length (rh_refill H) + 1 < 2 ^ 64" using assms(1) by simp_all
  have kill: "(daemon_step mf)\<^sup>*\<^sup>* d (snd (handle_kill i d))" for i
    by (auto simp: handle_kill_def intro: steps_one daemon_step.kill split: option.splits)
  have req: "(daemon_step mf)\<^sup>*\<^sup>* d d'" if "serve_request mf J H sock r s d = (e, out, Serving d')" for r s
  proof (cases r)
    case (Exec t cmd)
    then show ?thesis using that handle_exec_steps [OF small(1)] by (simp add: serve_request_def)
  next
    case (Fork t b)
    then show ?thesis using that serve_fork_steps [OF small(3)] by (simp add: serve_request_def)
  next
    case (RunOneShot x argv)
    then show ?thesis using that run_one_shot_steps [OF small(2), of mf "rh_now H" "rh_spawn H" "rh_cloned H" "rh_polls H" x]
      by (auto simp: serve_request_def serve_one_shot_def split: sum.splits option.splits reply.splits prod.splits)
  next
    case (RunDetached x argv)
    then show ?thesis using that start_detached_steps [OF small(2), of mf "rh_now H" "rh_spawn H" x]
      by (auto simp: serve_request_def split: sum.splits prod.splits)
  qed (use that kill control_op_steps in \<open>auto simp: serve_request_def reply_with_def\<close>)
  then show ?thesis using assms(2)
    by (auto simp: handle_def split: if_splits sum.splits option.splits prod.splits)
qed

definition run_codec :: proto_codec where
  "run_codec =
     \<lparr>enc_request = (\<lambda>_. []), dec_request = (\<lambda>_. Inr (RunDetached ''alpine'' [])), enc_reply = (\<lambda>_. []),
      dec_reply = (\<lambda>_. Some OkReply)\<rparr>"

definition quiet_host :: req_host where
  "quiet_host =
     \<lparr>rh_now = 0, rh_tmp = ''/tmp'', rh_self = 1,
      rh_spawn = \<lparr>sh_logs = True, sh_exe = True, sh_attach = True, sh_pid = Some 7, sh_warm = True\<rparr>,
      rh_refill = [], rh_wrote = True, rh_cloned = True, rh_polls = [], rh_rss = (\<lambda>_. 0), rh_machine = 0,
      rh_bound = True, rh_agent = None, rh_takes = (\<lambda>_. True), rh_console = [], rh_left = False,
      rh_log = (\<lambda>_. Some [65])\<rparr>"

theorem handle_refines_steps_witness:
  "\<exists>out d'. handle None run_codec quiet_host (Some 0) 0 ''amber.sock'' (write_frame TAG_REQUEST []) daemon_init =
     (None, out, Serving d') \<and> fst ` set (d_reg d') = {''vm1''} \<and> (daemon_step None)\<^sup>*\<^sup>* daemon_init d'"
proof -
  have n: "vm_name 1 = ''vm1''" by code_simp
  have rd: "read_frame (write_frame TAG_REQUEST []) = Inr (Some (TAG_REQUEST, []), [])"
    using read_write_frame [of "[]" TAG_REQUEST "[]"] by simp
  obtain d1 where r: "reserve_with_evict None 0 ''alpine'' daemon_init = (Inr ''vm1'', d1)" "fst ` set (d_reg d1) = {''vm1''}"
    using reserve_with_evict.simps [of None 0 "''alpine''" daemon_init]
    by (auto simp: reserve_def ram_budget_def reg_remove_def daemon_init_def n Let_def)
  let ?d' = "enlist_worker ''vm1'' None (set_runtime ''vm1'' 7 d1)"
  have h: "handle None run_codec quiet_host (Some 0) 0 ''amber.sock'' (write_frame TAG_REQUEST []) daemon_init =
     (None, write_reply run_codec (Started ''vm1'' None), Serving ?d')"
    by (simp add: handle_def authorized_def rd serve_request_def run_codec_def start_detached_def quiet_host_def r(1) launch_def)
  have small: "unat (d_counter daemon_init) + length (rh_refill quiet_host) + 2 < 2 ^ 64"
    by (simp add: daemon_init_def quiet_host_def)
  have "fst ` set (d_reg ?d') = {''vm1''}"
    using r(2) reg_keys(2) by (simp add: enlist_worker_def settle_def set_runtime_def)
  then show ?thesis using h handle_refines_steps [OF small h]
    by (intro exI [of _ "write_reply run_codec (Started ''vm1'' None)"] exI [of _ ?d']) simp
qed


section \<open>Logs\<close>

text \<open>A log reaches the client whole exactly when it fits one frame: the daemon sends any log as a
  single frame, and a log of more than 16 MiB makes the client fail without printing a byte.\<close>

theorem logs_one_frame:
  assumes "rh_log H i = Some bs" "length bs < 2 ^ 32"
    and "dec_reply J (enc_reply J OkReply) = Some OkReply" "length (enc_reply J OkReply) \<le> MAX_FRAME"
  shows "client_logs J [] (stream_logs J H i) =
     (if length bs \<le> MAX_FRAME then (Inr (), bs) else (Inl InvalidData, []))"
proof -
  have out: "client_logs J [] (stream_logs J H i) =
      (if length bs \<le> MAX_FRAME then client_logs J bs (write_reply J OkReply) else (Inl InvalidData, []))"
    using read_write_frame [OF assms(2), of TAG_STDOUT] assms(1)
    by (subst client_logs.simps) (simp add: stream_logs_def)
  have "length (enc_reply J OkReply) < 2 ^ 32" using assms(4) by (simp add: MAX_FRAME_def)
  from read_write_frame [OF this, of TAG_REPLY "[]"] assms(3,4)
  have "client_logs J bs (write_reply J OkReply) = (Inr (), bs)"
    by (subst client_logs.simps) (simp add: write_reply_def TAG_REPLY_def TAG_STDOUT_def)
  then show ?thesis using out by simp
qed

theorem logs_one_frame_witness:
  "client_logs run_codec [] (stream_logs run_codec quiet_host ''vm1'') = (Inr (), [65]) \<and>
   client_logs run_codec [] (stream_logs run_codec (quiet_host\<lparr>rh_log := \<lambda>_. Some (replicate (MAX_FRAME + 1) 65)\<rparr>) ''vm1'') =
     (Inl InvalidData, [])"
  using logs_one_frame [of quiet_host "''vm1''" "[65]" run_codec]
    logs_one_frame [of "quiet_host\<lparr>rh_log := \<lambda>_. Some (replicate (MAX_FRAME + 1) 65)\<rparr>" "''vm1''" "replicate (MAX_FRAME + 1) 65" run_codec]
  by (simp add: quiet_host_def run_codec_def MAX_FRAME_def)

section \<open>Control of a pooled worker\<close>

lemma from_le_snoc_0: "(from_le (bs @ [0]) :: 'a::len word) = from_le bs"
  by (induction bs) simp_all

lemma balloon_shifted:
  assumes "mib < 2 ^ 56"
  shows "to_le 8 mib = to_le 7 mib @ [0]" "from_le (1 # to_le 7 mib) = mib * 256 + (1 :: u64)"
proof -
  have "unat mib < 2 ^ 56" using assms by (simp add: word_less_nat_alt)
  then have "drop_bit 56 mib = 0" by (simp add: word_unat_eq_iff drop_bit_eq_div unat_div)
  then have "(ucast (drop_bit 56 mib) :: u8) = 0" by simp
  then show eq: "to_le 8 mib = to_le 7 mib @ [0]" by (simp add: to_le_def upt_rec)
  have "from_le (to_le 7 mib) = mib" using from_le_snoc_0 [where 'a = 64, of "to_le 7 mib"] eq from_le_to_le [of 8 mib] by simp
  then show "from_le (1 # to_le 7 mib) = mib * 256 + (1 :: u64)"
    by (simp add: push_bit_eq_mult one_or_eq)
qed

lemma map_of_update:
  "map_of (map (\<lambda>(k, e). (k, if k = i then f e else e)) xs) i = map_option f (map_of xs i)"
  by (induction xs) auto

text \<open>What a request does to a registered machine with a control channel.\<close>

lemma control_op_sent:
  assumes "map_of (d_reg d) i = Some e" "ve_control e"
  shows "fst (control_op True i frame p d) = OkReply"
    "ctl_stream i (snd (control_op True i frame p d)) = ctl_stream i d @ frame"
    "d_pool (snd (control_op True i frame p d)) = d_pool d"
    "map_of (d_reg (snd (control_op True i frame p d))) i =
       Some (case p of None \<Rightarrow> e | Some b \<Rightarrow> e\<lparr>ve_info := (ve_info e)\<lparr>vi_paused := b\<rparr>\<rparr>)"
  using assms by (auto simp: control_op_def ctl_stream_def ctl_write_def reg_update_def map_of_update Let_def split: option.splits)

lemma fork_pooled:
  assumes "map_of (d_reg d) i = Some e" "ve_control e" "map_of (d_pool d) t = Some (ids @ [i])"
    and "handle_fork mf now H [] True tmp self t d = (r, d')"
  shows "\<exists>c. r = Inr (i, c)" "ctl_stream i d' = ctl_stream i d @ [1]"
    "map_of (d_reg d') i = Some (e\<lparr>ve_stdout := False, ve_stdin := False\<rparr>)"
  using assms
  by (auto simp: handle_fork_def pool_pop_def release_def ctl_stream_def ctl_write_def reg_update_def map_of_update Let_def)

text \<open>C10. Pausing a pooled worker releases it and puts its control channel out of step.  A pooled worker
  waits for any byte, so the byte of a pause request lets it run; the byte of the later fork is then
  read as the start of a balloon frame.  All three requests are acknowledged and the machine is listed
  as paused, yet its control thread never pauses it, and a balloon request for some MiB sets the
  target of 256 times as many and one more.\<close>

theorem pooled_control_desync:
  assumes "map_of (d_reg d) i = Some e" "ve_control e" "map_of (d_pool d) t = Some (ids @ [i])" "ctl_stream i d = []"
    and "control_op True i [PAUSE] (Some True) d = (r1, d1)"
    and "handle_fork mf now H [] True tmp self t d1 = (r2, d2)"
    and "control_op True i (BALLOON # to_le 8 mib) None d2 = (r3, d3)" "mib < 2 ^ 56"
    and "m_running m" "m_control m = Some (warm_gate True (ctl_stream i d3))"
  shows "r1 = OkReply \<and> (\<exists>c. r2 = Inr (i, c)) \<and> r3 = OkReply \<and>
     (\<exists>e3. map_of (d_reg d3) i = Some e3 \<and> vi_paused (ve_info e3)) \<and>
     m_vm (control_step hv m) = balloon_target ((mib * 256 + 1) * 256) (m_vm m) \<and>
     m_pause (control_step hv (control_step hv m)) = m_pause m \<and>
     m_control (control_step hv (control_step hv m)) = Some []"
proof -
  let ?e1 = "e\<lparr>ve_info := (ve_info e)\<lparr>vi_paused := True\<rparr>\<rparr>" and ?e2 = "\<lambda>e. e\<lparr>ve_stdout := False, ve_stdin := False\<rparr>"
  note s1 = control_op_sent [OF assms(1,2), of "[PAUSE]" "Some True", unfolded assms(5), simplified]
  have d1: "map_of (d_reg d1) i = Some ?e1" "ve_control ?e1" "map_of (d_pool d1) t = Some (ids @ [i])"
    using s1 assms(2,3) by simp_all
  note s2 = fork_pooled [OF d1 assms(6)]
  have "ve_control (?e2 ?e1)" using assms(2) by simp
  note s3 = control_op_sent [OF s2(3) this, of "BALLOON # to_le 8 mib" None, unfolded assms(7), simplified]
  have stream: "m_control m = Some (BALLOON # (1 # to_le 7 mib) @ [0])"
    using assms(4,10) s1(2) s2(2) s3(2) balloon_shifted(1) [OF assms(8)] by (simp add: warm_gate_def BALLOON_def)
  let ?m1 = "control_step hv m"
  have m1: "m_vm ?m1 = balloon_target ((mib * 256 + 1) * 256) (m_vm m)" "m_control ?m1 = Some [0]"
    "m_pause ?m1 = m_pause m" "m_running ?m1"
    using stream assms(9) balloon_shifted(2) [OF assms(8)]
    by (simp_all add: control_step_def control_frame_def read_exact_fd_def)
  have "m_pause (control_step hv ?m1) = m_pause m" "m_control (control_step hv ?m1) = Some []"
    using m1 by (simp_all add: control_step_def [of hv ?m1] control_frame_def BALLOON_def PAUSE_def RESUME_def)
  then show ?thesis using s1(1) s2(1) s3(1,4) m1(1) by auto
qed

lemma warm_pool:
  "\<exists>e. let d = refill_pool None 0 [rh_spawn quiet_host] ''/tmp'' 1 ''t'' daemon_init
    in map_of (d_reg d) ''vm1'' = Some e \<and> ve_control e \<and> map_of (d_pool d) ''t'' = Some [''vm1''] \<and> d_ctl d = []"
proof -
  have n: "vm_name 1 = ''vm1''" by code_simp
  show ?thesis
    by (simp add: spawn_paused_def reserve_def ram_budget_def pool_target_def quiet_host_def daemon_init_def n
        reg_remove_def reg_update_def settle_def pool_push_def Let_def)
qed

theorem pooled_control_desync_witness:
  "\<forall>vm :: (unit, unit, unit) vm. \<exists>d d1 d2 d3 c m.
     d = refill_pool None 0 [rh_spawn quiet_host] ''/tmp'' 1 ''t'' daemon_init \<and>
     control_op True ''vm1'' [PAUSE] (Some True) d = (OkReply, d1) \<and>
     handle_fork None 0 (rh_spawn quiet_host) [] True ''/tmp'' 1 ''t'' d1 = (Inr (''vm1'', c), d2) \<and>
     control_op True ''vm1'' (BALLOON # to_le 8 (64 :: u64)) None d2 = (OkReply, d3) \<and>
     m = (machine_init vm () None [] Map.empty)\<lparr>m_control := Some (warm_gate True (ctl_stream ''vm1'' d3))\<rparr> \<and>
     \<not> m_pause (control_step demo_hv (control_step demo_hv m)) \<and>
     m_vm (control_step demo_hv m) = balloon_target (16385 * 256) vm"
proof
  fix vm :: "(unit, unit, unit) vm"
  define d where "d = refill_pool None 0 [rh_spawn quiet_host] ''/tmp'' 1 ''t'' daemon_init"
  obtain e where e: "map_of (d_reg d) ''vm1'' = Some e" "ve_control e" "map_of (d_pool d) ''t'' = Some ([] @ [''vm1''])"
    "ctl_stream ''vm1'' d = []"
    using warm_pool by (auto simp: d_def ctl_stream_def Let_def)
  obtain r1 d1 where o1: "control_op True ''vm1'' [PAUSE] (Some True) d = (r1, d1)" by fastforce
  obtain r2 d2 where o2: "handle_fork None 0 (rh_spawn quiet_host) [] True ''/tmp'' 1 ''t'' d1 = (r2, d2)" by fastforce
  obtain r3 d3 where o3: "control_op True ''vm1'' (BALLOON # to_le 8 (64 :: u64)) None d2 = (r3, d3)" by fastforce
  define m where "m = (machine_init vm () None [] Map.empty)\<lparr>m_control := Some (warm_gate True (ctl_stream ''vm1'' d3))\<rparr>"
  have m: "m_running m" "m_control m = Some (warm_gate True (ctl_stream ''vm1'' d3))" "\<not> m_pause m" "m_vm m = vm"
    by (simp_all add: m_def machine_init_def)
  have "(64 :: u64) < 2 ^ 56" by simp
  from pooled_control_desync [OF e o1 o2 o3 this m(1,2), of demo_hv] m(3,4) o1 o2 o3 d_def m_def
  show "\<exists>d d1 d2 d3 c m.
     d = refill_pool None 0 [rh_spawn quiet_host] ''/tmp'' 1 ''t'' daemon_init \<and>
     control_op True ''vm1'' [PAUSE] (Some True) d = (OkReply, d1) \<and>
     handle_fork None 0 (rh_spawn quiet_host) [] True ''/tmp'' 1 ''t'' d1 = (Inr (''vm1'', c), d2) \<and>
     control_op True ''vm1'' (BALLOON # to_le 8 (64 :: u64)) None d2 = (OkReply, d3) \<and>
     m = (machine_init vm () None [] Map.empty)\<lparr>m_control := Some (warm_gate True (ctl_stream ''vm1'' d3))\<rparr> \<and>
     \<not> m_pause (control_step demo_hv (control_step demo_hv m)) \<and>
     m_vm (control_step demo_hv m) = balloon_target (16385 * 256) vm"
    by auto
qed

end
