(* ===== verification/Addr.thy ===== *)
theory Addr
  imports Text
begin

text \<open>
  Internet addresses as the sources use them from \<^verbatim>\<open>std::net\<close>: IPv4 addresses with the
  address classes of \<open>Ipv4Addr\<close>, and the textual forms of IPv4 and IPv6 addresses that \<open>parse\<close>
  accepts.
\<close>

section \<open>IPv4\<close>

datatype ipv4 = Ipv4 (oct1: u8) (oct2: u8) (oct3: u8) (oct4: u8)

definition is_unspecified :: "ipv4 \<Rightarrow> bool" where
  "is_unspecified ip \<longleftrightarrow> ip = Ipv4 0 0 0 0"

definition is_loopback :: "ipv4 \<Rightarrow> bool" where
  "is_loopback ip \<longleftrightarrow> oct1 ip = 127"

definition is_private :: "ipv4 \<Rightarrow> bool" where
  "is_private ip \<longleftrightarrow> oct1 ip = 10 \<or> oct1 ip = 172 \<and> 16 \<le> oct2 ip \<and> oct2 ip \<le> 31 \<or> oct1 ip = 192 \<and> oct2 ip = 168"

definition is_link_local :: "ipv4 \<Rightarrow> bool" where
  "is_link_local ip \<longleftrightarrow> oct1 ip = 169 \<and> oct2 ip = 254"

definition is_broadcast :: "ipv4 \<Rightarrow> bool" where
  "is_broadcast ip \<longleftrightarrow> ip = Ipv4 255 255 255 255"

definition is_documentation :: "ipv4 \<Rightarrow> bool" where
  "is_documentation ip \<longleftrightarrow> (oct1 ip, oct2 ip, oct3 ip) \<in> {(192, 0, 2), (198, 51, 100), (203, 0, 113)}"


section \<open>Text\<close>

text \<open>The pieces between separators, \<open>str::split\<close> of a character.\<close>

fun split_at_char :: "char \<Rightarrow> string \<Rightarrow> string list" where
  "split_at_char c [] = [[]]"
| "split_at_char c (x # xs) =
     (if x = c then [] # split_at_char c xs
      else case split_at_char c xs of [] \<Rightarrow> [[x]] | w # ws \<Rightarrow> (x # w) # ws)"

text \<open>\<open>split_once\<close> at the first and \<open>rsplit_once\<close> at the last occurrence of a character.\<close>

definition split_once :: "char \<Rightarrow> string \<Rightarrow> (string \<times> string) option" where
  "split_once c s =
     (if c \<in> set s then Some (takeWhile (\<lambda>x. x \<noteq> c) s, tl (dropWhile (\<lambda>x. x \<noteq> c) s)) else None)"

definition rsplit_once :: "char \<Rightarrow> string \<Rightarrow> (string \<times> string) option" where
  "rsplit_once c s = map_option (\<lambda>(a, b). (rev b, rev a)) (split_once c (rev s))"

definition strip_prefix :: "string \<Rightarrow> string \<Rightarrow> string option" where
  "strip_prefix p s = (if take (length p) s = p then Some (drop (length p) s) else None)"

text \<open>An octet has one to three digits, no leading zero, and fits eight bits.\<close>

definition parse_octet :: "string \<Rightarrow> u8 option" where
  "parse_octet s =
     (if s = [] \<or> 3 < length s \<or> (1 < length s \<and> hd s = CHR ''0'') then None
      else case digits_from 0 s of None \<Rightarrow> None | Some n \<Rightarrow> if n < 256 then Some (of_nat n) else None)"

definition parse_ipv4 :: "string \<Rightarrow> ipv4 option" where
  "parse_ipv4 s =
     (case map parse_octet (split_at_char (CHR ''.'') s) of
        [Some a, Some b, Some c, Some d] \<Rightarrow> Some (Ipv4 a b c d)
      | _ \<Rightarrow> None)"

definition hex_value :: "char \<Rightarrow> nat option" where
  "hex_value c =
     (let n = of_char c :: nat
      in if 48 \<le> n \<and> n \<le> 57 then Some (n - 48)
         else if 97 \<le> n \<and> n \<le> 102 then Some (n - 87)
         else if 65 \<le> n \<and> n \<le> 70 then Some (n - 55)
         else None)"

fun hex_from :: "nat \<Rightarrow> string \<Rightarrow> nat option" where
  "hex_from acc [] = Some acc"
| "hex_from acc (c # cs) = (case hex_value c of None \<Rightarrow> None | Some d \<Rightarrow> hex_from (16 * acc + d) cs)"

definition parse_group :: "string \<Rightarrow> u16 option" where
  "parse_group s = (if s = [] \<or> 4 < length s then None else map_option of_nat (hex_from 0 s))"

text \<open>Groups separated by colons; an IPv4 address may stand for the last two, where \<open>v4\<close> allows it.\<close>

fun parse_groups :: "bool \<Rightarrow> string list \<Rightarrow> u16 list option" where
  "parse_groups v4 [] = Some []"
| "parse_groups v4 [s] =
     (case parse_group s of
        Some g \<Rightarrow> Some [g]
      | None \<Rightarrow>
          (case (if v4 then parse_ipv4 s else None) of
             Some (Ipv4 a b c d) \<Rightarrow> Some [ucast a * 256 + ucast b, ucast c * 256 + ucast d]
           | None \<Rightarrow> None))"
| "parse_groups v4 (s # ss) =
     (case parse_group s of
        None \<Rightarrow> None
      | Some g \<Rightarrow> (case parse_groups v4 ss of None \<Rightarrow> None | Some gs \<Rightarrow> Some (g # gs)))"

definition colon_groups :: "bool \<Rightarrow> string \<Rightarrow> u16 list option" where
  "colon_groups v4 s = (if s = [] then Some [] else parse_groups v4 (split_at_char (CHR '':'') s))"

fun split_double :: "string \<Rightarrow> (string \<times> string) option" where
  "split_double [] = None"
| "split_double (c # cs) =
     (if c = CHR '':'' \<and> cs \<noteq> [] \<and> hd cs = CHR '':'' then Some ([], tl cs)
      else map_option (\<lambda>(a, b). (c # a, b)) (split_double cs))"

definition parse_ipv6 :: "string \<Rightarrow> u16 list option" where
  "parse_ipv6 s =
     (case split_double s of
        None \<Rightarrow> (case colon_groups True s of None \<Rightarrow> None | Some gs \<Rightarrow> if length gs = 8 then Some gs else None)
      | Some (a, b) \<Rightarrow>
          (case (colon_groups False a, colon_groups True b) of
             (Some x, Some y) \<Rightarrow>
               if length x + length y \<le> 7 then Some (x @ replicate (8 - length x - length y) 0 @ y) else None
           | _ \<Rightarrow> None))"

definition ipv6_local :: "u16 list \<Rightarrow> bool" where
  "ipv6_local gs \<longleftrightarrow> gs = replicate 7 0 @ [1] \<or> gs = replicate 8 0"


section \<open>Laws\<close>

lemma split_once_append: "c \<notin> set a \<Longrightarrow> split_once c (a @ c # b) = Some (a, b)"
  by (induction a) (auto simp: split_once_def)

lemma split_once_None [simp]: "split_once c s = None \<longleftrightarrow> c \<notin> set s"
  by (simp add: split_once_def)

lemma rsplit_once_append: "c \<notin> set b \<Longrightarrow> rsplit_once c (a @ c # b) = Some (a, b)"
  by (simp add: rsplit_once_def split_once_append)

lemma rsplit_once_None [simp]: "rsplit_once c s = None \<longleftrightarrow> c \<notin> set s"
  by (simp add: rsplit_once_def)

end
