(* ===== verification/Egress.thy ===== *)
theory Egress
  imports Addr Net
begin

text \<open>
  The user-space network backend (\<^verbatim>\<open>amber-net/src/lib.rs\<close>): the egress policy, destination
  translation between the guest and the gateway, the table of proxied connections, name queries and
  inbound forwards.  The packet accessors and the TCP/IP stack of the library \<open>smoltcp\<close> are the
  parameters \<open>wire\<close> and \<open>netstack\<close>; host sockets and the clock are the record \<open>egress_host\<close>, one per
  call.  What is dialled and what is written to a host socket is kept in the state.
\<close>

section \<open>Policy\<close>

definition GATEWAY :: ipv4 where "GATEWAY = Ipv4 10 0 0 1"
definition GUEST :: ipv4 where "GUEST = Ipv4 10 0 0 2"
definition EGRESS_MAC :: bytes where "EGRESS_MAC = [0x52, 0x54, 0x00, 0x12, 0x34, 0x56]"
definition MAX_FLOWS :: nat where "MAX_FLOWS = 256"
definition MAX_PENDING_DNS :: nat where "MAX_PENDING_DNS = 256"

definition egress_blocked :: "bool \<Rightarrow> ipv4 \<Rightarrow> bool" where
  "egress_blocked allow_private ip =
     (if is_loopback ip \<or> is_link_local ip \<or> is_broadcast ip \<or> is_unspecified ip \<or> is_documentation ip then True
      else if is_private ip then \<not> allow_private
      else False)"

text \<open>The resolver queries are sent to: the first name server of the host's file that is an IPv4 address
  and not the host itself.\<close>

definition nameserver_line :: "string \<Rightarrow> ipv4 option" where
  "nameserver_line l = (case strip_prefix ''nameserver '' l of None \<Rightarrow> None | Some a \<Rightarrow> parse_ipv4 (trim a))"

definition host_resolver :: "string option \<Rightarrow> ipv4 \<times> u16" where
  "host_resolver conf =
     (case conf of
        None \<Rightarrow> (Ipv4 1 1 1 1, 53)
      | Some text \<Rightarrow>
          (case find (\<lambda>ip. \<not> is_loopback ip) (List.map_filter nameserver_line (split_at_char (CHR ''\<newline>'') text)) of
             None \<Rightarrow> (Ipv4 1 1 1 1, 53)
           | Some ip \<Rightarrow> (ip, 53)))"

text \<open>The forwards of \<open>AMBER_PORTS\<close>.\<close>

definition port_forward :: "string \<Rightarrow> (u16 \<times> u16) option" where
  "port_forward m =
     (case split_once (CHR '':'') m of
        None \<Rightarrow> None
      | Some (h, g) \<Rightarrow>
          (case (parse_unsigned 16 h, parse_unsigned 16 g) of
             (Some hp, Some gp) \<Rightarrow> Some (of_nat hp, of_nat gp)
           | _ \<Rightarrow> None))"

definition port_forwards :: "string \<Rightarrow> (u16 \<times> u16) list" where
  "port_forwards env = List.map_filter port_forward (filter (\<lambda>s. s \<noteq> []) (split_at_char (CHR '','') env))"


section \<open>Packets\<close>

record wire =
  w_eth :: "bytes \<Rightarrow> (bool \<times> bytes) option"
  w_ip :: "bytes \<Rightarrow> (nat \<times> bool \<times> ipv4 \<times> ipv4 \<times> bytes) option"
  w_tcp :: "bytes \<Rightarrow> (u16 \<times> u16 \<times> bool \<times> bool) option"
  w_set_ip :: "ipv4 option \<Rightarrow> ipv4 option \<Rightarrow> bytes \<Rightarrow> bytes"
  w_set_tcp :: "u16 option \<Rightarrow> u16 option \<Rightarrow> ipv4 \<Rightarrow> ipv4 \<Rightarrow> bytes \<Rightarrow> bytes"

text \<open>\<open>w_eth\<close> checks a frame and gives whether it carries IPv4 and its payload, \<open>w_ip\<close> the header length,
  whether TCP follows, the addresses and the payload, \<open>w_tcp\<close> the ports and the SYN and ACK flags; the
  setters replace the given fields and set the checksum.\<close>

definition tcp_tuple :: "wire \<Rightarrow> bytes \<Rightarrow> (ipv4 \<times> ipv4 \<times> u16 \<times> u16 \<times> bool \<times> bool) option" where
  "tcp_tuple W frame =
     (case w_eth W frame of
        None \<Rightarrow> None
      | Some (is_ipv4, l3) \<Rightarrow>
          if \<not> is_ipv4 then None
          else (case w_ip W l3 of
                  None \<Rightarrow> None
                | Some (hl, is_tcp, src, dst, payload) \<Rightarrow>
                    if \<not> is_tcp then None
                    else (case w_tcp W payload of
                            None \<Rightarrow> None
                          | Some (sport, dport, syn, ack) \<Rightarrow> Some (src, dst, sport, dport, syn, ack))))"

definition rewrite_frame ::
  "wire \<Rightarrow> bytes \<Rightarrow> ipv4 option \<Rightarrow> ipv4 option \<Rightarrow> u16 option \<Rightarrow> u16 option \<Rightarrow> bytes" where
  "rewrite_frame W frame new_src new_dst new_sport new_dport =
     (if length frame < 14 then frame
      else let l3 = drop 14 frame
           in case w_ip W l3 of
                None \<Rightarrow> frame
              | Some (ihl, is_tcp, src, dst, payload) \<Rightarrow>
                  let src' = (case new_src of None \<Rightarrow> src | Some s \<Rightarrow> s);
                      dst' = (case new_dst of None \<Rightarrow> dst | Some d \<Rightarrow> d)
                  in take 14 frame @ w_set_ip W new_src new_dst (take ihl l3) @
                     w_set_tcp W new_sport new_dport src' dst' (drop ihl l3))"


section \<open>State\<close>

record flow =
  guest_port :: u16
  ext_ip :: ipv4
  ext_port :: u16
  eph :: u16
  fl_handle :: nat
  host_up :: bool
  connecting :: bool
  host_done :: bool

record 'k egress =
  eg_stack :: 'k
  eg_rx :: "bytes list"
  eg_tx :: "bytes list"
  eg_flows :: "flow list"
  eg_pending :: "(nat \<times> (ipv4 \<times> u16)) list"
  eg_inbound :: "nat list"
  eg_listeners :: bool
  eg_next_eph :: u16
  eg_queries :: nat
  eg_opened :: nat
  eg_dialled :: "(ipv4 \<times> u16) list"
  eg_written :: "(nat \<times> bytes) list"

record 'k netstack =
  ns_poll :: "nat \<Rightarrow> 'k \<Rightarrow> bytes list \<Rightarrow> 'k \<times> bytes list \<times> bytes list"
  ns_listen :: "'k \<Rightarrow> u16 \<Rightarrow> ('k \<times> nat) option"
  ns_connect :: "'k \<Rightarrow> u16 \<Rightarrow> u16 \<Rightarrow> ('k \<times> nat) option"
  ns_closed :: "'k \<Rightarrow> nat \<Rightarrow> bool"
  ns_remove :: "'k \<Rightarrow> nat \<Rightarrow> 'k"
  ns_abort :: "'k \<Rightarrow> nat \<Rightarrow> 'k"
  ns_close :: "'k \<Rightarrow> nat \<Rightarrow> 'k"
  ns_recv :: "'k \<Rightarrow> nat \<Rightarrow> bytes option"
  ns_consume :: "'k \<Rightarrow> nat \<Rightarrow> nat \<Rightarrow> 'k"
  ns_can_send :: "'k \<Rightarrow> nat \<Rightarrow> bool"
  ns_send :: "'k \<Rightarrow> nat \<Rightarrow> bytes \<Rightarrow> 'k \<times> nat"
  ns_dns_recv :: "'k \<Rightarrow> 'k \<times> (bytes \<times> (ipv4 \<times> u16)) list"
  ns_dns_send :: "'k \<Rightarrow> bytes \<Rightarrow> ipv4 \<times> u16 \<Rightarrow> 'k"

datatype conn_poll = Pending | Connected | ConnFailed
datatype host_read = HostEof | HostData bytes | HostBlock | HostBroken
datatype dns_answer = Answer bytes | NoAnswer | DnsBroken

record egress_host =
  eh_now :: nat
  eh_conn :: "nat \<Rightarrow> conn_poll"
  eh_write :: "nat \<Rightarrow> bytes \<Rightarrow> nat"
  eh_read :: "nat \<Rightarrow> host_read"
  eh_udp :: "nat \<Rightarrow> bool"
  eh_answer :: "nat \<Rightarrow> dns_answer"
  eh_accepted :: "u16 list"

definition egress_new :: "'k \<Rightarrow> bool \<Rightarrow> 'k egress" where
  "egress_new k listeners =
     \<lparr>eg_stack = k, eg_rx = [], eg_tx = [], eg_flows = [], eg_pending = [], eg_inbound = [],
      eg_listeners = listeners, eg_next_eph = 40000, eg_queries = 0, eg_opened = 0, eg_dialled = [],
      eg_written = []\<rparr>"

definition next_eph :: "u16 \<Rightarrow> u16" where
  "next_eph p = max (p + 1) 40000"


section \<open>Bridging\<close>

text \<open>One exchange between a socket of the stack and its host stream; the result is the stack, the
  mark that the host is done, and what the host socket took.\<close>

definition bridge :: "'k netstack \<Rightarrow> egress_host \<Rightarrow> nat \<Rightarrow> bool \<Rightarrow> 'k \<Rightarrow> 'k \<times> bool \<times> bytes" where
  "bridge S H h done k =
     (let (k1, out) =
            (case ns_recv S k h of
               None \<Rightarrow> (k, [])
             | Some data \<Rightarrow>
                 let n = min (eh_write H h data) (length data) in (ns_consume S k h n, take n data))
      in if ns_can_send S k1 h \<and> \<not> done
         then (case eh_read H h of
                 HostEof \<Rightarrow> (ns_close S k1 h, True, out)
               | HostData bs \<Rightarrow> (fst (ns_send S k1 h (take (32 * 1024) bs)), done, out)
               | HostBlock \<Rightarrow> (k1, done, out)
               | HostBroken \<Rightarrow> (ns_close S k1 h, True, out))
         else (k1, done, out))"

definition pump_flow :: "'k netstack \<Rightarrow> egress_host \<Rightarrow> flow \<Rightarrow> 'k \<Rightarrow> flow \<times> 'k \<times> bytes" where
  "pump_flow S H f k =
     (let (f1, k1) =
            (if host_up f \<or> \<not> connecting f then (f, k)
             else case eh_conn H (fl_handle f) of
                    Connected \<Rightarrow> (f\<lparr>host_up := True, connecting := False\<rparr>, k)
                  | ConnFailed \<Rightarrow> (f\<lparr>connecting := False, host_done := True\<rparr>, ns_abort S k (fl_handle f))
                  | Pending \<Rightarrow> (f, k))
      in if \<not> host_up f1 then (f1, k1, [])
         else (case bridge S H (fl_handle f1) (host_done f1) k1 of
                 (k2, done, out) \<Rightarrow> (f1\<lparr>host_done := done\<rparr>, k2, out)))"

fun pump_each :: "'k netstack \<Rightarrow> egress_host \<Rightarrow> flow list \<Rightarrow> 'k \<Rightarrow> flow list \<times> 'k \<times> (nat \<times> bytes) list" where
  "pump_each S H [] k = ([], k, [])"
| "pump_each S H (f # fs) k =
     (case pump_flow S H f k of
        (f', k1, out) \<Rightarrow>
          (case pump_each S H fs k1 of (fs', k2, outs) \<Rightarrow> (f' # fs', k2, (fl_handle f, out) # outs)))"

definition drop_closed :: "'k netstack \<Rightarrow> nat list \<Rightarrow> 'k \<Rightarrow> 'k" where
  "drop_closed S hs k = fold (\<lambda>h k. if ns_closed S k h then ns_remove S k h else k) hs k"

definition pump_flows :: "'k netstack \<Rightarrow> egress_host \<Rightarrow> 'k egress \<Rightarrow> 'k egress" where
  "pump_flows S H b =
     (case pump_each S H (eg_flows b) (eg_stack b) of
        (fs, k, outs) \<Rightarrow>
          b\<lparr>eg_stack := drop_closed S (map fl_handle fs) k,
            eg_flows := filter (\<lambda>f. \<not> ns_closed S k (fl_handle f)) fs,
            eg_written := eg_written b @ outs\<rparr>)"

fun bridge_each :: "'k netstack \<Rightarrow> egress_host \<Rightarrow> nat list \<Rightarrow> 'k \<Rightarrow> 'k \<times> (nat \<times> bytes) list" where
  "bridge_each S H [] k = (k, [])"
| "bridge_each S H (h # hs) k =
     (case bridge S H h False k of
        (k1, done, out) \<Rightarrow> (case bridge_each S H hs k1 of (k2, outs) \<Rightarrow> (k2, (h, out) # outs)))"

definition pump_inbound :: "'k netstack \<Rightarrow> egress_host \<Rightarrow> 'k egress \<Rightarrow> 'k egress" where
  "pump_inbound S H b =
     (case bridge_each S H (eg_inbound b) (eg_stack b) of
        (k, outs) \<Rightarrow>
          b\<lparr>eg_stack := drop_closed S (eg_inbound b) k,
            eg_inbound := filter (\<lambda>h. \<not> ns_closed S k h) (eg_inbound b),
            eg_written := eg_written b @ outs\<rparr>)"

fun accept_each :: "'k netstack \<Rightarrow> u16 list \<Rightarrow> 'k egress \<Rightarrow> 'k egress" where
  "accept_each S [] b = b"
| "accept_each S (gport # ps) b =
     (let e = next_eph (eg_next_eph b); b1 = b\<lparr>eg_next_eph := e, eg_opened := Suc (eg_opened b)\<rparr>
      in accept_each S ps
           (case ns_connect S (eg_stack b) gport e of
              None \<Rightarrow> b1
            | Some (k, h) \<Rightarrow> b1\<lparr>eg_stack := k, eg_inbound := eg_inbound b @ [h]\<rparr>))"


section \<open>Name queries\<close>

fun dns_ask :: "egress_host \<Rightarrow> (bytes \<times> (ipv4 \<times> u16)) list \<Rightarrow> 'k egress \<Rightarrow> 'k egress" where
  "dns_ask H [] b = b"
| "dns_ask H ((payload, guest) # qs) b =
     dns_ask H qs
       (if MAX_PENDING_DNS \<le> length (eg_pending b) then b
        else if eh_udp H (eg_queries b)
        then b\<lparr>eg_pending := eg_pending b @ [(eg_queries b, guest)], eg_queries := Suc (eg_queries b)\<rparr>
        else b\<lparr>eg_queries := Suc (eg_queries b)\<rparr>)"

definition pump_dns :: "'k netstack \<Rightarrow> egress_host \<Rightarrow> 'k egress \<Rightarrow> 'k egress" where
  "pump_dns S H b =
     (let (k, qs) = ns_dns_recv S (eg_stack b);
          b1 = dns_ask H qs (b\<lparr>eg_stack := k\<rparr>)
      in b1\<lparr>eg_stack :=
               fold (\<lambda>(q, guest) k. case eh_answer H q of Answer bs \<Rightarrow> ns_dns_send S k (take 2048 bs) guest | _ \<Rightarrow> k)
                 (eg_pending b1) (eg_stack b1),
            eg_pending := filter (\<lambda>(q, guest). eh_answer H q = NoAnswer) (eg_pending b1)\<rparr>)"


section \<open>Translation\<close>

definition flow_matches :: "u16 \<Rightarrow> ipv4 \<Rightarrow> u16 \<Rightarrow> flow \<Rightarrow> bool" where
  "flow_matches sport dst dport f \<longleftrightarrow> guest_port f = sport \<and> ext_ip f = dst \<and> ext_port f = dport"

definition maybe_open_flow :: "'k netstack \<Rightarrow> wire \<Rightarrow> bool \<Rightarrow> bytes \<Rightarrow> 'k egress \<Rightarrow> 'k egress" where
  "maybe_open_flow S W allow_private frame b =
     (case tcp_tuple W frame of
        None \<Rightarrow> b
      | Some (src, dst, sport, dport, syn, ack) \<Rightarrow>
          if \<not> syn \<or> ack \<or> src \<noteq> GUEST then b
          else if list_ex (flow_matches sport dst dport) (eg_flows b) then b
          else if MAX_FLOWS \<le> length (eg_flows b) then b
          else if egress_blocked allow_private dst then b
          else
            let e = next_eph (eg_next_eph b);
                b1 = b\<lparr>eg_dialled := eg_dialled b @ [(dst, dport)], eg_next_eph := e, eg_opened := Suc (eg_opened b)\<rparr>
            in case ns_listen S (eg_stack b) e of
                 None \<Rightarrow> b1
               | Some (k, h) \<Rightarrow>
                   b1\<lparr>eg_stack := k,
                      eg_flows := eg_flows b @
                        [\<lparr>guest_port = sport, ext_ip = dst, ext_port = dport, eph = e, fl_handle = h,
                          host_up = False, connecting = True, host_done = False\<rparr>]\<rparr>)"

definition dnat_in :: "wire \<Rightarrow> 'k egress \<Rightarrow> bytes \<Rightarrow> bytes" where
  "dnat_in W b frame =
     (case tcp_tuple W frame of
        None \<Rightarrow> frame
      | Some (src, dst, sport, dport, syn, ack) \<Rightarrow>
          if src \<noteq> GUEST then frame
          else (case find (flow_matches sport dst dport) (eg_flows b) of
                  None \<Rightarrow> frame
                | Some f \<Rightarrow> rewrite_frame W frame None (Some GATEWAY) None (Some (eph f))))"

definition dnat_out :: "wire \<Rightarrow> 'k egress \<Rightarrow> bytes \<Rightarrow> bytes" where
  "dnat_out W b frame =
     (case tcp_tuple W frame of
        None \<Rightarrow> frame
      | Some (src, dst, sport, dport, syn, ack) \<Rightarrow>
          if src \<noteq> GATEWAY \<or> dst \<noteq> GUEST then frame
          else (case find (\<lambda>f. eph f = sport \<and> guest_port f = dport) (eg_flows b) of
                  None \<Rightarrow> frame
                | Some f \<Rightarrow> rewrite_frame W frame (Some (ext_ip f)) None (Some (ext_port f)) None))"


section \<open>The backend\<close>

definition poll_iface :: "'k netstack \<Rightarrow> egress_host \<Rightarrow> 'k egress \<Rightarrow> 'k egress" where
  "poll_iface S H b =
     (case ns_poll S (eh_now H) (eg_stack b) (eg_rx b) of
        (k, rx, tx) \<Rightarrow> b\<lparr>eg_stack := k, eg_rx := rx, eg_tx := eg_tx b @ tx\<rparr>)"

definition egress_send :: "'k netstack \<Rightarrow> wire \<Rightarrow> bool \<Rightarrow> egress_host \<Rightarrow> bytes \<Rightarrow> 'k egress \<Rightarrow> 'k egress" where
  "egress_send S W allow_private H frame b =
     (let b1 = maybe_open_flow S W allow_private frame b;
          b2 = b1\<lparr>eg_rx := eg_rx b1 @ [dnat_in W b1 frame]\<rparr>
      in poll_iface S H (pump_dns S H (pump_flows S H (poll_iface S H b2))))"

definition egress_poll :: "'k netstack \<Rightarrow> wire \<Rightarrow> egress_host \<Rightarrow> 'k egress \<Rightarrow> 'k egress \<times> bytes option" where
  "egress_poll S W H b =
     (let b1 = accept_each S (eh_accepted H) (poll_iface S H b);
          b2 = poll_iface S H (pump_dns S H (pump_inbound S H (pump_flows S H b1)))
      in case eg_tx b2 of
           [] \<Rightarrow> (b2, None)
         | f # fs \<Rightarrow> (b2\<lparr>eg_tx := fs\<rparr>, Some (dnat_out W b2 f)))"

definition egress_wants_poll :: "'k egress \<Rightarrow> bool" where
  "egress_wants_poll b \<longleftrightarrow>
     eg_listeners b \<or> eg_flows b \<noteq> [] \<or> eg_inbound b \<noteq> [] \<or> eg_pending b \<noteq> []"

text \<open>As the backend of a network device, with the host's answers indexed by the number of the call.\<close>

definition egress_backend ::
  "'k netstack \<Rightarrow> wire \<Rightarrow> bool \<Rightarrow> (nat \<Rightarrow> egress_host) \<Rightarrow> (nat \<times> 'k egress) net_backend" where
  "egress_backend S W allow_private Hs =
     \<lparr>nb_send = (\<lambda>(n, b) frame. (Suc n, egress_send S W allow_private (Hs n) frame b)),
      nb_poll = (\<lambda>(n, b). case egress_poll S W (Hs n) b of (b', f) \<Rightarrow> ((Suc n, b'), f)),
      nb_mac = (\<lambda>_. EGRESS_MAC),
      nb_wants_poll = (\<lambda>(n, b). egress_wants_poll b)\<rparr>"

end
