(* ===== verification/Egress_Props.thy ===== *)
theory Egress_Props
  imports Egress "HOL-Library.Sublist"
begin

text \<open>
  The backend along every sequence of frames from the guest and polls of the device: what it dials,
  how much it holds for the guest, and that translating a reply undoes translating a request.  Then
  two losses: bytes the stack has no room for, and name queries that are never answered.
\<close>

section \<open>Runs\<close>

inductive egress_step :: "'k netstack \<Rightarrow> wire \<Rightarrow> bool \<Rightarrow> 'k egress \<Rightarrow> 'k egress \<Rightarrow> bool" for S W allow where
  send: "egress_step S W allow b (egress_send S W allow H frame b)"
| poll: "egress_step S W allow b (fst (egress_poll S W H b))"

definition flow_key :: "flow \<Rightarrow> u16 \<times> ipv4 \<times> u16 \<times> u16" where
  "flow_key f = (guest_port f, ext_ip f, ext_port f, eph f)"

text \<open>What the invariants look at, and an operation that opens nothing: the connections left are some of
  those there were.\<close>

definition quiet :: "'k egress \<Rightarrow> 'k egress \<Rightarrow> bool" where
  "quiet b b' \<longleftrightarrow> eg_dialled b' = eg_dialled b \<and> eg_next_eph b' = eg_next_eph b \<and> eg_opened b' = eg_opened b \<and>
     subseq (map flow_key (eg_flows b')) (map flow_key (eg_flows b))"

lemma quiet_trans: "quiet a b \<Longrightarrow> quiet b c \<Longrightarrow> quiet a c"
  by (auto simp: quiet_def intro: subseq_order.trans)

lemma quiet_same:
  "eg_dialled b' = eg_dialled b \<Longrightarrow> eg_next_eph b' = eg_next_eph b \<Longrightarrow> eg_opened b' = eg_opened b \<Longrightarrow>
     eg_flows b' = eg_flows b \<Longrightarrow> quiet b b'"
  by (simp add: quiet_def)

lemma poll_iface_quiet: "quiet b (poll_iface S H b)"
  by (auto simp: poll_iface_def intro!: quiet_same split: prod.splits)

lemma pump_flow_key: "flow_key (fst (pump_flow S H f k)) = flow_key f"
  by (auto simp: pump_flow_def flow_key_def Let_def split: conn_poll.splits prod.splits)

lemma pump_each_keys: "map flow_key (fst (pump_each S H fs k)) = map flow_key fs"
proof (induction fs arbitrary: k)
  case (Cons f fs)
  obtain f' k1 out where p: "pump_flow S H f k = (f', k1, out)" by (cases "pump_flow S H f k")
  show ?case using Cons.IH [of k1] pump_flow_key [of S H f k] p by (auto split: prod.splits)
qed simp

lemma subseq_map_filter: "subseq (map g (filter P xs)) (map g xs)"
  by (simp add: subseq_map)

lemma pump_flows_quiet: "quiet b (pump_flows S H b)"
proof -
  obtain fs k outs where p: "pump_each S H (eg_flows b) (eg_stack b) = (fs, k, outs)"
    by (cases "pump_each S H (eg_flows b) (eg_stack b)")
  then have "map flow_key fs = map flow_key (eg_flows b)" using pump_each_keys [of S H "eg_flows b" "eg_stack b"] by simp
  then show ?thesis
    using subseq_map_filter [of flow_key "\<lambda>f. \<not> ns_closed S k (fl_handle f)" fs] p by (simp add: quiet_def pump_flows_def)
qed

lemma pump_inbound_quiet: "quiet b (pump_inbound S H b)"
  by (auto simp: pump_inbound_def intro!: quiet_same split: prod.splits)

lemma dns_ask_same:
  "eg_dialled (dns_ask H qs b) = eg_dialled b \<and> eg_next_eph (dns_ask H qs b) = eg_next_eph b \<and>
   eg_opened (dns_ask H qs b) = eg_opened b \<and> eg_flows (dns_ask H qs b) = eg_flows b"
  by (induction H qs b rule: dns_ask.induct) simp_all

lemma pump_dns_quiet: "quiet b (pump_dns S H b)"
  by (auto simp: pump_dns_def Let_def dns_ask_same intro!: quiet_same split: prod.splits)


section \<open>The table of connections\<close>

definition flows_ok :: "bool \<Rightarrow> 'k egress \<Rightarrow> bool" where
  "flows_ok allow b \<longleftrightarrow> length (eg_flows b) \<le> MAX_FLOWS \<and>
     (\<forall>d \<in> set (eg_dialled b). \<not> egress_blocked allow (fst d)) \<and>
     (\<forall>f \<in> set (eg_flows b). (ext_ip f, ext_port f) \<in> set (eg_dialled b)) \<and>
     distinct (map (\<lambda>f. (guest_port f, ext_ip f, ext_port f)) (eg_flows b))"

definition ephs_ok :: "'k egress \<Rightarrow> bool" where
  "ephs_ok b \<longleftrightarrow> (eg_opened b \<le> 25535 \<longrightarrow>
     unat (eg_next_eph b) = 40000 + eg_opened b \<and> distinct (map eph (eg_flows b)) \<and>
     (\<forall>f \<in> set (eg_flows b). unat (eph f) \<le> 40000 + eg_opened b))"

lemma subseq_set: "subseq xs ys \<Longrightarrow> set xs \<subseteq> set ys"
  by (induction rule: list_emb.induct) auto

lemma subseq_distinct: "subseq xs ys \<Longrightarrow> distinct ys \<Longrightarrow> distinct xs"
  by (induction rule: list_emb.induct) (auto dest: subseq_set)

lemma map_key:
  "map eph fs = map (\<lambda>(a, b, c, d). d) (map flow_key fs)"
  "map (\<lambda>f. (guest_port f, ext_ip f, ext_port f)) fs = map (\<lambda>(a, b, c, d). (a, b, c)) (map flow_key fs)"
  by (simp_all add: flow_key_def)

lemma quiet_member: "quiet b b' \<Longrightarrow> f \<in> set (eg_flows b') \<Longrightarrow> \<exists>g \<in> set (eg_flows b). flow_key g = flow_key f"
proof -
  assume q: "quiet b b'" and f: "f \<in> set (eg_flows b')"
  then have "flow_key ` set (eg_flows b') \<subseteq> flow_key ` set (eg_flows b)"
    using subseq_set [of "map flow_key (eg_flows b')" "map flow_key (eg_flows b)"] by (simp add: quiet_def)
  with f have "flow_key f \<in> flow_key ` set (eg_flows b)" by blast
  then show ?thesis by (metis imageE)
qed

lemma quiet_flows_ok:
  assumes "quiet b b'" "flows_ok allow b"
  shows "flows_ok allow b'"
proof -
  have "length (eg_flows b') \<le> length (eg_flows b)"
    using assms(1) list_emb_length by (fastforce simp: quiet_def)
  moreover have "(ext_ip f, ext_port f) \<in> set (eg_dialled b')" if "f \<in> set (eg_flows b')" for f
    using quiet_member [OF assms(1) that] assms by (auto simp: flows_ok_def quiet_def flow_key_def)
  moreover have "subseq (map (\<lambda>f. (guest_port f, ext_ip f, ext_port f)) (eg_flows b'))
      (map (\<lambda>f. (guest_port f, ext_ip f, ext_port f)) (eg_flows b))"
    using assms(1) unfolding map_key(2) quiet_def by (blast intro: subseq_map)
  ultimately show ?thesis using assms subseq_distinct by (auto simp: flows_ok_def quiet_def)
qed

lemma quiet_ephs_ok:
  assumes "quiet b b'" "ephs_ok b"
  shows "ephs_ok b'"
proof -
  have "subseq (map eph (eg_flows b')) (map eph (eg_flows b))"
    using assms(1) unfolding map_key(1) quiet_def by (blast intro: subseq_map)
  then have "distinct (map eph (eg_flows b)) \<Longrightarrow> distinct (map eph (eg_flows b'))" by (rule subseq_distinct)
  moreover have "\<exists>g \<in> set (eg_flows b). eph g = eph f" if "f \<in> set (eg_flows b')" for f
    using quiet_member [OF assms(1) that] by (auto simp: flow_key_def)
  ultimately show ?thesis using assms by (fastforce simp: ephs_ok_def quiet_def)
qed

lemma next_eph_step: "unat p = 40000 + n \<Longrightarrow> n < 25535 \<Longrightarrow> unat (next_eph p) = 40000 + Suc n"
  by (simp add: next_eph_def max_def word_le_nat_alt unat_word_ariths)

lemma accept_each_ok:
  "flows_ok allow b \<and> ephs_ok b \<Longrightarrow> flows_ok allow (accept_each S ps b) \<and> ephs_ok (accept_each S ps b)"
proof (induction ps arbitrary: b)
  case (Cons gport ps)
  let ?e = "next_eph (eg_next_eph b)"
  let ?b1 = "b\<lparr>eg_next_eph := ?e, eg_opened := Suc (eg_opened b)\<rparr>"
  define c where "c = (case ns_connect S (eg_stack b) gport ?e of
    None \<Rightarrow> ?b1 | Some (k, h) \<Rightarrow> ?b1\<lparr>eg_stack := k, eg_inbound := eg_inbound b @ [h]\<rparr>)"
  have c: "eg_opened c = Suc (eg_opened b)" "eg_next_eph c = ?e" "eg_flows c = eg_flows b" "eg_dialled c = eg_dialled b"
    unfolding c_def by (simp_all split: option.split prod.split)
  have "flows_ok allow c" using Cons.prems c by (simp add: flows_ok_def)
  moreover have "ephs_ok c"
  proof (cases "Suc (eg_opened b) \<le> 25535")
    case True
    then show ?thesis using Cons.prems next_eph_step [of "eg_next_eph b" "eg_opened b"] c by (fastforce simp: ephs_ok_def)
  qed (simp add: ephs_ok_def c(1))
  ultimately have "flows_ok allow (accept_each S ps c) \<and> ephs_ok (accept_each S ps c)" using Cons.IH by blast
  then show ?case by (simp add: c_def Let_def)
qed simp

lemma maybe_open_ok:
  assumes "flows_ok allow b" "ephs_ok b"
  shows "flows_ok allow (maybe_open_flow S W allow frame b) \<and> ephs_ok (maybe_open_flow S W allow frame b)"
proof -
  let ?e = "next_eph (eg_next_eph b)"
  have e: "unat ?e = 40000 + Suc (eg_opened b)" "\<forall>f \<in> set (eg_flows b). eph f \<noteq> ?e" "distinct (map eph (eg_flows b))"
    "\<forall>f \<in> set (eg_flows b). unat (eph f) \<le> 40000 + Suc (eg_opened b)" if "Suc (eg_opened b) \<le> 25535"
    using assms(2) next_eph_step [of "eg_next_eph b" "eg_opened b"] that by (fastforce simp: ephs_ok_def)+
  have fl: "flows_ok allow (maybe_open_flow S W allow frame b)"
    using assms(1)
    by (auto simp: maybe_open_flow_def flows_ok_def flow_matches_def list_ex_iff Let_def split: option.splits prod.splits)
  have "ephs_ok (maybe_open_flow S W allow frame b)"
    using assms(2) e by (auto simp: maybe_open_flow_def ephs_ok_def Let_def split: option.splits prod.splits)
  with fl show ?thesis by simp
qed

lemma egress_step_ok: "egress_step S W allow b b' \<Longrightarrow> flows_ok allow b \<and> ephs_ok b \<Longrightarrow> flows_ok allow b' \<and> ephs_ok b'"
proof (induction rule: egress_step.induct)
  case (send b H frame)
  let ?b1 = "maybe_open_flow S W allow frame b"
  let ?b2 = "?b1\<lparr>eg_rx := eg_rx ?b1 @ [dnat_in W ?b1 frame]\<rparr>"
  have "quiet ?b1 ?b2" by (rule quiet_same) simp_all
  then have "quiet ?b1 (egress_send S W allow H frame b)"
    unfolding egress_send_def Let_def by (meson quiet_trans poll_iface_quiet pump_flows_quiet pump_dns_quiet)
  then show ?case using send maybe_open_ok quiet_flows_ok quiet_ephs_ok by blast
next
  case (poll b H)
  let ?b1 = "accept_each S (eh_accepted H) (poll_iface S H b)"
  let ?b2 = "poll_iface S H (pump_dns S H (pump_inbound S H (pump_flows S H ?b1)))"
  have "quiet ?b1 ?b2" by (meson quiet_trans poll_iface_quiet pump_flows_quiet pump_inbound_quiet pump_dns_quiet)
  moreover have "quiet ?b2 (fst (egress_poll S W H b))"
    by (rule quiet_same) (auto simp: egress_poll_def Let_def split: list.splits)
  ultimately have "quiet ?b1 (fst (egress_poll S W H b))" by (rule quiet_trans)
  moreover have "flows_ok allow ?b1 \<and> ephs_ok ?b1"
    using poll poll_iface_quiet [of b S H] quiet_flows_ok quiet_ephs_ok by (intro accept_each_ok) blast
  ultimately show ?case using quiet_flows_ok quiet_ephs_ok by blast
qed

lemma egress_reach_ok:
  assumes "(egress_step S W allow)\<^sup>*\<^sup>* (egress_new k l) b"
  shows "flows_ok allow b \<and> ephs_ok b"
  using assms
proof (induction rule: rtranclp_induct)
  case base
  then show ?case by (simp add: flows_ok_def ephs_ok_def egress_new_def)
qed (rule egress_step_ok)

section \<open>Policy\<close>

lemma dns_ask_pending: "length (eg_pending b) \<le> MAX_PENDING_DNS \<Longrightarrow> length (eg_pending (dns_ask H qs b)) \<le> MAX_PENDING_DNS"
proof (induction H qs b rule: dns_ask.induct)
  case (2 H payload guest qs b)
  then show ?case by (simp add: MAX_PENDING_DNS_def)
qed simp

lemma pump_dns_pending:
  assumes "length (eg_pending b) \<le> MAX_PENDING_DNS"
  shows "length (eg_pending (pump_dns S H b)) \<le> MAX_PENDING_DNS"
proof -
  obtain k qs where r: "ns_dns_recv S (eg_stack b) = (k, qs)" by (cases "ns_dns_recv S (eg_stack b)")
  have "length (eg_pending (dns_ask H qs (b\<lparr>eg_stack := k\<rparr>))) \<le> MAX_PENDING_DNS"
    using assms by (intro dns_ask_pending) simp
  moreover have "eg_pending (pump_dns S H b) =
      filter (\<lambda>(q, guest). eh_answer H q = NoAnswer) (eg_pending (dns_ask H qs (b\<lparr>eg_stack := k\<rparr>)))"
    using r by (simp add: pump_dns_def Let_def)
  ultimately show ?thesis using le_trans [OF length_filter_le] by simp
qed

lemma pending_kept:
  "eg_pending (poll_iface S H b) = eg_pending b" "eg_pending (pump_flows S H b) = eg_pending b"
  "eg_pending (pump_inbound S H b) = eg_pending b" "eg_pending (accept_each S ps b) = eg_pending b"
  "eg_pending (maybe_open_flow S W allow frame b) = eg_pending b"
      apply (simp add: poll_iface_def split: prod.split)
     apply (simp add: pump_flows_def split: prod.split)
    apply (simp add: pump_inbound_def split: prod.split)
   apply (induction S ps b rule: accept_each.induct; simp add: Let_def split: option.split prod.split)
  apply (simp add: maybe_open_flow_def Let_def split: option.split prod.split)
  done

lemma egress_step_pending:
  "egress_step S W allow b b' \<Longrightarrow> length (eg_pending b) \<le> MAX_PENDING_DNS \<Longrightarrow> length (eg_pending b') \<le> MAX_PENDING_DNS"
proof (induction rule: egress_step.induct)
  case (send b H frame)
  then show ?case by (simp add: egress_send_def Let_def pending_kept pump_dns_pending)
next
  case (poll b H)
  then show ?case by (simp add: egress_poll_def Let_def pending_kept pump_dns_pending split: list.split)
qed

text \<open>C12. The guest reaches only what the policy allows and cannot grow the host's tables: whatever frames
  it sends and however stack and host behave, no connection is ever attempted to a loopback,
  link-local, broadcast, unspecified or documentation address, nor to a private one unless that was
  allowed, and there are never more than 256 connections and 256 open name queries.\<close>

theorem egress_confined:
  assumes "(egress_step S W allow)\<^sup>*\<^sup>* (egress_new k l) b"
  shows "(\<forall>(ip, port) \<in> set (eg_dialled b). oct1 ip \<noteq> 127 \<and> \<not> (oct1 ip = 169 \<and> oct2 ip = 254) \<and>
       ip \<noteq> Ipv4 0 0 0 0 \<and> ip \<noteq> Ipv4 255 255 255 255 \<and> \<not> is_documentation ip \<and> (is_private ip \<longrightarrow> allow)) \<and>
     length (eg_flows b) \<le> 256 \<and> length (eg_pending b) \<le> 256"
proof -
  have "length (eg_pending b) \<le> MAX_PENDING_DNS" using assms
  proof (induction rule: rtranclp_induct)
    case base
    then show ?case by (simp add: egress_new_def)
  qed (rule egress_step_pending)
  moreover have "flows_ok allow b" using egress_reach_ok [OF assms] by simp
  ultimately show ?thesis
    by (auto simp: flows_ok_def egress_blocked_def is_loopback_def is_link_local_def is_unspecified_def
        is_broadcast_def MAX_FLOWS_def MAX_PENDING_DNS_def split: if_splits)
qed


section \<open>Translation\<close>

definition pick :: "'a \<Rightarrow> 'a option \<Rightarrow> 'a" where
  "pick x y = (case y of None \<Rightarrow> x | Some z \<Rightarrow> z)"

text \<open>What the packet accessors promise: the fourteen bytes of an Ethernet header say what the payload
  is, a setter changes the fields it is given and nothing else that is read, and keeps lengths.\<close>

definition wire_ok :: "wire \<Rightarrow> bool" where
  "wire_ok W \<longleftrightarrow>
     (\<forall>f t p. w_eth W f = Some (t, p) \<longrightarrow>
        14 \<le> length f \<and> p = drop 14 f \<and> (\<forall>p'. w_eth W (take 14 f @ p') = Some (t, p'))) \<and>
     (\<forall>p hl tc s d pay. w_ip W p = Some (hl, tc, s, d, pay) \<longrightarrow>
        hl \<le> length p \<and> pay = take (length pay) (drop hl p) \<and>
        (\<forall>so dd t. length t = length (drop hl p) \<longrightarrow>
           w_ip W (w_set_ip W so dd (take hl p) @ t) = Some (hl, tc, pick s so, pick d dd, take (length pay) t))) \<and>
     (\<forall>n t sp dp sy ac. w_tcp W (take n t) = Some (sp, dp, sy, ac) \<longrightarrow>
        (\<forall>so dd s d. length (w_set_tcp W so dd s d t) = length t \<and>
           w_tcp W (take n (w_set_tcp W so dd s d t)) = Some (pick sp so, pick dp dd, sy, ac)))"

lemma wire_set_tcp:
  assumes "wire_ok W" "w_tcp W (take n t) = Some (sp, dp, sy, ac)"
  shows "length (w_set_tcp W so dd s d t) = length t"
    "w_tcp W (take n (w_set_tcp W so dd s d t)) = Some (pick sp so, pick dp dd, sy, ac)"
  using assms unfolding wire_ok_def by blast+

lemma rewrite_tuple:
  assumes "wire_ok W" "tcp_tuple W frame = Some (s, d, sp, dp, sy, ac)"
  shows "tcp_tuple W (rewrite_frame W frame so dd spo dpo) = Some (pick s so, pick d dd, pick sp spo, pick dp dpo, sy, ac)"
proof -
  obtain l3 where eth: "w_eth W frame = Some (True, l3)"
    using assms(2) by (auto simp: tcp_tuple_def split: option.splits if_splits)
  obtain hl pay where ip: "w_ip W l3 = Some (hl, True, s, d, pay)" and tcp: "w_tcp W pay = Some (sp, dp, sy, ac)"
    using assms(2) eth by (auto simp: tcp_tuple_def split: option.splits if_splits)
  have e: "14 \<le> length frame" "l3 = drop 14 frame" "\<And>p'. w_eth W (take 14 frame @ p') = Some (True, p')"
    using assms(1) eth by (auto simp: wire_ok_def)
  have i: "hl \<le> length l3" "pay = take (length pay) (drop hl l3)"
    "\<And>t. length t = length (drop hl l3) \<Longrightarrow>
       w_ip W (w_set_ip W so dd (take hl l3) @ t) = Some (hl, True, pick s so, pick d dd, take (length pay) t)"
    using assms(1) ip unfolding wire_ok_def by blast+
  have seg: "w_tcp W (take (length pay) (drop hl l3)) = Some (sp, dp, sy, ac)" using tcp by (subst i(2) [symmetric])
  let ?t = "w_set_tcp W spo dpo (pick s so) (pick d dd) (drop hl l3)"
  have t: "length ?t = length (drop hl l3)" "w_tcp W (take (length pay) ?t) = Some (pick sp spo, pick dp dpo, sy, ac)"
    by (rule wire_set_tcp [OF assms(1) seg])+
  have "rewrite_frame W frame so dd spo dpo = take 14 frame @ w_set_ip W so dd (take hl l3) @ ?t"
    using e(1,2) ip by (simp add: rewrite_frame_def Let_def pick_def)
  then show ?thesis using e(3) i(3) [OF t(1)] t(2) by (simp add: tcp_tuple_def)
qed

lemma find_unique:
  assumes "f \<in> set fs" "P f" "\<forall>g \<in> set fs. P g \<longrightarrow> g = f"
  shows "find P fs = Some f"
proof (cases "find P fs")
  case None
  then have "\<forall>x \<in> set fs. \<not> P x" by (simp only: find_None_iff) blast
  then show ?thesis using assms(1,2) by blast
next
  case (Some g)
  then have "g \<in> set fs \<and> P g" unfolding find_Some_iff by (metis nth_mem)
  then have "g = f" using assms(3) by blast
  then show ?thesis using Some by simp
qed

text \<open>C13. The two translations are inverse: while fewer than 25536 connections have been opened, a frame
  of the guest on an open connection reaches the stack as a frame to the gateway at the connection's
  own port, and a reply of the stack to that port comes back to the guest from the address and port
  the guest had dialled, with the other fields unchanged.\<close>

theorem nat_roundtrip:
  assumes "wire_ok W" "(egress_step S W allow)\<^sup>*\<^sup>* (egress_new k l) b" "eg_opened b \<le> 25535" "f \<in> set (eg_flows b)"
    and "tcp_tuple W req = Some (GUEST, ext_ip f, guest_port f, ext_port f, sy, ac)"
    and "tcp_tuple W rep = Some (GATEWAY, GUEST, eph f, guest_port f, sy', ac')"
  shows "tcp_tuple W (dnat_in W b req) = Some (GUEST, GATEWAY, guest_port f, eph f, sy, ac) \<and>
     tcp_tuple W (dnat_out W b rep) = Some (ext_ip f, GUEST, ext_port f, guest_port f, sy', ac')"
proof -
  have dist: "distinct (map eph (eg_flows b))" "distinct (map (\<lambda>f. (guest_port f, ext_ip f, ext_port f)) (eg_flows b))"
    using egress_reach_ok [OF assms(2)] assms(3) by (simp_all add: ephs_ok_def flows_ok_def)
  have "find (flow_matches (guest_port f) (ext_ip f) (ext_port f)) (eg_flows b) = Some f"
    using find_unique [of f "eg_flows b" "flow_matches (guest_port f) (ext_ip f) (ext_port f)"] assms(4) dist(2)
    by (auto simp: distinct_map inj_on_def flow_matches_def)
  then have "tcp_tuple W (dnat_in W b req) = Some (GUEST, GATEWAY, guest_port f, eph f, sy, ac)"
    using rewrite_tuple [OF assms(1,5)] by (simp add: dnat_in_def assms(5) pick_def)
  moreover have "find (\<lambda>h. eph h = eph f \<and> guest_port h = guest_port f) (eg_flows b) = Some f"
    using find_unique [of f "eg_flows b" "\<lambda>h. eph h = eph f \<and> guest_port h = guest_port f"] assms(4) dist(1)
    by (auto simp: distinct_map inj_on_def)
  then have "tcp_tuple W (dnat_out W b rep) = Some (ext_ip f, GUEST, ext_port f, guest_port f, sy', ac')"
    using rewrite_tuple [OF assms(1,6)] by (simp add: dnat_out_def assms(6) pick_def)
  ultimately show ?thesis by blast
qed

section \<open>Losses\<close>

text \<open>What the stack has no room for is lost: when a socket takes only the first bytes of what was
  read from the host, the exchange is the same as if the host had sent nothing more, and the rest of
  the stream is never delivered to the guest.\<close>

theorem bridge_loses_overflow:
  assumes "\<And>k h bs k' n. ns_send S k h bs = (k', n) \<Longrightarrow> ns_send S k h (take n bs) = (k', n)"
    and "ns_recv S k h = None" "ns_can_send S k h" "eh_read H h = HostData bs" "length bs \<le> 32 * 1024"
    and "ns_send S k h bs = (k', n)" "n < length bs"
  shows "bridge S H h False k = (k', False, []) \<and>
     bridge S H h False k = bridge S (H\<lparr>eh_read := (eh_read H)(h := HostData (take n bs))\<rparr>) h False k"
proof -
  have "ns_send S k h (take n bs) = (k', n)" by (rule assms(1) [OF assms(6)])
  moreover have "take (32 * 1024) bs = bs" "take (32 * 1024) (take n bs) = take n bs" using assms(5,7) by simp_all
  ultimately show ?thesis using assms(2-4,6) by (simp only: bridge_def) simp
qed

text \<open>A sequence of calls: a frame to send or a poll, each with the host's answers.\<close>

definition egress_call :: "'k netstack \<Rightarrow> wire \<Rightarrow> bool \<Rightarrow> egress_host \<times> bytes option \<Rightarrow> 'k egress \<Rightarrow> 'k egress" where
  "egress_call S W allow c b =
     (case snd c of Some frame \<Rightarrow> egress_send S W allow (fst c) frame b | None \<Rightarrow> fst (egress_poll S W (fst c) b))"

lemma egress_call_step: "egress_step S W allow b (egress_call S W allow c b)"
  by (auto simp: egress_call_def intro: egress_step.intros split: option.split)

lemma dns_ask_full: "MAX_PENDING_DNS \<le> length (eg_pending b) \<Longrightarrow> dns_ask H qs b = b"
  by (induction H qs b rule: dns_ask.induct) simp_all

lemma queries_kept:
  "eg_queries (poll_iface S H b) = eg_queries b" "eg_queries (pump_flows S H b) = eg_queries b"
  "eg_queries (pump_inbound S H b) = eg_queries b" "eg_queries (accept_each S ps b) = eg_queries b"
  "eg_queries (maybe_open_flow S W allow frame b) = eg_queries b"
      apply (simp add: poll_iface_def split: prod.split)
     apply (simp add: pump_flows_def split: prod.split)
    apply (simp add: pump_inbound_def split: prod.split)
   apply (induction S ps b rule: accept_each.induct; simp add: Let_def split: option.split prod.split)
  apply (simp add: maybe_open_flow_def Let_def split: option.split prod.split)
  done

lemma pump_dns_starved:
  assumes "MAX_PENDING_DNS \<le> length (eg_pending b)" "\<forall>(q, g) \<in> set (eg_pending b). eh_answer H q = NoAnswer"
  shows "eg_pending (pump_dns S H b) = eg_pending b \<and> eg_queries (pump_dns S H b) = eg_queries b"
proof -
  obtain k qs where r: "ns_dns_recv S (eg_stack b) = (k, qs)" by (cases "ns_dns_recv S (eg_stack b)")
  have "dns_ask H qs (b\<lparr>eg_stack := k\<rparr>) = b\<lparr>eg_stack := k\<rparr>" using assms(1) by (intro dns_ask_full) simp
  moreover have "filter (\<lambda>(q, g). eh_answer H q = NoAnswer) (eg_pending b) = eg_pending b" using assms(2) by (simp add: filter_id_conv)
  ultimately show ?thesis using r by (simp add: pump_dns_def Let_def)
qed

lemma egress_call_starved:
  assumes "MAX_PENDING_DNS \<le> length (eg_pending b)" "\<forall>(q, g) \<in> set (eg_pending b). eh_answer (fst c) q = NoAnswer"
  shows "eg_pending (egress_call S W allow c b) = eg_pending b \<and> eg_queries (egress_call S W allow c b) = eg_queries b"
proof (cases "snd c")
  case None
  let ?b1 = "pump_inbound S (fst c) (pump_flows S (fst c) (accept_each S (eh_accepted (fst c)) (poll_iface S (fst c) b)))"
  have "eg_pending ?b1 = eg_pending b" "eg_queries ?b1 = eg_queries b" by (simp_all add: pending_kept queries_kept)
  then show ?thesis using None assms pump_dns_starved [of ?b1 "fst c" S]
    by (simp add: egress_call_def egress_poll_def Let_def pending_kept queries_kept split: list.split)
next
  case (Some frame)
  let ?b0 = "maybe_open_flow S W allow frame b"
  let ?b1 = "pump_flows S (fst c) (poll_iface S (fst c) (?b0\<lparr>eg_rx := eg_rx ?b0 @ [dnat_in W ?b0 frame]\<rparr>))"
  have "eg_pending ?b1 = eg_pending b" "eg_queries ?b1 = eg_queries b" by (simp_all add: pending_kept queries_kept)
  then show ?thesis using Some assms pump_dns_starved [of ?b1 "fst c" S]
    by (simp add: egress_call_def egress_send_def Let_def pending_kept queries_kept)
qed

text \<open>Lost name queries are never given up: once 256 queries wait for answers that do not come, no
  query of the guest is sent to the resolver again, along any sequence of frames and polls.\<close>

theorem dns_starved:
  assumes "length (eg_pending b) = 256"
    and "\<forall>c \<in> set cs. \<forall>(q, g) \<in> set (eg_pending b). eh_answer (fst c) q = NoAnswer"
  shows "eg_pending (fold (egress_call S W allow) cs b) = eg_pending b \<and>
     eg_queries (fold (egress_call S W allow) cs b) = eg_queries b"
  using assms
proof (induction cs arbitrary: b)
  case (Cons c cs)
  have st: "eg_pending (egress_call S W allow c b) = eg_pending b" "eg_queries (egress_call S W allow c b) = eg_queries b"
    using egress_call_starved [of b c S W allow] Cons.prems by (simp_all add: MAX_PENDING_DNS_def)
  then show ?case using Cons.IH [of "egress_call S W allow c b"] Cons.prems by simp
qed simp

section \<open>Instances\<close>

text \<open>A wire format with the offsets of the headers without options and without checksums, and a stack
  that accepts everything and takes four bytes at a time.\<close>

definition ip_at :: "bytes \<Rightarrow> nat \<Rightarrow> ipv4" where
  "ip_at p i = Ipv4 (p ! i) (p ! (i + 1)) (p ! (i + 2)) (p ! (i + 3))"

definition ip_bytes :: "ipv4 \<Rightarrow> bytes" where
  "ip_bytes ip = [oct1 ip, oct2 ip, oct3 ip, oct4 ip]"

definition port_at :: "bytes \<Rightarrow> nat \<Rightarrow> u16" where
  "port_at p i = from_le (rev (take 2 (drop i p)))"

definition port_bytes :: "u16 \<Rightarrow> bytes" where
  "port_bytes x = rev (to_le 2 x)"

definition demo_wire :: wire where
  "demo_wire =
     \<lparr>w_eth = (\<lambda>f. if 14 \<le> length f then Some (f ! 12 = 8 \<and> f ! 13 = 0, drop 14 f) else None),
      w_ip = (\<lambda>p. if 20 \<le> length p then Some (20, p ! 9 = 6, ip_at p 12, ip_at p 16, drop 20 p) else None),
      w_tcp = (\<lambda>p. if 20 \<le> length p then Some (port_at p 0, port_at p 2, bit (p ! 13) 1, bit (p ! 13) 4) else None),
      w_set_ip = (\<lambda>so dd h. take 12 h @ ip_bytes (pick (ip_at h 12) so) @ ip_bytes (pick (ip_at h 16) dd)),
      w_set_tcp = (\<lambda>so dd s d t. port_bytes (pick (port_at t 0) so) @ port_bytes (pick (port_at t 2) dd) @ drop 4 t)\<rparr>"

lemma port_bytes_length [simp]: "length (port_bytes x) = 2"
  by (simp add: port_bytes_def)

lemma port_at_bytes:
  "port_at (port_bytes x @ r) 0 = x" "port_at (port_bytes x @ port_bytes y @ r) 2 = y"
  by (simp_all add: port_at_def port_bytes_def from_le_to_le)

lemma port_at_take: "4 \<le> n \<Longrightarrow> port_at (take n t) 0 = port_at t 0 \<and> port_at (take n t) 2 = port_at t 2"
  by (simp add: port_at_def min_def drop_take)

lemma demo_set_ip:
  assumes "20 \<le> length p" "length t = length p - 20"
  shows "w_ip demo_wire (w_set_ip demo_wire so dd (take 20 p) @ t) =
     Some (20, p ! 9 = 6, pick (ip_at p 12) so, pick (ip_at p 16) dd, t)"
  using assms
  by (simp add: demo_wire_def ip_at_def ip_bytes_def nth_append min_def nth_Cons' split: ipv4.split)

lemma demo_set_tcp:
  assumes "20 \<le> length (take n t)"
  shows "w_tcp demo_wire (take n (w_set_tcp demo_wire so dd s d t)) =
     Some (pick (port_at t 0) so, pick (port_at t 2) dd, bit (t ! 13) 1, bit (t ! 13) 4)"
proof -
  define r where "r = port_bytes (pick (port_at t 0) so) @ port_bytes (pick (port_at t 2) dd) @ drop 4 t"
  have "r ! 13 = t ! 13" "20 \<le> length r" "20 \<le> n" using assms by (simp_all add: r_def nth_append le_diff_conv2)
  then have "20 \<le> length (take n r)" "take n r ! 13 = t ! 13" by simp_all
  moreover have "port_at (take n r) 0 = pick (port_at t 0) so" "port_at (take n r) 2 = pick (port_at t 2) dd"
    using port_at_take [of n r] \<open>20 \<le> n\<close> by (simp_all add: r_def port_at_bytes)
  ultimately show ?thesis by (simp add: demo_wire_def flip: r_def)
qed

lemma demo_wire_ok: "wire_ok demo_wire"
  unfolding wire_ok_def
proof (intro conjI allI impI)
  fix f t p p'
  assume "w_eth demo_wire f = Some (t, p)"
  then have "14 \<le> length f" "t = (f ! 12 = 8 \<and> f ! 13 = 0)" "p = drop 14 f"
    by (auto simp: demo_wire_def split: if_splits)
  then show "14 \<le> length f" "p = drop 14 f" "w_eth demo_wire (take 14 f @ p') = Some (t, p')"
    by (auto simp: demo_wire_def nth_append min_def)
next
  fix p hl tc s d pay so dd and t :: bytes
  assume "w_ip demo_wire p = Some (hl, tc, s, d, pay)"
  then have p: "20 \<le> length p" "hl = 20" "tc = (p ! 9 = 6)" "s = ip_at p 12" "d = ip_at p 16" "pay = drop 20 p"
    by (auto simp: demo_wire_def split: if_splits)
  then show "hl \<le> length p" "pay = take (length pay) (drop hl p)" by simp_all
  assume "length t = length (drop hl p)"
  then show "w_ip demo_wire (w_set_ip demo_wire so dd (take hl p) @ t) = Some (hl, tc, pick s so, pick d dd, take (length pay) t)"
    using p demo_set_ip [of p t so dd] by simp
next
  fix n and t :: bytes and sp dp sy ac so dd s d
  assume a: "w_tcp demo_wire (take n t) = Some (sp, dp, sy, ac)"
  then have len: "20 \<le> length (take n t)" by (auto simp: demo_wire_def split: if_splits)
  then show "length (w_set_tcp demo_wire so dd s d t) = length t" by (auto simp: demo_wire_def)
  have "sp = port_at t 0" "dp = port_at t 2" "sy = bit (t ! 13) 1" "ac = bit (t ! 13) 4"
    using a len port_at_take [of n t] by (auto simp: demo_wire_def split: if_splits)
  then show "w_tcp demo_wire (take n (w_set_tcp demo_wire so dd s d t)) = Some (pick sp so, pick dp dd, sy, ac)"
    using demo_set_tcp [OF len] by simp
qed

definition demo_stack :: "nat netstack" where
  "demo_stack =
     \<lparr>ns_poll = (\<lambda>t k rx. (k, [], [])), ns_listen = (\<lambda>k e. Some (Suc k, k)), ns_connect = (\<lambda>k g e. Some (Suc k, k)),
      ns_closed = (\<lambda>k h. False), ns_remove = (\<lambda>k h. k), ns_abort = (\<lambda>k h. k), ns_close = (\<lambda>k h. k),
      ns_recv = (\<lambda>k h. None), ns_consume = (\<lambda>k h n. k), ns_can_send = (\<lambda>k h. True),
      ns_send = (\<lambda>k h bs. (k + min 4 (length bs), min 4 (length bs))),
      ns_dns_recv = (\<lambda>k. (k, replicate 300 ([], (GUEST, 5353)))), ns_dns_send = (\<lambda>k bs g. k)\<rparr>"

definition silent_host :: egress_host where
  "silent_host =
     \<lparr>eh_now = 0, eh_conn = (\<lambda>_. Pending), eh_write = (\<lambda>_ _. 0), eh_read = (\<lambda>_. HostData [1, 2, 3, 4, 5, 6]),
      eh_udp = (\<lambda>_. True), eh_answer = (\<lambda>_. NoAnswer), eh_accepted = []\<rparr>"

text \<open>A frame with the given addresses, ports and flag byte.\<close>

definition demo_packet :: "ipv4 \<Rightarrow> ipv4 \<Rightarrow> u16 \<Rightarrow> u16 \<Rightarrow> u8 \<Rightarrow> bytes" where
  "demo_packet s d sp dp fl =
     replicate 12 0 @ [8, 0] @ (replicate 9 0 @ [6, 0, 0] @ ip_bytes s @ ip_bytes d) @
     (port_bytes sp @ port_bytes dp @ replicate 9 0 @ [fl] @ replicate 6 0)"

lemma demo_packet_tuple: "tcp_tuple demo_wire (demo_packet s d sp dp fl) = Some (s, d, sp, dp, bit fl 1, bit fl 4)"
proof -
  let ?tcp = "port_bytes sp @ port_bytes dp @ replicate 9 0 @ [fl] @ replicate 6 0"
  have "w_tcp demo_wire ?tcp = Some (sp, dp, bit fl 1, bit fl 4)"
    by (simp add: demo_wire_def port_at_bytes nth_append)
  moreover have "w_ip demo_wire ((replicate 9 0 @ [6, 0, 0] @ ip_bytes s @ ip_bytes d) @ ?tcp) = Some (20, True, s, d, ?tcp)"
    by (cases s; cases d) (simp add: demo_wire_def ip_at_def ip_bytes_def nth_append numeral_nat)
  moreover have "w_eth demo_wire (demo_packet s d sp dp fl) =
      Some (True, (replicate 9 0 @ [6, 0, 0] @ ip_bytes s @ ip_bytes d) @ ?tcp)"
    by (simp add: demo_wire_def demo_packet_def nth_append)
  ultimately show ?thesis by (simp add: tcp_tuple_def)
qed

lemma flows_kept: "eg_flows (poll_iface S H b) = eg_flows b" "eg_flows (pump_dns S H b) = eg_flows b"
  "eg_opened (poll_iface S H b) = eg_opened b" "eg_opened (pump_dns S H b) = eg_opened b"
  "eg_dialled (poll_iface S H b) = eg_dialled b" "eg_dialled (pump_dns S H b) = eg_dialled b"
  "eg_dialled (pump_flows S H b) = eg_dialled b" "eg_opened (pump_flows S H b) = eg_opened b"
  by (simp_all add: poll_iface_def pump_dns_def pump_flows_def Let_def dns_ask_same split: prod.split)

text \<open>A first connection of the guest with a host that does not answer.\<close>

lemma demo_opened:
  fixes sp dp :: u16
  assumes "\<not> egress_blocked False d"
  defines "b \<equiv> egress_send demo_stack demo_wire False silent_host (demo_packet GUEST d sp dp 2) (egress_new 0 False)"
  shows "eg_flows b = [\<lparr>guest_port = sp, ext_ip = d, ext_port = dp, eph = 40001, fl_handle = 0,
      host_up = False, connecting = True, host_done = False\<rparr>]" "eg_opened b = 1" "eg_dialled b = [(d, dp)]"
proof -
  let ?b0 = "egress_new 0 False :: nat egress"
  have "maybe_open_flow demo_stack demo_wire False (demo_packet GUEST d sp dp 2) ?b0 =
      ?b0\<lparr>eg_dialled := [(d, dp)], eg_next_eph := 40001, eg_opened := 1, eg_stack := 1,
        eg_flows := [\<lparr>guest_port = sp, ext_ip = d, ext_port = dp, eph = 40001, fl_handle = 0,
          host_up = False, connecting = True, host_done = False\<rparr>]\<rparr>"
    using assms(1) by (simp add: maybe_open_flow_def demo_packet_tuple egress_new_def demo_stack_def next_eph_def MAX_FLOWS_def)
  then show "eg_flows b = [\<lparr>guest_port = sp, ext_ip = d, ext_port = dp, eph = 40001, fl_handle = 0,
      host_up = False, connecting = True, host_done = False\<rparr>]" "eg_opened b = 1" "eg_dialled b = [(d, dp)]"
    by (simp_all add: b_def egress_send_def Let_def flows_kept)
      (simp_all add: pump_flows_def poll_iface_def pump_flow_def demo_stack_def silent_host_def)
qed

lemma google_open: "\<not> egress_blocked False (Ipv4 8 8 8 8)"
  by (simp add: egress_blocked_def is_loopback_def is_link_local_def is_broadcast_def is_unspecified_def
      is_documentation_def is_private_def)

theorem egress_confined_witness:
  "\<exists>b b'. (egress_step demo_stack demo_wire False)\<^sup>*\<^sup>* (egress_new 0 False) b' \<and> eg_dialled b' = [(Ipv4 8 8 8 8, 443)] \<and>
     b' = egress_send demo_stack demo_wire False silent_host (demo_packet GUEST (Ipv4 169 254 169 254) 1000 80 2) b \<and>
     length (eg_flows b') \<le> 256 \<and> (\<forall>(ip, port) \<in> set (eg_dialled b'). oct1 ip \<noteq> 127)"
proof -
  define b where "b = egress_send demo_stack demo_wire False silent_host (demo_packet GUEST (Ipv4 8 8 8 8) 1000 443 2) (egress_new 0 False)"
  define b' where "b' = egress_send demo_stack demo_wire False silent_host (demo_packet GUEST (Ipv4 169 254 169 254) 1000 80 2) b"
  note o = demo_opened [OF google_open, of 1000 443, folded b_def]
  have reach: "(egress_step demo_stack demo_wire False)\<^sup>*\<^sup>* (egress_new 0 False) b'"
    unfolding b'_def b_def by (meson converse_rtranclp_into_rtranclp r_into_rtranclp egress_step.send)
  have "maybe_open_flow demo_stack demo_wire False (demo_packet GUEST (Ipv4 169 254 169 254) 1000 80 2) b = b"
    by (simp add: maybe_open_flow_def demo_packet_tuple o(1) egress_blocked_def is_link_local_def flow_matches_def)
  then have "eg_dialled b' = [(Ipv4 8 8 8 8, 443)]"
    using o(3) by (simp add: b'_def egress_send_def Let_def flows_kept)
  then show ?thesis using egress_confined [OF reach] reach b'_def by auto
qed

theorem nat_roundtrip_witness:
  "\<exists>b. (egress_step demo_stack demo_wire False)\<^sup>*\<^sup>* (egress_new 0 False) b \<and>
     tcp_tuple demo_wire (dnat_in demo_wire b (demo_packet GUEST (Ipv4 8 8 8 8) 1000 443 16)) =
       Some (GUEST, GATEWAY, 1000, 40001, False, True) \<and>
     tcp_tuple demo_wire (dnat_out demo_wire b (demo_packet GATEWAY GUEST 40001 1000 18)) =
       Some (Ipv4 8 8 8 8, GUEST, 443, 1000, True, True)"
proof -
  define b where "b = egress_send demo_stack demo_wire False silent_host (demo_packet GUEST (Ipv4 8 8 8 8) 1000 443 2) (egress_new 0 False)"
  note o = demo_opened [OF google_open, of 1000 443, folded b_def]
  obtain f where f: "f \<in> set (eg_flows b)" "ext_ip f = Ipv4 8 8 8 8" "ext_port f = 443" "guest_port f = 1000" "eph f = 40001"
    by (simp add: o(1))
  have reach: "(egress_step demo_stack demo_wire False)\<^sup>*\<^sup>* (egress_new 0 False) b"
    unfolding b_def by (rule r_into_rtranclp) (rule egress_step.send)
  have "eg_opened b \<le> 25535" using o(2) by simp
  moreover have "tcp_tuple demo_wire (demo_packet GUEST (Ipv4 8 8 8 8) 1000 443 16) = Some (GUEST, ext_ip f, guest_port f, ext_port f, False, True)"
    "tcp_tuple demo_wire (demo_packet GATEWAY GUEST 40001 1000 18) = Some (GATEWAY, GUEST, eph f, guest_port f, True, True)"
    using f by (simp_all add: demo_packet_tuple bit_numeral_rec)
  ultimately show ?thesis using nat_roundtrip [OF demo_wire_ok reach _ f(1)] f reach by fastforce
qed

theorem bridge_loses_overflow_witness:
  "bridge demo_stack silent_host 0 False 0 = (4, False, []) \<and>
   bridge demo_stack silent_host 0 False 0 =
     bridge demo_stack (silent_host\<lparr>eh_read := (eh_read silent_host)(0 := HostData (take 4 [1, 2, 3, 4, 5, 6]))\<rparr>) 0 False 0"
  using bridge_loses_overflow [of demo_stack 0 0 silent_host "[1, 2, 3, 4, 5, 6]" 4 4]
  by (auto simp: demo_stack_def silent_host_def)

lemma dns_ask_all:
  assumes "\<And>q. eh_udp H q" "length (eg_pending b) \<le> MAX_PENDING_DNS"
  shows "length (eg_pending (dns_ask H qs b)) = min MAX_PENDING_DNS (length (eg_pending b) + length qs)"
  using assms(2)
proof (induction qs arbitrary: b)
  case (Cons q qs)
  obtain payload guest where q: "q = (payload, guest)" by (cases q)
  show ?case
  proof (cases "MAX_PENDING_DNS \<le> length (eg_pending b)")
    case True
    then show ?thesis using Cons q by simp
  next
    case False
    let ?b1 = "b\<lparr>eg_pending := eg_pending b @ [(eg_queries b, guest)], eg_queries := Suc (eg_queries b)\<rparr>"
    show ?thesis using Cons.IH [of ?b1] False q assms(1) [of "eg_queries b"] by simp
  qed
qed simp

theorem dns_starved_witness:
  "\<exists>b. b = fst (egress_poll demo_stack demo_wire silent_host (egress_new 0 False)) \<and> length (eg_pending b) = 256 \<and>
     eg_queries (fold (egress_call demo_stack demo_wire False) (replicate 1000 (silent_host, None)) b) = eg_queries b"
proof -
  define b where "b = fst (egress_poll demo_stack demo_wire silent_host (egress_new 0 False))"
  have "ns_dns_recv demo_stack k = (k, replicate 300 ([], (GUEST, 5353)))" for k by (simp add: demo_stack_def)
  moreover have "eh_answer silent_host q = NoAnswer" "eh_udp silent_host q" for q by (simp_all add: silent_host_def)
  ultimately have "length (eg_pending (pump_dns demo_stack silent_host c)) = 256" if "eg_pending c = []" for c
    using that by (simp add: pump_dns_def Let_def dns_ask_all MAX_PENDING_DNS_def)
  then have len: "length (eg_pending b) = 256"
    by (auto simp: b_def egress_poll_def Let_def pending_kept egress_new_def split: list.split)
  have "\<forall>c \<in> set (replicate 1000 (silent_host, None :: bytes option)). \<forall>(q, g) \<in> set (eg_pending b). eh_answer (fst c) q = NoAnswer"
    by (simp add: silent_host_def)
  from dns_starved [OF len this] len b_def show ?thesis by blast
qed

end
