(* ===== verification/Registry.thy ===== *)
theory Registry
  imports Addr Proto
begin

text \<open>
  The image registry client (\<^verbatim>\<open>amber-image/src/registry.rs\<close>): references, the token
  handshake, manifests, and blobs verified against their digest.  The HTTP client, the JSON parser and
  SHA-256 are parameters; a server is a state machine that answers one request at a time.  Files are
  kept by their path with dots resolved.
\<close>

section \<open>Vocabulary\<close>

datatype image_error =
    BadReference string
  | HttpError string
  | RegistryError string
  | JsonError
  | DigestError string string
  | PackFailed string
  | ImageIo

datatype json = JNull | JBool bool | JNum int | JStr string | JArr "json list" | JObj "(string \<times> json) list"

text \<open>Indexing by a key gives null where there is nothing, as \<open>Value\<close> does.\<close>

definition jget :: "json \<Rightarrow> string \<Rightarrow> json" where
  "jget v k = (case v of JObj kvs \<Rightarrow> (case map_of kvs k of None \<Rightarrow> JNull | Some x \<Rightarrow> x) | _ \<Rightarrow> JNull)"

definition as_str :: "json \<Rightarrow> string option" where
  "as_str v = (case v of JStr s \<Rightarrow> Some s | _ \<Rightarrow> None)"

definition as_array :: "json \<Rightarrow> json list option" where
  "as_array v = (case v of JArr xs \<Rightarrow> Some xs | _ \<Rightarrow> None)"

record image_config =
  ic_entrypoint :: "string list"
  ic_cmd :: "string list"
  ic_env :: "string list"
  ic_working_dir :: "string option"

definition default_argv :: "image_config \<Rightarrow> string list" where
  "default_argv c = ic_entrypoint c @ ic_cmd c"


section \<open>References\<close>

definition MAX_BLOB :: nat where "MAX_BLOB = 4 * 2 ^ 30"
definition DEFAULT_REGISTRY :: string where "DEFAULT_REGISTRY = ''registry-1.docker.io''"

record image_ref =
  ir_registry :: string
  ir_repository :: string
  ir_reference :: string

definition show_ref :: "image_ref \<Rightarrow> string" where
  "show_ref r = ir_registry r @ ''/'' @ ir_repository r @ '':'' @ ir_reference r"

definition host_like :: "string \<Rightarrow> bool" where
  "host_like head \<longleftrightarrow> CHR ''.'' \<in> set head \<or> CHR '':'' \<in> set head \<or> head = ''localhost''"

definition split_registry :: "string \<Rightarrow> string \<times> string" where
  "split_registry s =
     (case split_once (CHR ''/'') s of
        Some (head, tail) \<Rightarrow> if host_like head then (head, tail) else (DEFAULT_REGISTRY, s)
      | None \<Rightarrow> (DEFAULT_REGISTRY, s))"

definition split_reference :: "string \<Rightarrow> string \<times> string" where
  "split_reference rest =
     (case split_once (CHR ''@'') rest of
        Some (repo, dig) \<Rightarrow> (repo, dig)
      | None \<Rightarrow>
          (case rsplit_once (CHR '':'') rest of
             Some (repo, tag) \<Rightarrow> if CHR ''/'' \<in> set tag then (rest, ''latest'') else (repo, tag)
           | None \<Rightarrow> (rest, ''latest'')))"

definition parse_ref :: "string \<Rightarrow> image_error + image_ref" where
  "parse_ref s =
     (if s = [] then Inl (BadReference ''empty'')
      else
        let (registry0, rest) = split_registry s;
            registry = (if registry0 = ''docker.io'' then DEFAULT_REGISTRY else registry0);
            (repository, reference) = split_reference rest
        in Inr \<lparr>ir_registry = registry,
                ir_repository = (if registry = DEFAULT_REGISTRY \<and> CHR ''/'' \<notin> set repository
                                 then ''library/'' @ repository else repository),
                ir_reference = reference\<rparr>)"


section \<open>Tokens\<close>

fun find_sub :: "string \<Rightarrow> string \<Rightarrow> string option" where
  "find_sub needle [] = (if needle = [] then Some [] else None)"
| "find_sub needle (c # cs) =
     (if take (length needle) (c # cs) = needle then Some (drop (length needle) (c # cs)) else find_sub needle cs)"

definition DQUOTE :: char where "DQUOTE = char_of (34 :: nat)"

definition challenge_field :: "string \<Rightarrow> string \<Rightarrow> string option" where
  "challenge_field challenge key =
     (case find_sub (key @ [CHR ''='', DQUOTE]) challenge of
        None \<Rightarrow> None
      | Some rest \<Rightarrow> map_option fst (split_once DQUOTE rest))"

definition lower :: "char \<Rightarrow> char" where
  "lower c = (let n = of_char c :: nat in if 65 \<le> n \<and> n \<le> 90 then char_of (n + 32) else c)"

definition realm_host :: "string \<Rightarrow> string" where
  "realm_host rest =
     (let authority = takeWhile (\<lambda>c. c \<noteq> CHR ''/'' \<and> c \<noteq> CHR ''?'' \<and> c \<noteq> CHR ''#'') rest;
          hostport = (case rsplit_once (CHR ''@'') authority of None \<Rightarrow> authority | Some (u, h) \<Rightarrow> h)
      in case strip_prefix ''['' hostport of
           Some h \<Rightarrow> takeWhile (\<lambda>c. c \<noteq> CHR '']'') h
         | None \<Rightarrow> takeWhile (\<lambda>c. c \<noteq> CHR '':'') hostport)"

definition internal_host :: "string \<Rightarrow> bool" where
  "internal_host host \<longleftrightarrow>
     map lower host = ''localhost'' \<or>
     (case parse_ipv4 host of
        None \<Rightarrow> False
      | Some ip \<Rightarrow> is_loopback ip \<or> is_link_local ip \<or> is_private ip \<or> is_unspecified ip) \<or>
     (case parse_ipv6 host of None \<Rightarrow> False | Some gs \<Rightarrow> ipv6_local gs)"

definition validate_realm :: "string \<Rightarrow> image_error + unit" where
  "validate_realm realm =
     (case strip_prefix ''https://'' realm of
        None \<Rightarrow> Inl (RegistryError (''token realm must be https: '' @ realm))
      | Some rest \<Rightarrow>
          if internal_host (realm_host rest)
          then Inl (RegistryError (''token realm points at an internal address: '' @ realm))
          else Inr ())"


section \<open>Requests\<close>

text \<open>A response's body may end early (\<open>torn\<close>); a 401 carries its challenge.\<close>

datatype response = Response bytes bool | Unauthorized string | Failed string

record 's web =
  web_get :: "'s \<Rightarrow> string \<Rightarrow> string \<Rightarrow> string option \<Rightarrow> 's \<times> response"
  web_token :: "'s \<Rightarrow> string \<Rightarrow> string \<Rightarrow> string \<Rightarrow> 's \<times> response"
  web_json :: "bytes \<Rightarrow> json option"
  web_sha :: "bytes \<Rightarrow> string"

record client =
  cl_base :: string
  cl_repository :: string
  cl_reference :: string
  cl_token :: "string option"

definition client_new :: "image_ref \<Rightarrow> client" where
  "client_new r =
     \<lparr>cl_base = ''https://'' @ ir_registry r @ ''/v2/'' @ ir_repository r, cl_repository = ir_repository r,
      cl_reference = ir_reference r, cl_token = None\<rparr>"

definition body_text :: "response \<Rightarrow> image_error + bytes" where
  "body_text r =
     (case r of
        Response body torn \<Rightarrow> if torn then Inl ImageIo else Inr body
      | Unauthorized c \<Rightarrow> Inl (HttpError ''401'')
      | Failed e \<Rightarrow> Inl (HttpError e))"

definition token_of :: "json \<Rightarrow> string option" where
  "token_of v = (case as_str (jget v ''token'') of Some t \<Rightarrow> Some t | None \<Rightarrow> as_str (jget v ''access_token''))"

definition authenticate :: "'s web \<Rightarrow> string \<Rightarrow> client \<Rightarrow> 's \<Rightarrow> 's \<times> (image_error + client)" where
  "authenticate W challenge c s =
     (case challenge_field challenge ''realm'' of
        None \<Rightarrow> (s, Inl (RegistryError (''no realm in challenge: '' @ challenge)))
      | Some realm \<Rightarrow>
          (case validate_realm realm of
             Inl e \<Rightarrow> (s, Inl e)
           | Inr u \<Rightarrow>
               let service = (case challenge_field challenge ''service'' of None \<Rightarrow> [] | Some x \<Rightarrow> x);
                   (s1, r) = web_token W s realm service (''repository:'' @ cl_repository c @ '':pull'')
               in (s1, case body_text r of
                         Inl e \<Rightarrow> Inl e
                       | Inr body \<Rightarrow>
                           (case web_json W body of
                              None \<Rightarrow> Inl JsonError
                            | Some v \<Rightarrow>
                                (case token_of v of
                                   None \<Rightarrow> Inl (RegistryError ''no token in auth response'')
                                 | Some t \<Rightarrow> Inr (c\<lparr>cl_token := Some t\<rparr>))))))"

text \<open>A request, repeated once with a token when it was refused for the lack of one.\<close>

definition client_get ::
  "'s web \<Rightarrow> string \<Rightarrow> string \<Rightarrow> client \<Rightarrow> 's \<Rightarrow> 's \<times> client \<times> (image_error + bytes \<times> bool)" where
  "client_get W url accept c s =
     (case web_get W s url accept (cl_token c) of
        (s1, Response body torn) \<Rightarrow> (s1, c, Inr (body, torn))
      | (s1, Failed e) \<Rightarrow> (s1, c, Inl (HttpError e))
      | (s1, Unauthorized challenge) \<Rightarrow>
          (case authenticate W challenge c s1 of
             (s2, Inl e) \<Rightarrow> (s2, c, Inl e)
           | (s2, Inr c') \<Rightarrow>
               (case web_get W s2 url accept (cl_token c') of
                  (s3, Response body torn) \<Rightarrow> (s3, c', Inr (body, torn))
                | (s3, Failed e) \<Rightarrow> (s3, c', Inl (HttpError (''after auth: '' @ e)))
                | (s3, Unauthorized ch) \<Rightarrow> (s3, c', Inl (HttpError ''after auth: 401'')))))"

definition client_text ::
  "'s web \<Rightarrow> string \<Rightarrow> string \<Rightarrow> client \<Rightarrow> 's \<Rightarrow> 's \<times> client \<times> (image_error + bytes)" where
  "client_text W url accept c s =
     (case client_get W url accept c s of
        (s1, c1, Inl e) \<Rightarrow> (s1, c1, Inl e)
      | (s1, c1, Inr (body, torn)) \<Rightarrow> (s1, c1, if torn then Inl ImageIo else Inr body))"


section \<open>Manifests\<close>

record image_manifest =
  im_config :: string
  im_layers :: "string list"

definition parse_manifest :: "json \<Rightarrow> image_error + image_manifest" where
  "parse_manifest v =
     (case as_str (jget (jget v ''config'') ''digest'') of
        None \<Rightarrow> Inl (RegistryError ''manifest has no config digest'')
      | Some d \<Rightarrow>
          (case as_array (jget v ''layers'') of
             None \<Rightarrow> Inl (RegistryError ''manifest has no layers'')
           | Some ls \<Rightarrow> Inr \<lparr>im_config = d, im_layers = List.map_filter (\<lambda>l. as_str (jget l ''digest'')) ls\<rparr>))"

definition arm64_digest :: "json \<Rightarrow> string option" where
  "arm64_digest m =
     (let plat = jget m ''platform''
      in if as_str (jget plat ''architecture'') = Some ''arm64'' \<and> as_str (jget plat ''os'') = Some ''linux''
         then as_str (jget m ''digest'') else None)"

definition pick_arm64 :: "json \<Rightarrow> image_error + string" where
  "pick_arm64 index =
     (case as_array (jget index ''manifests'') of
        None \<Rightarrow> Inl (RegistryError ''index has no manifests'')
      | Some ms \<Rightarrow>
          (case List.map_filter arm64_digest ms of
             d # ds \<Rightarrow> Inr d
           | [] \<Rightarrow> Inl (RegistryError ''no arm64/linux image in index'')))"

definition str_list :: "json \<Rightarrow> string list" where
  "str_list v = (case as_array v of None \<Rightarrow> [] | Some xs \<Rightarrow> List.map_filter as_str xs)"

definition parse_config :: "json option \<Rightarrow> image_error + image_config" where
  "parse_config body =
     (case body of
        None \<Rightarrow> Inl JsonError
      | Some v \<Rightarrow>
          let c = jget v ''config''
          in Inr \<lparr>ic_entrypoint = str_list (jget c ''Entrypoint''), ic_cmd = str_list (jget c ''Cmd''),
                  ic_env = str_list (jget c ''Env''),
                  ic_working_dir = (case as_str (jget c ''WorkingDir'') of
                                      Some s \<Rightarrow> if s = [] then None else Some s
                                    | None \<Rightarrow> None)\<rparr>)"

definition ACCEPT_MANIFEST :: string where
  "ACCEPT_MANIFEST =
     ''application/vnd.oci.image.index.v1+json, application/vnd.docker.distribution.manifest.list.v2+json, '' @
     ''application/vnd.oci.image.manifest.v1+json, application/vnd.docker.distribution.manifest.v2+json''"

definition fetch_json :: "'s web \<Rightarrow> string \<Rightarrow> client \<Rightarrow> 's \<Rightarrow> 's \<times> client \<times> (image_error + json)" where
  "fetch_json W url c s =
     (case client_text W url ACCEPT_MANIFEST c s of
        (s1, c1, Inl e) \<Rightarrow> (s1, c1, Inl e)
      | (s1, c1, Inr body) \<Rightarrow> (s1, c1, case web_json W body of None \<Rightarrow> Inl JsonError | Some v \<Rightarrow> Inr v))"

definition has_manifests :: "json \<Rightarrow> bool" where
  "has_manifests v = (case v of JObj kvs \<Rightarrow> map_of kvs ''manifests'' \<noteq> None | _ \<Rightarrow> False)"

definition fetch_manifest :: "'s web \<Rightarrow> client \<Rightarrow> 's \<Rightarrow> 's \<times> client \<times> (image_error + image_manifest)" where
  "fetch_manifest W c s =
     (case fetch_json W (cl_base c @ ''/manifests/'' @ cl_reference c) c s of
        (s1, c1, Inl e) \<Rightarrow> (s1, c1, Inl e)
      | (s1, c1, Inr v) \<Rightarrow>
          if has_manifests v
          then (case pick_arm64 v of
                  Inl e \<Rightarrow> (s1, c1, Inl e)
                | Inr d \<Rightarrow>
                    (case fetch_json W (cl_base c1 @ ''/manifests/'' @ d) c1 s1 of
                       (s2, c2, Inl e) \<Rightarrow> (s2, c2, Inl e)
                     | (s2, c2, Inr v2) \<Rightarrow> (s2, c2, parse_manifest v2)))
          else (s1, c1, parse_manifest v))"

definition hex_of_digest :: "string \<Rightarrow> string" where
  "hex_of_digest digest = (case strip_prefix ''sha256:'' digest of None \<Rightarrow> digest | Some h \<Rightarrow> h)"

definition fetch_config ::
  "'s web \<Rightarrow> string \<Rightarrow> client \<Rightarrow> 's \<Rightarrow> 's \<times> client \<times> (image_error + image_config)" where
  "fetch_config W digest c s =
     (case client_text W (cl_base c @ ''/blobs/'' @ digest) ''application/octet-stream'' c s of
        (s1, c1, Inl e) \<Rightarrow> (s1, c1, Inl e)
      | (s1, c1, Inr body) \<Rightarrow>
          if web_sha W body \<noteq> hex_of_digest digest
          then (s1, c1, Inl (DigestError (hex_of_digest digest) (web_sha W body)))
          else (s1, c1, parse_config (web_json W body)))"


section \<open>Blobs\<close>

type_synonym files = "(string list \<times> bytes) list"

text \<open>A path below a directory with dots resolved; an absolute name replaces the directory.\<close>

fun resolve_dots :: "string list \<Rightarrow> string list \<Rightarrow> string list" where
  "resolve_dots cur [] = cur"
| "resolve_dots cur (c # cs) =
     (if c = [] \<or> c = ''.'' then resolve_dots cur cs
      else if c = ''..'' then resolve_dots (butlast cur) cs
      else resolve_dots (cur @ [c]) cs)"

definition join_path :: "string list \<Rightarrow> string \<Rightarrow> string list" where
  "join_path dir name =
     (let cs = split_at_char (CHR ''/'') name
      in resolve_dots (if name \<noteq> [] \<and> hd name = CHR ''/'' then [] else dir) cs)"

definition file_set :: "string list \<Rightarrow> bytes \<Rightarrow> files \<Rightarrow> files" where
  "file_set p bs fs = (p, bs) # filter (\<lambda>(q, x). q \<noteq> p) fs"

definition file_del :: "string list \<Rightarrow> files \<Rightarrow> files" where
  "file_del p fs = filter (\<lambda>(q, x). q \<noteq> p) fs"

definition fetch_blob ::
  "'s web \<Rightarrow> string \<Rightarrow> string list \<Rightarrow> client \<Rightarrow> 's \<Rightarrow> files \<Rightarrow> 's \<times> client \<times> files \<times> (image_error + string list)" where
  "fetch_blob W digest cache_dir c s fs =
     (let hex = hex_of_digest digest; path = join_path cache_dir hex
      in if map_of fs path \<noteq> None then (s, c, fs, Inr path)
         else
           (case client_get W (cl_base c @ ''/blobs/'' @ digest) ''application/octet-stream'' c s of
              (s1, c1, Inl e) \<Rightarrow> (s1, c1, fs, Inl e)
            | (s1, c1, Inr (body, torn)) \<Rightarrow>
                let tmp = join_path cache_dir (hex @ ''.partial'')
                in if length body > MAX_BLOB
                   then (s1, c1, file_del tmp fs, Inl (RegistryError (''blob '' @ hex @ '' exceeds 4294967296 bytes'')))
                   else if torn then (s1, c1, file_set tmp body fs, Inl ImageIo)
                   else if web_sha W body \<noteq> hex
                   then (s1, c1, file_del tmp fs, Inl (DigestError hex (web_sha W body)))
                   else (s1, c1, file_set path body (file_del tmp fs), Inr path)))"

fun fetch_layers ::
  "'s web \<Rightarrow> string list \<Rightarrow> string list \<Rightarrow> client \<Rightarrow> 's \<Rightarrow> files \<Rightarrow> 's \<times> client \<times> files \<times> (image_error + string list list)" where
  "fetch_layers W [] cache_dir c s fs = (s, c, fs, Inr [])"
| "fetch_layers W (d # ds) cache_dir c s fs =
     (case fetch_blob W d cache_dir c s fs of
        (s1, c1, fs1, Inl e) \<Rightarrow> (s1, c1, fs1, Inl e)
      | (s1, c1, fs1, Inr p) \<Rightarrow>
          (case fetch_layers W ds cache_dir c1 s1 fs1 of
             (s2, c2, fs2, Inl e) \<Rightarrow> (s2, c2, fs2, Inl e)
           | (s2, c2, fs2, Inr ps) \<Rightarrow> (s2, c2, fs2, Inr (p # ps))))"

end
