(* ===== verification/Images.thy ===== *)
theory Images
  imports Registry
begin

text \<open>
  Building a bootable image (\<^verbatim>\<open>amber-image/src/lib.rs\<close>): the cache of references and bases,
  the build from a registry and the build from a local archive.  The JSON codecs and the unpacking and
  packing of layers are parameters (unpacking itself is theory \<^verbatim>\<open>Flatten\<close>); a local archive
  is the list of its members.
\<close>

section \<open>The cache\<close>

record built =
  bt_base :: "string list"
  bt_config :: image_config

record 's image_env =
  ie_web :: "'s web"
  ie_refs_dec :: "bytes \<Rightarrow> (string \<times> string) list option"
  ie_refs_enc :: "(string \<times> string) list \<Rightarrow> bytes"
  ie_cfg_dec :: "bytes \<Rightarrow> image_config option"
  ie_cfg_enc :: "image_config \<Rightarrow> bytes"
  ie_pack :: "bytes list \<Rightarrow> image_error + bytes"

definition refs_path :: "string list \<Rightarrow> string list" where
  "refs_path cache_dir = cache_dir @ [''refs.json'']"

definition base_path :: "string list \<Rightarrow> string \<Rightarrow> string list" where
  "base_path bases i = join_path bases (i @ ''.sqfs'')"

definition config_path :: "string list \<Rightarrow> string \<Rightarrow> string list" where
  "config_path bases i = join_path bases (i @ ''.json'')"

definition load_built :: "'s image_env \<Rightarrow> string list \<Rightarrow> string \<Rightarrow> files \<Rightarrow> built option" where
  "load_built E bases i fs =
     (case (map_of fs (base_path bases i), map_of fs (config_path bases i)) of
        (Some sq, Some text) \<Rightarrow>
          map_option (\<lambda>c. \<lparr>bt_base = base_path bases i, bt_config = c\<rparr>) (ie_cfg_dec E text)
      | _ \<Rightarrow> None)"

definition read_refs :: "'s image_env \<Rightarrow> string list \<Rightarrow> files \<Rightarrow> (string \<times> string) list option" where
  "read_refs E refs fs = (case map_of fs refs of None \<Rightarrow> None | Some t \<Rightarrow> ie_refs_dec E t)"

definition ref_lookup :: "'s image_env \<Rightarrow> string list \<Rightarrow> string \<Rightarrow> files \<Rightarrow> string option" where
  "ref_lookup E refs reference fs =
     (case read_refs E refs fs of None \<Rightarrow> None | Some m \<Rightarrow> map_of m reference)"

definition ref_store :: "'s image_env \<Rightarrow> string list \<Rightarrow> string \<Rightarrow> string \<Rightarrow> files \<Rightarrow> files" where
  "ref_store E refs reference i fs =
     (let m = (case read_refs E refs fs of None \<Rightarrow> [] | Some m \<Rightarrow> m)
      in file_set refs (ie_refs_enc E ((reference, i) # filter (\<lambda>(k, v). k \<noteq> reference) m)) fs)"


section \<open>Building\<close>

definition layer_contents :: "files \<Rightarrow> string list list \<Rightarrow> bytes list" where
  "layer_contents fs ps = List.map_filter (map_of fs) ps"

definition finish_build ::
  "'s image_env \<Rightarrow> string list \<Rightarrow> string \<Rightarrow> image_config \<Rightarrow> bytes list \<Rightarrow> files \<Rightarrow> files \<times> (image_error + built)" where
  "finish_build E bases i config layers fs =
     (case ie_pack E layers of
        Inl e \<Rightarrow> (fs, Inl e)
      | Inr sq \<Rightarrow>
          (file_set (config_path bases i) (ie_cfg_enc E config) (file_set (base_path bases i) sq fs),
           Inr \<lparr>bt_base = base_path bases i, bt_config = config\<rparr>))"

definition build_remote ::
  "'s image_env \<Rightarrow> string \<Rightarrow> string list \<Rightarrow> image_ref \<Rightarrow> 's \<Rightarrow> files \<Rightarrow> 's \<times> files \<times> (image_error + built)" where
  "build_remote E reference cache_dir parsed s fs =
     (case fetch_manifest (ie_web E) (client_new parsed) s of
        (s1, c1, Inl e) \<Rightarrow> (s1, fs, Inl e)
      | (s1, c1, Inr m) \<Rightarrow>
          let i = hex_of_digest (im_config m); bases = cache_dir @ [''bases''];
              fs1 = ref_store E (refs_path cache_dir) reference i fs
          in case load_built E bases i fs1 of
               Some b \<Rightarrow> (s1, fs1, Inr b)
             | None \<Rightarrow>
                 (case fetch_config (ie_web E) (im_config m) c1 s1 of
                    (s2, c2, Inl e) \<Rightarrow> (s2, fs1, Inl e)
                  | (s2, c2, Inr config) \<Rightarrow>
                      (case fetch_layers (ie_web E) (im_layers m) (cache_dir @ [''blobs'']) c2 s2 fs1 of
                         (s3, c3, fs2, Inl e) \<Rightarrow> (s3, fs2, Inl e)
                       | (s3, c3, fs2, Inr ps) \<Rightarrow>
                           (case finish_build E bases i config (layer_contents fs2 ps) fs2 of
                              (fs3, r) \<Rightarrow> (s3, fs3, r)))))"

text \<open>The members of a local archive: the manifest is the first with its name, and blobs are copied to
  the cache by the last part of theirs, which must name a file.\<close>

definition parse_save_manifest :: "json option \<Rightarrow> image_error + (string \<times> string list)" where
  "parse_save_manifest v =
     (case v of
        None \<Rightarrow> Inl JsonError
      | Some (JArr (m # ms)) \<Rightarrow>
          (case as_str (jget m ''Config'') of
             None \<Rightarrow> Inl (RegistryError ''manifest.json: no Config'')
           | Some config \<Rightarrow>
               if str_list (jget m ''Layers'') = [] then Inl (RegistryError ''manifest.json: no Layers'')
               else Inr (config, str_list (jget m ''Layers'')))
      | Some _ \<Rightarrow> Inl (RegistryError ''empty manifest.json''))"

definition read_save_manifest :: "'s web \<Rightarrow> (string \<times> bytes) list \<Rightarrow> image_error + (string \<times> string list)" where
  "read_save_manifest W tar =
     (case map_of tar ''manifest.json'' of
        None \<Rightarrow> Inl (RegistryError ''no manifest.json in image tar'')
      | Some body \<Rightarrow> parse_save_manifest (web_json W body))"

definition base_name :: "string \<Rightarrow> string" where
  "base_name m = (case rsplit_once (CHR ''/'') m of None \<Rightarrow> m | Some (d, n) \<Rightarrow> n)"

fun extract_members ::
  "(string \<times> bytes) list \<Rightarrow> string list \<Rightarrow> string list \<Rightarrow> files \<Rightarrow> files \<times> (image_error + (string \<times> string list) list)" where
  "extract_members [] want dest fs = (fs, Inr [])"
| "extract_members ((member, body) # ms) want dest fs =
     (if member \<in> set want
      then let path = join_path dest (base_name member)
           in if base_name member \<in> {[], ''.'', ''..''} then (fs, Inl ImageIo)
              else (case extract_members ms want dest (file_set path body fs) of
                      (fs', Inl e) \<Rightarrow> (fs', Inl e)
                    | (fs', Inr out) \<Rightarrow> (fs', Inr (if member \<in> fst ` set out then out else (member, path) # out)))
      else extract_members ms want dest fs)"

definition build_local ::
  "'s image_env \<Rightarrow> string \<Rightarrow> (string \<times> bytes) list \<Rightarrow> string list \<Rightarrow> files \<Rightarrow> files \<times> (image_error + built)" where
  "build_local E tar_path tar cache_dir fs =
     (case read_save_manifest (ie_web E) tar of
        Inl e \<Rightarrow> (fs, Inl e)
      | Inr (config_member, layer_members) \<Rightarrow>
          let i = base_name config_member; bases = cache_dir @ [''bases'']; refs = refs_path cache_dir
          in case load_built E bases i fs of
               Some b \<Rightarrow> (ref_store E refs tar_path i fs, Inr b)
             | None \<Rightarrow>
                 (case extract_members tar (config_member # layer_members) (cache_dir @ [''blobs'']) fs of
                    (fs1, Inl e) \<Rightarrow> (fs1, Inl e)
                  | (fs1, Inr out) \<Rightarrow>
                      (case map_of out config_member of
                         None \<Rightarrow> (fs1, Inl (RegistryError (''image tar missing blob '' @ config_member)))
                       | Some cp \<Rightarrow>
                           (case parse_config (case map_of fs1 cp of None \<Rightarrow> None | Some b \<Rightarrow> web_json (ie_web E) b) of
                              Inl e \<Rightarrow> (fs1, Inl e)
                            | Inr config \<Rightarrow>
                                (case find (\<lambda>m. m \<notin> fst ` set out) layer_members of
                                   Some m \<Rightarrow> (fs1, Inl (RegistryError (''image tar missing blob '' @ m)))
                                 | None \<Rightarrow>
                                     (case finish_build E bases i config
                                             (layer_contents fs1 (List.map_filter (map_of out) layer_members)) fs1 of
                                        (fs2, Inl e) \<Rightarrow> (fs2, Inl e)
                                      | (fs2, Inr b) \<Rightarrow> (ref_store E refs tar_path i fs2, Inr b)))))))"

text \<open>A build; \<open>tars\<close> gives the archives among the host's files.\<close>

definition build_image ::
  "'s image_env \<Rightarrow> (string \<Rightarrow> (string \<times> bytes) list option) \<Rightarrow> string \<Rightarrow> string list \<Rightarrow> bool \<Rightarrow> 's \<Rightarrow> files \<Rightarrow>
     's \<times> files \<times> (image_error + built)" where
  "build_image E tars reference cache_dir refresh s fs =
     (case tars reference of
        Some tar \<Rightarrow> (case build_local E reference tar cache_dir fs of (fs', r) \<Rightarrow> (s, fs', r))
      | None \<Rightarrow>
          (case parse_ref reference of
             Inl e \<Rightarrow> (s, fs, Inl e)
           | Inr parsed \<Rightarrow>
               (case (if refresh then None
                      else case ref_lookup E (refs_path cache_dir) reference fs of
                             None \<Rightarrow> None
                           | Some i \<Rightarrow> load_built E (cache_dir @ [''bases'']) i fs) of
                  Some b \<Rightarrow> (s, fs, Inr b)
                | None \<Rightarrow> build_remote E reference cache_dir parsed s fs)))"

end
