(* ===== verification/Blob_Race.thy ===== *)
theory Blob_Race
  imports Registry
begin

text \<open>
  Downloads of one blob by several processes at once: \<open>fetch_blob\<close> of
  \<^verbatim>\<open>amber-image/src/registry.rs\<close> as the steps between which another process can run.  Names
  refer to files by number, so a process keeps writing to the file it opened when its name has been
  moved.
\<close>

record disk =
  dk_names :: "(string \<times> nat) list"
  dk_data :: "nat \<Rightarrow> bytes"
  dk_fresh :: nat

definition content :: "disk \<Rightarrow> string \<Rightarrow> bytes option" where
  "content D n = map_option (dk_data D) (map_of (dk_names D) n)"

text \<open>\<open>File::create\<close> empties a file that is there and makes one otherwise; \<open>rename\<close> replaces the target.\<close>

definition disk_create :: "string \<Rightarrow> disk \<Rightarrow> disk \<times> nat" where
  "disk_create n D =
     (case map_of (dk_names D) n of
        Some i \<Rightarrow> (D\<lparr>dk_data := (dk_data D)(i := [])\<rparr>, i)
      | None \<Rightarrow>
          (D\<lparr>dk_names := (n, dk_fresh D) # dk_names D, dk_data := (dk_data D)(dk_fresh D := []),
             dk_fresh := Suc (dk_fresh D)\<rparr>, dk_fresh D))"

definition disk_write :: "nat \<Rightarrow> nat \<Rightarrow> bytes \<Rightarrow> disk \<Rightarrow> disk" where
  "disk_write i off bs D =
     (let old = dk_data D i; padded = old @ replicate (off - length old) 0
      in D\<lparr>dk_data := (dk_data D)(i := take off padded @ bs @ drop (off + length bs) padded)\<rparr>)"

definition disk_remove :: "string \<Rightarrow> disk \<Rightarrow> disk" where
  "disk_remove n D = D\<lparr>dk_names := filter (\<lambda>(m, i). m \<noteq> n) (dk_names D)\<rparr>"

definition disk_rename :: "string \<Rightarrow> string \<Rightarrow> disk \<Rightarrow> disk option" where
  "disk_rename a b D =
     (case map_of (dk_names D) a of
        None \<Rightarrow> None
      | Some i \<Rightarrow> Some (D\<lparr>dk_names := (b, i) # filter (\<lambda>(m, j). m \<noteq> a \<and> m \<noteq> b) (dk_names D)\<rparr>))"

text \<open>A process is about to look, is copying (the file, what was hashed, what is still to come), is about
  to rename, or is done, with or without the blob.\<close>

datatype loader = Looking | Copying nat bytes bytes | Verified | Have | Lost

definition loader_step :: "(bytes \<Rightarrow> string) \<Rightarrow> string \<Rightarrow> bytes \<Rightarrow> loader \<times> disk \<Rightarrow> loader \<times> disk" where
  "loader_step sha hex body st =
     (case st of (l, D) \<Rightarrow>
        (case l of
           Looking \<Rightarrow>
             if map_of (dk_names D) hex \<noteq> None then (Have, D)
             else (case disk_create (hex @ ''.partial'') D of (D', i) \<Rightarrow> (Copying i [] body, D'))
         | Copying i seen todo \<Rightarrow>
             if todo \<noteq> []
             then let chunk = take (64 * 1024) todo
                  in if length seen + length chunk > MAX_BLOB then (Lost, disk_remove (hex @ ''.partial'') D)
                     else (Copying i (seen @ chunk) (drop (64 * 1024) todo), disk_write i (length seen) chunk D)
             else if sha seen = hex then (Verified, D)
             else (Lost, disk_remove (hex @ ''.partial'') D)
         | Verified \<Rightarrow>
             (case disk_rename (hex @ ''.partial'') hex D of None \<Rightarrow> (Lost, D) | Some D' \<Rightarrow> (Have, D'))
         | Have \<Rightarrow> (Have, D)
         | Lost \<Rightarrow> (Lost, D)))"

text \<open>Processes taking turns: a schedule names the one that runs next.\<close>

fun run_loaders :: "(bytes \<Rightarrow> string) \<Rightarrow> string \<Rightarrow> bytes \<Rightarrow> nat list \<Rightarrow> loader list \<times> disk \<Rightarrow> loader list \<times> disk" where
  "run_loaders sha hex body [] st = st"
| "run_loaders sha hex body (p # ps) (ls, D) =
     (if p < length ls
      then case loader_step sha hex body (ls ! p, D) of (l, D') \<Rightarrow> run_loaders sha hex body ps (ls[p := l], D')
      else run_loaders sha hex body ps (ls, D))"

end
