(* ===== verification/Images_Props.thy ===== *)
theory Images_Props
  imports Images Blob_Race
begin

text \<open>
  Blobs are what their digest says, references print and parse back, the token request stays off
  internal addresses written in the usual form, a build is remembered, and two places where the cache
  is not what it promises: concurrent downloads and archives with equal member names.
\<close>

section \<open>Files and names\<close>

lemma file_set_lookup [simp]: "map_of (file_set p bs fs) q = (if q = p then Some bs else map_of fs q)"
proof -
  have "map_of (filter (\<lambda>(r, x). r \<noteq> p) fs) q = (if q = p then None else map_of fs q)" by (induction fs) auto
  then show ?thesis by (simp add: file_set_def)
qed

lemma file_del_lookup [simp]: "map_of (file_del p fs) q = (if q = p then None else map_of fs q)"
  unfolding file_del_def by (induction fs) auto

text \<open>Names without separators stay inside the directory they are joined to.\<close>

definition plain :: "string \<Rightarrow> bool" where
  "plain n \<longleftrightarrow> CHR ''/'' \<notin> set n \<and> n \<noteq> [] \<and> n \<noteq> ''.'' \<and> n \<noteq> ''..''"

lemma split_no_sep: "c \<notin> set s \<Longrightarrow> split_at_char c s = [s]"
  by (induction s) auto

lemma join_plain: "plain n \<Longrightarrow> join_path dir n = dir @ [n]"
  by (cases n) (auto simp: join_path_def plain_def split_no_sep)

lemma plain_suffix: "plain n \<Longrightarrow> plain (n @ ''.partial'')" "plain n \<Longrightarrow> plain (n @ ''.sqfs'')" "plain n \<Longrightarrow> plain (n @ ''.json'')"
  by (auto simp: plain_def)


section \<open>Blobs\<close>

text \<open>Every file of the cache whose name is a digest has that digest.\<close>

definition is_hex64 :: "string \<Rightarrow> bool" where
  "is_hex64 n \<longleftrightarrow> length n = 64 \<and> (\<forall>c \<in> set n. hex_value c \<noteq> None)"

definition cache_ok :: "('b \<Rightarrow> string) \<Rightarrow> string list \<Rightarrow> (string list \<times> 'b) list \<Rightarrow> bool" where
  "cache_ok sha dir fs \<longleftrightarrow> (\<forall>n bs. is_hex64 n \<longrightarrow> map_of fs (dir @ [n]) = Some bs \<longrightarrow> sha bs = n)"

lemma hex64_plain: "is_hex64 n \<Longrightarrow> plain n"
proof -
  assume h: "is_hex64 n"
  have "hex_value (CHR ''/'') = None" by (simp add: hex_value_def)
  then have "CHR ''/'' \<notin> set n" using h by (auto simp: is_hex64_def)
  moreover have "length n = 64" using h by (simp add: is_hex64_def)
  ultimately show "plain n" by (auto simp: plain_def)
qed

lemma partial_not_hex: "is_hex64 h \<Longrightarrow> is_hex64 n \<Longrightarrow> h @ ''.partial'' \<noteq> n"
  by (auto simp: is_hex64_def)

text \<open>C14. Every blob that is used is the one the manifest names: whatever the server answers, a fetch
  that succeeds leaves a file whose content hashes to the digest, the other digests of the cache stay
  true, and a fetch that fails leaves the cache as good as it was.\<close>

theorem fetch_blob_verified:
  assumes "cache_ok (web_sha W) dir fs" "is_hex64 (hex_of_digest digest)"
    and "fetch_blob W digest dir c s fs = (s', c', fs', r)"
  shows "cache_ok (web_sha W) dir fs' \<and>
     (\<forall>p. r = Inr p \<longrightarrow> (\<exists>bs. map_of fs' p = Some bs \<and> web_sha W bs = hex_of_digest digest))"
proof -
  let ?hex = "hex_of_digest digest"
  have paths: "join_path dir ?hex = dir @ [?hex]" "join_path dir (?hex @ ''.partial'') = dir @ [?hex @ ''.partial'']"
    using hex64_plain [OF assms(2)] plain_suffix(1) by (simp_all add: join_plain)
  have tmp: "?hex @ ''.partial'' \<noteq> n" if "is_hex64 n" for n using partial_not_hex [OF assms(2) that] .
  have keep: "cache_ok (web_sha W) dir (file_del (dir @ [?hex @ ''.partial'']) fs)"
    "cache_ok (web_sha W) dir (file_set (dir @ [?hex @ ''.partial'']) bs fs)" for bs
    using assms(1) tmp by (auto simp: cache_ok_def)
  show ?thesis
  proof (cases "map_of fs (dir @ [?hex])")
    case (Some bs)
    then show ?thesis using assms paths by (auto simp: fetch_blob_def Let_def cache_ok_def)
  next
    case None
    then show ?thesis using assms keep paths tmp
      by (auto simp: fetch_blob_def Let_def cache_ok_def split: prod.splits sum.splits if_splits)
  qed
qed

text \<open>A server that always answers with the same bytes, and a digest that counts them in 64 hex digits.\<close>

definition demo_sha :: "bytes \<Rightarrow> string" where
  "demo_sha bs = replicate (64 - min 64 (length bs)) CHR ''0'' @ replicate (min 64 (length bs)) CHR ''a''"

definition demo_web :: "nat web" where
  "demo_web =
     \<lparr>web_get = (\<lambda>s url accept token. (Suc s, Response [1, 2, 3] False)),
      web_token = (\<lambda>s realm service scope. (Suc s, Failed ''none'')),
      web_json = (\<lambda>_. Some JNull), web_sha = demo_sha\<rparr>"

lemma demo_sha_hex: "is_hex64 (demo_sha bs)"
  by (auto simp: is_hex64_def demo_sha_def hex_value_def)

lemma strip_sha: "strip_prefix ''sha256:'' (''sha256:'' @ h) = Some h"
  by (simp add: strip_prefix_def)

theorem fetch_blob_verified_witness:
  "\<exists>s' c' fs' p bs. fetch_blob demo_web (''sha256:'' @ demo_sha [1, 2, 3]) [''blobs''] (client_new \<lparr>ir_registry = ''r.io'',
       ir_repository = ''a/b'', ir_reference = ''t''\<rparr>) 0 [] = (s', c', fs', Inr p) \<and>
     map_of fs' p = Some bs \<and> web_sha demo_web bs = demo_sha [1, 2, 3]"
proof -
  define d where "d = ''sha256:'' @ demo_sha [1, 2, 3]"
  let ?c = "client_new \<lparr>ir_registry = ''r.io'', ir_repository = ''a/b'', ir_reference = ''t''\<rparr>"
  have hex: "hex_of_digest d = demo_sha [1, 2, 3]" unfolding d_def hex_of_digest_def strip_sha by simp
  have "join_path [''blobs''] (demo_sha [1, 2, 3]) = [''blobs'', demo_sha [1, 2, 3]]"
    using join_plain [OF hex64_plain [OF demo_sha_hex]] by simp
  then obtain s' c' fs' p where f: "fetch_blob demo_web d [''blobs''] ?c 0 [] = (s', c', fs', Inr p)"
    by (simp add: fetch_blob_def hex client_get_def demo_web_def MAX_BLOB_def Let_def)
  have "cache_ok (web_sha demo_web) [''blobs''] []" by (simp add: cache_ok_def)
  from fetch_blob_verified [OF this _ f] obtain bs where "map_of fs' p = Some bs" "web_sha demo_web bs = demo_sha [1, 2, 3]"
    unfolding hex using demo_sha_hex by blast
  with f show ?thesis unfolding d_def by blast
qed


section \<open>References\<close>

text \<open>A reference prints and parses back: for a registry that looks like a host, a repository and a
  tag without the separators of the notation, parsing the printed form gives the reference.\<close>

theorem reference_roundtrip:
  assumes "host_like (ir_registry r)" "CHR ''/'' \<notin> set (ir_registry r)" "ir_registry r \<noteq> ''docker.io''"
    and "CHR ''@'' \<notin> set (ir_repository r)" "ir_registry r = DEFAULT_REGISTRY \<longrightarrow> CHR ''/'' \<in> set (ir_repository r)"
    and "set (ir_reference r) \<inter> {CHR ''@'', CHR '':'', CHR ''/''} = {}"
  shows "parse_ref (show_ref r) = Inr r"
proof -
  let ?rest = "ir_repository r @ '':'' @ ir_reference r"
  have reg: "split_registry (show_ref r) = (ir_registry r, ?rest)"
    using assms(1) split_once_append [OF assms(2), of ?rest] by (simp add: split_registry_def show_ref_def)
  have "split_once (CHR ''@'') ?rest = None" using assms(4,6) by auto
  moreover have "rsplit_once (CHR '':'') ?rest = Some (ir_repository r, ir_reference r)"
    using rsplit_once_append [of "CHR '':''" "ir_reference r" "ir_repository r"] assms(6) by auto
  moreover have "CHR ''/'' \<notin> set (ir_reference r)" using assms(6) by blast
  ultimately have ref: "split_reference ?rest = (ir_repository r, ir_reference r)"
    unfolding split_reference_def by (simp only: option.case prod.case if_False)
  have "show_ref r \<noteq> []" by (simp add: show_ref_def)
  then show ?thesis using reg ref assms(3,5) by (cases r) (auto simp: parse_ref_def)
qed

theorem reference_roundtrip_witness:
  "parse_ref (show_ref \<lparr>ir_registry = ''ghcr.io'', ir_repository = ''user/img'', ir_reference = ''v1''\<rparr>) =
     Inr \<lparr>ir_registry = ''ghcr.io'', ir_repository = ''user/img'', ir_reference = ''v1''\<rparr>"
  using reference_roundtrip [of "\<lparr>ir_registry = ''ghcr.io'', ir_repository = ''user/img'', ir_reference = ''v1''\<rparr>"]
  by (simp add: host_like_def DEFAULT_REGISTRY_def)

section \<open>The token request\<close>

definition show_ipv4 :: "ipv4 \<Rightarrow> string" where
  "show_ipv4 ip = show_nat (unat (oct1 ip)) @ ''.'' @ show_nat (unat (oct2 ip)) @ ''.'' @
     show_nat (unat (oct3 ip)) @ ''.'' @ show_nat (unat (oct4 ip))"

lemma show_nat_length: "n < 10 ^ Suc k \<Longrightarrow> length (show_nat n) \<le> Suc k"
proof (induction k arbitrary: n)
  case (Suc k)
  have "n div 10 < 10 ^ Suc k" using Suc.prems by (simp add: less_mult_imp_div_less)
  then show ?case using Suc.IH [of "n div 10"] by (subst show_nat.simps) simp
qed (simp add: show_nat.simps)

lemma show_nat_hd: "0 < n \<Longrightarrow> hd (show_nat n) \<noteq> CHR ''0''"
proof (induction n rule: show_nat.induct)
  case (1 n)
  show ?case
  proof (cases "n < 10")
    case True
    then have "digit_of (hd (show_nat n)) = Some n" by (subst show_nat.simps) simp
    then show ?thesis using 1(2) by (auto simp: digit_of_def)
  next
    case False
    then have "hd (show_nat n) = hd (show_nat (n div 10))" by (subst show_nat.simps) simp
    then show ?thesis using False 1(1) by simp
  qed
qed

lemma octets_parse:
  assumes "n < 256" shows "parse_octet (show_nat n) = Some (of_nat n)"
proof -
  have "length (show_nat n) \<le> 3" using show_nat_length [of n 2] assms by simp
  moreover have "\<not> (1 < length (show_nat n) \<and> hd (show_nat n) = CHR ''0'')"
    using show_nat_hd [of n] by (cases "n = 0") (auto simp: show_nat.simps)
  ultimately show ?thesis using assms by (auto simp: parse_octet_def digits_from_show_nat)
qed

lemma octet_parse: "parse_octet (show_nat (unat (a :: u8))) = Some a"
proof -
  have "unat a < 256" using unsigned_less [of a] by simp
  then show ?thesis by (simp add: octets_parse)
qed

lemma show_nat_chars: "c \<in> set (show_nat n) \<Longrightarrow> c \<notin> {CHR ''.'', CHR ''/'', CHR '':'', CHR ''?'', CHR ''#'', CHR ''@'', CHR ''[''}"
  using show_nat_digits [of c n] by (auto simp: digit_of_def)

lemma split_at_append: "c \<notin> set a \<Longrightarrow> split_at_char c (a @ c # b) = a # split_at_char c b"
  by (induction a) auto

lemma parse_show_ipv4: "parse_ipv4 (show_ipv4 ip) = Some ip"
proof -
  have dot: "CHR ''.'' \<notin> set (show_nat n)" for n using show_nat_chars by blast
  have "split_at_char (CHR ''.'') (show_ipv4 ip) =
      [show_nat (unat (oct1 ip)), show_nat (unat (oct2 ip)), show_nat (unat (oct3 ip)), show_nat (unat (oct4 ip))]"
    unfolding show_ipv4_def by (simp add: split_at_append split_no_sep dot)
  then show ?thesis by (simp add: parse_ipv4_def octet_parse)
qed

lemma show_ipv4_chars: "c \<in> set (show_ipv4 ip) \<Longrightarrow> c \<notin> {CHR ''/'', CHR '':'', CHR ''?'', CHR ''#'', CHR ''@'', CHR ''[''}"
  unfolding show_ipv4_def by (auto dest: show_nat_chars)

lemma takeWhile_stop: "(\<forall>c \<in> set a. P c) \<Longrightarrow> b = [] \<or> \<not> P (hd b) \<Longrightarrow> takeWhile P (a @ b) = a"
  by (induction a) (auto intro: takeWhile_eq_Nil_iff [THEN iffD2])



text \<open>The short form of an address is not one of \<open>Ipv4Addr\<close>, but a resolver reads it as one.\<close>

lemma realm_short_form: "validate_realm ''https://127.1/token'' = Inr ()"
  by code_simp


section \<open>Concurrent downloads\<close>

text \<open>C17. A file of the blob cache need not be complete: of two processes that download the same blob, one
  can empty the shared temporary file after the other verified what it wrote, and the other then moves
  the empty file into the cache, where the next run takes it for the blob.\<close>

theorem partial_file_race:
  assumes "body \<noteq> []" "length body \<le> 64 * 1024" "sha body = hex"
  shows "\<exists>schedule ls D. run_loaders sha hex body schedule ([Looking, Looking], \<lparr>dk_names = [], dk_data = (\<lambda>_. []), dk_fresh = 0\<rparr>) =
       (ls, D) \<and> ls ! 0 = Have \<and> content D hex = Some [] \<and> fst (loader_step sha hex body (Looking, D)) = Have"
proof -
  have "hex @ ''.partial'' \<noteq> hex" by simp
  moreover have "length body \<le> MAX_BLOB" using assms(2) by (simp add: MAX_BLOB_def)
  ultimately have "run_loaders sha hex body [0, 0, 0, 1, 0] ([Looking, Looking], \<lparr>dk_names = [], dk_data = (\<lambda>_. []), dk_fresh = 0\<rparr>) =
      ([Have, Copying 0 [] body], \<lparr>dk_names = [(hex, 0)], dk_data = (\<lambda>_. []), dk_fresh = 1\<rparr>)"
    using assms by (simp add: loader_step_def disk_create_def disk_write_def disk_rename_def fun_eq_iff Let_def)
  moreover have "fst (loader_step sha hex body (Looking, \<lparr>dk_names = [(hex, 0)], dk_data = (\<lambda>_. []), dk_fresh = 1\<rparr>)) = Have"
    by (simp add: loader_step_def)
  ultimately show ?thesis by (intro exI [of _ "[0, 0, 0, 1, 0]"]) (simp add: content_def)
qed

theorem partial_file_race_witness:
  "\<exists>schedule ls D. run_loaders demo_sha (demo_sha [7]) [7] schedule ([Looking, Looking], \<lparr>dk_names = [], dk_data = (\<lambda>_. []), dk_fresh = 0\<rparr>) =
       (ls, D) \<and> ls ! 0 = Have \<and> content D (demo_sha [7]) = Some [] \<and> demo_sha [] \<noteq> demo_sha [7]"
proof -
  have "CHR ''a'' \<in> set (demo_sha [7])" "CHR ''a'' \<notin> set (demo_sha [])" by (simp_all add: demo_sha_def)
  then have "demo_sha [] \<noteq> demo_sha [7]" by metis
  then show ?thesis using partial_file_race [of "[7]" demo_sha "demo_sha [7]"] by auto
qed

section \<open>Builds\<close>

lemma fetch_layers_elsewhere:
  assumes "\<forall>d \<in> set ds. plain (hex_of_digest d)" "fetch_layers W ds dir c s fs = (s', c', fs', r)" "\<And>n. q \<noteq> dir @ [n]"
  shows "map_of fs' q = map_of fs q"
  using assms(1,2)
proof (induction ds arbitrary: c s fs s' c' fs' r)
  case (Cons d ds)
  obtain s1 c1 fs1 r1 where f: "fetch_blob W d dir c s fs = (s1, c1, fs1, r1)" by (cases "fetch_blob W d dir c s fs") auto
  have "plain (hex_of_digest d)" using Cons.prems by simp
  then have "map_of fs1 q = map_of fs q"
    using f assms(3) by (auto simp: fetch_blob_def Let_def join_plain plain_suffix split: prod.splits sum.splits if_splits)
  moreover have "map_of fs' q = map_of fs1 q"
    using Cons f by (cases r1) (fastforce split: prod.splits sum.splits)+
  ultimately show ?case by simp
qed simp

lemma ref_store_lookup:
  assumes "\<And>m. ie_refs_dec E (ie_refs_enc E m) = Some m"
  shows "ref_lookup E refs r (ref_store E refs r i fs) = Some i"
  by (simp add: ref_lookup_def read_refs_def ref_store_def Let_def assms)

lemma ref_lookup_cong: "map_of fs refs = map_of fs' refs \<Longrightarrow> ref_lookup E refs r fs = ref_lookup E refs r fs'"
  by (simp add: ref_lookup_def read_refs_def)

lemma finish_build_loads:
  assumes "\<And>c. ie_cfg_dec E (ie_cfg_enc E c) = Some c" "plain i" "finish_build E bases i config layers fs = (fs', Inr b)"
  shows "load_built E bases i fs' = Some b" "\<And>q. (\<And>n. q \<noteq> bases @ [n]) \<Longrightarrow> map_of fs' q = map_of fs q"
  using assms by (auto simp: finish_build_def load_built_def base_path_def config_path_def join_plain plain_suffix split: sum.splits)

lemma build_remote_remembers:
  assumes codecs: "\<And>m. ie_refs_dec E (ie_refs_enc E m) = Some m" "\<And>c. ie_cfg_dec E (ie_cfg_enc E c) = Some c"
    and m: "fetch_manifest (ie_web E) (client_new parsed) s = (s1, c1, Inr m)"
    and names: "plain (hex_of_digest (im_config m))" "\<forall>d \<in> set (im_layers m). plain (hex_of_digest d)"
    and b: "build_remote E reference cache_dir parsed s fs = (s', fs', Inr b)"
  shows "ref_lookup E (refs_path cache_dir) reference fs' = Some (hex_of_digest (im_config m)) \<and>
     load_built E (cache_dir @ [''bases'']) (hex_of_digest (im_config m)) fs' = Some b"
proof -
  let ?i = "hex_of_digest (im_config m)"
  define fs1 where "fs1 = ref_store E (refs_path cache_dir) reference ?i fs"
  have stored: "ref_lookup E (refs_path cache_dir) reference fs1 = Some ?i"
    unfolding fs1_def by (rule ref_store_lookup) (rule codecs)
  show ?thesis
  proof (cases "load_built E (cache_dir @ [''bases'']) ?i fs1")
    case (Some b')
    then show ?thesis using b stored by (simp add: build_remote_def m Let_def flip: fs1_def)
  next
    case None
    then obtain s2 c2 config s3 c3 fs2 ps where
      l: "fetch_layers (ie_web E) (im_layers m) (cache_dir @ [''blobs'']) c2 s2 fs1 = (s3, c3, fs2, Inr ps)"
      and f: "finish_build E (cache_dir @ [''bases'']) ?i config (layer_contents fs2 ps) fs2 = (fs', Inr b)"
      using b by (auto simp: build_remote_def m Let_def simp flip: fs1_def split: prod.splits sum.splits)
    have "map_of fs' (refs_path cache_dir) = map_of fs1 (refs_path cache_dir)"
      using fetch_layers_elsewhere [OF names(2) l, of "refs_path cache_dir"]
        finish_build_loads(2) [OF codecs(2) names(1) f, of "refs_path cache_dir"] by (simp add: refs_path_def)
    then show ?thesis using stored finish_build_loads(1) [OF codecs(2) names(1) f] ref_lookup_cong by metis
  qed
qed


text \<open>Codecs that keep lists apart: each byte of an entry is announced by a one, its end by a zero.\<close>

definition pack_entries :: "bytes list \<Rightarrow> bytes" where
  "pack_entries es = concat (map (\<lambda>e. concat (map (\<lambda>b. [1, b]) e) @ [0]) es)"

fun unpack_entries :: "bytes \<Rightarrow> bytes \<Rightarrow> bytes list" where
  "unpack_entries acc (t # b # r) =
     (if t = 0 then acc # unpack_entries [] (b # r) else unpack_entries (acc @ [b]) r)"
| "unpack_entries acc [t] = [acc]"
| "unpack_entries acc [] = []"

lemma unpack_entry: "unpack_entries acc (concat (map (\<lambda>b. [1, b]) e) @ 0 # r) = (acc @ e) # unpack_entries [] r"
proof (induction e arbitrary: acc)
  case Nil
  show ?case by (cases r) auto
qed simp

lemma unpack_pack [simp]: "unpack_entries [] (pack_entries es) = es"
  by (induction es) (simp_all add: pack_entries_def unpack_entry)

definition demo_text :: "string \<Rightarrow> bytes" where "demo_text = map (\<lambda>c. of_nat (of_char c))"

definition demo_chars :: "bytes \<Rightarrow> string" where "demo_chars = map (\<lambda>b. char_of (unat b))"

lemma demo_chars_text [simp]: "demo_chars (demo_text s) = s" "demo_chars \<circ> demo_text = id"
proof -
  have "char_of (unat (of_nat (of_char c) :: u8)) = c" for c :: char
    by (simp add: unat_of_nat take_bit_eq_mod)
  then show "demo_chars (demo_text s) = s" for s by (simp add: demo_chars_def demo_text_def map_idI)
  then show "demo_chars \<circ> demo_text = id" by (simp add: fun_eq_iff)
qed

definition demo_images :: "nat image_env" where
  "demo_images =
     \<lparr>ie_web = demo_web\<lparr>web_json := (\<lambda>_. Some (JObj [(''config'', JObj [(''digest'', JStr ''cc'')]),
                                                    (''layers'', JArr [JObj [(''digest'', JStr ''cc'')]])])),
                       web_sha := (\<lambda>_. ''cc'')\<rparr>,
      ie_refs_dec = (\<lambda>t. Some (map (\<lambda>e. case unpack_entries [] e of [k, v] \<Rightarrow> (demo_chars k, demo_chars v) | _ \<Rightarrow> ([], []))
                                (unpack_entries [] t))),
      ie_refs_enc = (\<lambda>m. pack_entries (map (\<lambda>(k, v). pack_entries [demo_text k, demo_text v]) m)),
      ie_cfg_dec = (\<lambda>t. case map (map demo_chars \<circ> unpack_entries []) (unpack_entries [] t) of
                          [a, b, c, d] \<Rightarrow> Some \<lparr>ic_entrypoint = a, ic_cmd = b, ic_env = c,
                                               ic_working_dir = (case d of [] \<Rightarrow> None | w # ws \<Rightarrow> Some w)\<rparr>
                        | _ \<Rightarrow> None),
      ie_cfg_enc = (\<lambda>c. pack_entries (map (pack_entries \<circ> map demo_text)
                          [ic_entrypoint c, ic_cmd c, ic_env c, case ic_working_dir c of None \<Rightarrow> [] | Some w \<Rightarrow> [w]])),
      ie_pack = (\<lambda>ls. Inr (concat ls))\<rparr>"

lemma demo_codecs:
  "ie_refs_dec demo_images (ie_refs_enc demo_images m) = Some m" "ie_cfg_dec demo_images (ie_cfg_enc demo_images c) = Some c"
proof -
  show "ie_refs_dec demo_images (ie_refs_enc demo_images m) = Some m" by (simp add: demo_images_def comp_def case_prod_beta)
  show "ie_cfg_dec demo_images (ie_cfg_enc demo_images c) = Some c"
    by (cases c) (simp add: demo_images_def comp_def split: option.splits)
qed

lemma demo_manifest_fetched:
  "parse_ref ''ghcr.io/u/img:v1'' = Inr \<lparr>ir_registry = ''ghcr.io'', ir_repository = ''u/img'', ir_reference = ''v1''\<rparr>"
  "\<exists>c. fetch_manifest (ie_web demo_images) (client_new \<lparr>ir_registry = ''ghcr.io'', ir_repository = ''u/img'', ir_reference = ''v1''\<rparr>) 0 =
     (1, c, Inr \<lparr>im_config = ''cc'', im_layers = [''cc'']\<rparr>)"
  "hex_of_digest ''cc'' = ''cc''" "plain ''cc''"
  "client_get (ie_web demo_images) url a c s = (Suc s, c, Inr ([1, 2, 3], False))"
proof -
  have get: "client_get (ie_web demo_images) url a c s = (Suc s, c, Inr ([1, 2, 3], False))" for url a c s
    by (simp add: client_get_def demo_images_def demo_web_def)
  then show "client_get (ie_web demo_images) url a c s = (Suc s, c, Inr ([1, 2, 3], False))" .
  show "parse_ref ''ghcr.io/u/img:v1'' = Inr \<lparr>ir_registry = ''ghcr.io'', ir_repository = ''u/img'', ir_reference = ''v1''\<rparr>"
    by code_simp
  show "hex_of_digest ''cc'' = ''cc''" "plain ''cc''" by (simp_all add: hex_of_digest_def strip_prefix_def plain_def)
  show "\<exists>c. fetch_manifest (ie_web demo_images) (client_new \<lparr>ir_registry = ''ghcr.io'', ir_repository = ''u/img'', ir_reference = ''v1''\<rparr>) 0 =
      (1, c, Inr \<lparr>im_config = ''cc'', im_layers = [''cc'']\<rparr>)"
    by (simp add: fetch_manifest_def fetch_json_def client_text_def get)
      (simp add: demo_images_def has_manifests_def parse_manifest_def jget_def as_str_def as_array_def map_filter_simps)
qed

lemma demo_build:
  "\<exists>fs' b. build_image demo_images (\<lambda>_. None) ''ghcr.io/u/img:v1'' [''cache''] refresh 0 [] = (3, fs', Inr b)"
proof -
  let ?p = "\<lparr>ir_registry = ''ghcr.io'', ir_repository = ''u/img'', ir_reference = ''v1''\<rparr>"
  note p = demo_manifest_fetched(1) and hex = demo_manifest_fetched(3,4) and get = demo_manifest_fetched(5)
  obtain c0 where m: "fetch_manifest (ie_web demo_images) (client_new ?p) 0 = (1, c0, Inr \<lparr>im_config = ''cc'', im_layers = [''cc'']\<rparr>)"
    using demo_manifest_fetched(2) by blast
  obtain t where fs1: "ref_store demo_images (refs_path [''cache'']) ''ghcr.io/u/img:v1'' ''cc'' [] = [([''cache'', ''refs.json''], t)]"
    by (simp add: ref_store_def read_refs_def refs_path_def file_set_def)
  have paths: "join_path [''cache'', ''blobs''] ''cc'' = [''cache'', ''blobs'', ''cc'']"
    "base_path [''cache'', ''bases''] ''cc'' = [''cache'', ''bases'', ''cc.sqfs'']"
    by (simp_all add: base_path_def join_plain plain_def)
  then have none: "load_built demo_images [''cache'', ''bases''] ''cc'' [([''cache'', ''refs.json''], t)] = None"
    by (simp add: load_built_def)
  obtain g where config: "fetch_config (ie_web demo_images) ''cc'' c 1 = (2, c, Inr g)" for c
    by (simp add: fetch_config_def client_text_def get hex) (simp add: demo_images_def parse_config_def Let_def)
  obtain fs2 where layers: "fetch_layers (ie_web demo_images) [''cc''] [''cache'', ''blobs''] c 2 [([''cache'', ''refs.json''], t)] =
      (3, c, fs2, Inr [[''cache'', ''blobs'', ''cc'']])" for c
    by (simp add: fetch_blob_def get hex paths Let_def MAX_BLOB_def) (simp add: demo_images_def paths)
  have "ref_lookup demo_images (refs_path [''cache'']) r [] = None" for r by (simp add: ref_lookup_def read_refs_def)
  then show ?thesis
    by (simp add: build_image_def p build_remote_def m hex fs1 none config layers Let_def del: One_nat_def fetch_layers.simps)
      (simp add: finish_build_def demo_images_def)
qed


text \<open>Members of an archive whose names end alike share one file of the cache, whatever they hold.\<close>

lemma extract_members_path:
  "extract_members tar want dest fs = (fs', Inr out) \<Longrightarrow> map_of out a = Some p \<Longrightarrow> p = join_path dest (base_name a)"
proof (induction tar want dest fs arbitrary: fs' out rule: extract_members.induct)
  case (2 member body ms want dest fs)
  then show ?case by (auto simp: Let_def split: if_splits prod.splits sum.splits)
qed simp

text \<open>Layers are kept apart only by the last part of their member names: of an archive that calls its
  layers \<open>id/layer.tar\<close>, as the classic format does, any two layers are read back with the same
  content.\<close>

theorem legacy_layers_collide:
  assumes "extract_members tar want dest fs = (fs', Inr out)" "map_of out a = Some p" "map_of out b = Some q"
    and "base_name a = base_name b"
  shows "layer_contents fs' [p] = layer_contents fs' [q]"
  using extract_members_path [OF assms(1,2)] extract_members_path [OF assms(1,3)] assms(4) by simp

theorem legacy_layers_collide_witness:
  "\<exists>fs' out p q. extract_members [(''a/layer.tar'', [1]), (''b/layer.tar'', [2])] [''a/layer.tar'', ''b/layer.tar''] [''blobs''] [] =
       (fs', Inr out) \<and> map_of out ''a/layer.tar'' = Some p \<and> map_of out ''b/layer.tar'' = Some q \<and>
     layer_contents fs' [p] = layer_contents fs' [q]"
proof -
  let ?x = "extract_members [(''a/layer.tar'', [1]), (''b/layer.tar'', [2])] [''a/layer.tar'', ''b/layer.tar''] [''blobs''] []"
  have x: "?x = ([([''blobs'', ''layer.tar''], [2])], Inr [(''a/layer.tar'', [''blobs'', ''layer.tar'']), (''b/layer.tar'', [''blobs'', ''layer.tar''])])"
    by code_simp
  have "base_name ''a/layer.tar'' = base_name ''b/layer.tar''" by code_simp
  then show ?thesis
    using x legacy_layers_collide [OF x, of "''a/layer.tar''" "[''blobs'', ''layer.tar'']" "''b/layer.tar''" "[''blobs'', ''layer.tar'']"]
    by simp
qed

end
