(* ===== verification/Kvm.thy ===== *)
theory Kvm
  imports Vm
begin

text \<open>
  The Linux backend, \<^verbatim>\<open>amber-kvm/src/backend.rs\<close> and \<^verbatim>\<open>gic.rs\<close>: creation of the machine
  with its in-kernel interrupt controller, the translation of exits, registers, capture and restore of
  vcpus and controller, and the operations the machine calls (\<open>kvm_ops\<close>).  The host kernel is the record
  \<open>kvm\<close>, an argument, and so are the numbers of its interface (\<open>kvm_abi\<close>); a call that fails returns
  \<open>None\<close>.
\<close>

section \<open>The kernel\<close>

record kvm_abi =
  ab_arm64 :: u64
  ab_size_u64 :: u64
  ab_arm_core :: u64
  ab_sysreg :: u64
  ab_dist :: u32
  ab_redist :: u32
  ab_cpu_sysregs :: u32
  ab_nr_irqs :: u32
  ab_addr :: u32
  ab_ctrl :: u32
  ab_addr_dist :: u64
  ab_addr_redist :: u64
  ab_ctrl_init :: u64
  ab_psci :: nat
  ab_power_off :: nat
  ab_list_max :: nat

text \<open>How \<open>KVM_RUN\<close> ends.  An access carries its address, length, direction and the data buffer; the
  kernel's lengths are at most eight.\<close>

datatype kvm_exit =
    RunInterrupted
  | RunFailed
  | ExitMmio u64 u32 bool bytes
  | ExitSystemEvent
  | ExitIntr
  | ExitFailEntry
  | ExitInternalError
  | ExitOther

record 's kvm =
  kv_abi :: kvm_abi
  kv_create_vm :: "'s option"
  kv_set_memory :: "'s \<Rightarrow> guest_ram \<Rightarrow> 's option"
  kv_create_vgic :: "'s \<Rightarrow> 's option"
  kv_set_attr :: "'s \<Rightarrow> u32 \<Rightarrow> u64 \<Rightarrow> u64 \<Rightarrow> 's option"
  kv_get_attr :: "'s \<Rightarrow> u32 \<Rightarrow> u64 \<Rightarrow> u64 option"
  kv_mmap_size :: "'s \<Rightarrow> nat option"
  kv_create_vcpu :: "'s \<Rightarrow> nat \<Rightarrow> 's option"
  kv_preferred :: "'s \<Rightarrow> u32 option"
  kv_vcpu_init :: "'s \<Rightarrow> nat \<Rightarrow> u32 \<Rightarrow> 's option"
  kv_mmap_run :: "'s \<Rightarrow> nat \<Rightarrow> nat \<Rightarrow> 's option"
  kv_irq_line :: "'s \<Rightarrow> u32 \<Rightarrow> bool \<Rightarrow> 's option"
  kv_get_one :: "'s \<Rightarrow> nat \<Rightarrow> u64 \<Rightarrow> nat \<Rightarrow> bytes option"
  kv_set_one :: "'s \<Rightarrow> nat \<Rightarrow> u64 \<Rightarrow> bytes \<Rightarrow> 's option"
  kv_reg_list :: "'s \<Rightarrow> nat \<Rightarrow> nat \<Rightarrow> nat + u64 list"
  kv_run :: "'s \<Rightarrow> nat \<Rightarrow> guest_ram \<Rightarrow> 's \<times> guest_ram \<times> kvm_exit"
  kv_data :: "'s \<Rightarrow> nat \<Rightarrow> bytes"
  kv_set_data :: "'s \<Rightarrow> nat \<Rightarrow> bytes \<Rightarrow> 's"
  kv_tid :: "nat \<Rightarrow> nat"
  kv_signal :: "'s \<Rightarrow> nat \<Rightarrow> 's"

text \<open>\<open>map_err(kvm_err(..))?\<close>, and the same with a snapshot error.\<close>

definition need :: "'a option \<Rightarrow> error + 'a" where
  "need r = (case r of None \<Rightarrow> Inl Backend | Some x \<Rightarrow> Inr x)"

definition need_snap :: "'a option \<Rightarrow> error + 'a" where
  "need_snap r = (case r of None \<Rightarrow> Inl Snapshot | Some x \<Rightarrow> Inr x)"

lemma need_simps [simp]: "need None = Inl Backend" "need (Some x) = Inr x"
  "need_snap None = Inl Snapshot" "need_snap (Some x) = Inr x"
  by (simp_all add: need_def need_snap_def)

lemma need_Inr: "need r = Inr x \<longleftrightarrow> r = Some x" "need_snap r = Inr x \<longleftrightarrow> r = Some x"
  by (cases r; simp)+


section \<open>Saving the interrupt controller\<close>

definition icc :: "u64 \<Rightarrow> u64 \<Rightarrow> u64 \<Rightarrow> u64 \<Rightarrow> u64 \<Rightarrow> u64" where
  "icc op0 op1 crn crm op2 = push_bit 14 op0 OR push_bit 11 op1 OR push_bit 7 crn OR push_bit 3 crm OR op2"

definition ICC_REGS :: "u64 list" where
  "ICC_REGS = [icc 3 0 4 6 0, icc 3 0 12 8 3, icc 3 0 12 8 4, icc 3 0 12 9 0, icc 3 0 12 12 3,
               icc 3 0 12 12 4, icc 3 0 12 12 5, icc 3 0 12 12 6, icc 3 0 12 12 7]"

definition dist_addrs :: "kvm_abi \<Rightarrow> nat \<Rightarrow> (u32 \<times> u64) list" where
  "dist_addrs A nr =
     map (Pair (ab_dist A))
       ([0] @ concat (map (\<lambda>b. map (\<lambda>w. b + 4 * of_nat w) [1..<nr div 32]) [0x80, 0x100, 0x200, 0x300]) @
        map (\<lambda>w. 0x400 + 4 * of_nat w) [8..<nr div 4] @ map (\<lambda>w. 0xC00 + 4 * of_nat w) [2..<nr div 16] @
        map (\<lambda>i. 0x6000 + 8 * of_nat i) [32..<nr])"

definition cpu_addrs :: "kvm_abi \<Rightarrow> nat \<Rightarrow> (u32 \<times> u64) list" where
  "cpu_addrs A cpu =
     (let v = push_bit 32 (of_nat cpu) :: u64
      in map (\<lambda>off. (ab_redist A, v OR off))
           ([0x0, 0x10, 0x14] @ [0x10080, 0x10100, 0x10200, 0x10300] @ map (\<lambda>w. 0x10400 + 4 * of_nat w) [0..<8] @
            [0x10C00, 0x10C04]) @
         map (\<lambda>reg. (ab_cpu_sysregs A, v OR reg)) ICC_REGS)"

definition addr_list :: "kvm_abi \<Rightarrow> u32 \<Rightarrow> nat \<Rightarrow> (u32 \<times> u64) list" where
  "addr_list A nr_irqs vcpus = dist_addrs A (unat nr_irqs) @ concat (map (cpu_addrs A) [0..<vcpus])"

definition KGIC_MAGIC :: bytes where
  "KGIC_MAGIC = [0x41, 0x47, 0x49, 0x43]"

definition vgic_capture :: "'s kvm \<Rightarrow> u32 \<Rightarrow> nat \<Rightarrow> 's \<Rightarrow> error + bytes" where
  "vgic_capture K nr_irqs vcpus s =
     (let addrs = addr_list (kv_abi K) nr_irqs vcpus
      in try_bind (collect_all (\<lambda>(g, a). need_snap (kv_get_attr K s g a)) addrs) (\<lambda>vals.
           Inr (KGIC_MAGIC @ to_le 4 (1 :: u32) @ to_le 4 nr_irqs @ to_le 4 (of_nat vcpus :: u32) @
                to_le 4 (of_nat (length addrs) :: u32) @ concat (map (to_le 8) vals))))"

text \<open>Registers that refuse are skipped.\<close>

fun restore_attrs :: "'s kvm \<Rightarrow> (u32 \<times> u64) list \<Rightarrow> bytes \<Rightarrow> 's \<Rightarrow> 's" where
  "restore_attrs K [] bs s = s"
| "restore_attrs K ((g, a) # addrs) bs s =
     restore_attrs K addrs (drop 8 bs)
       (case kv_set_attr K s g a (from_le (take 8 bs)) of None \<Rightarrow> s | Some s' \<Rightarrow> s')"

definition vgic_restore :: "'s kvm \<Rightarrow> u32 \<Rightarrow> nat \<Rightarrow> bytes \<Rightarrow> 's \<Rightarrow> error + 's" where
  "vgic_restore K nr_irqs vcpus blob s =
     (if length blob < 20 \<or> take 4 blob \<noteq> KGIC_MAGIC then Inl Snapshot
      else
        let rd = (\<lambda>k. from_le (take 4 (drop k blob)) :: u32);
            count = unat (rd 16); addrs = addr_list (kv_abi K) nr_irqs vcpus
        in if rd 8 \<noteq> nr_irqs \<or> unat (rd 12) \<noteq> vcpus then Inl Snapshot
           else if count \<noteq> length addrs \<or> length blob < 20 + count * 8 then Inl Snapshot
           else Inr (restore_attrs K addrs (drop 20 blob) s))"


section \<open>The machine\<close>

definition KVM_GICD_BASE :: u64 where "KVM_GICD_BASE = 0x08000000"
definition KVM_GICD_SIZE :: u64 where "KVM_GICD_SIZE = 0x00010000"
definition KVM_GICR_BASE :: u64 where "KVM_GICR_BASE = 0x080A0000"
definition KVM_GICR_PER_CPU :: u64 where "KVM_GICR_PER_CPU = 0x00020000"
definition NR_IRQS :: u32 where "NR_IRQS = 256"

definition core_reg :: "kvm_abi \<Rightarrow> nat \<Rightarrow> u64" where
  "core_reg A byte_off = ab_arm64 A OR ab_size_u64 A OR ab_arm_core A OR (of_nat byte_off div 4)"

definition x_reg :: "kvm_abi \<Rightarrow> u8 \<Rightarrow> u64" where
  "x_reg A i = core_reg A (unat i * 8)"

definition PC_REG :: "kvm_abi \<Rightarrow> u64" where
  "PC_REG A = core_reg A (32 * 8)"

definition PSTATE_REG :: "kvm_abi \<Rightarrow> u64" where
  "PSTATE_REG A = core_reg A (33 * 8)"

definition kvm_sysreg_id :: "kvm_abi \<Rightarrow> u32 \<Rightarrow> u64" where
  "kvm_sysreg_id A reg = ab_arm64 A OR ab_size_u64 A OR ab_sysreg A OR ucast reg"

record kvm_vcpu =
  run_size :: nat
  mmio_len :: nat
  tid_registered :: bool

record 's kvm_vm =
  kv :: 's
  kvm_gic :: gic_info
  kvm_vcpus :: nat
  kick_tids :: "nat list"
  kvm_pending :: "kvm_vcpu option list"
  kvm_live :: "nat \<Rightarrow> kvm_vcpu"

definition init_vcpu :: "'s kvm \<Rightarrow> u8 \<Rightarrow> nat \<Rightarrow> 's \<Rightarrow> error + kvm_vcpu \<times> 's" where
  "init_vcpu K i sz s =
     (let A = kv_abi K; c = unat i in
      try_bind (need (kv_create_vcpu K s c)) (\<lambda>s1.
      try_bind (need (kv_preferred K s1)) (\<lambda>f.
      let f1 = f OR push_bit (ab_psci A) 1;
          f2 = (if i \<noteq> 0 then f1 OR push_bit (ab_power_off A) 1 else f1)
      in
      try_bind (need (kv_vcpu_init K s1 c f2)) (\<lambda>s2.
      try_bind (need (kv_mmap_run K s2 c sz)) (\<lambda>s3.
        Inr (\<lparr>run_size = sz, mmio_len = 0, tid_registered = False\<rparr>, s3))))))"

fun init_vcpus :: "'s kvm \<Rightarrow> nat list \<Rightarrow> nat \<Rightarrow> 's \<Rightarrow> error + kvm_vcpu option list \<times> 's" where
  "init_vcpus K [] sz s = Inr ([], s)"
| "init_vcpus K (i # is) sz s =
     try_bind (init_vcpu K (of_nat i) sz s) (\<lambda>(c, s1).
     try_bind (init_vcpus K is sz s1) (\<lambda>(cs, s2). Inr (Some c # cs, s2)))"

definition kvm_create :: "'s kvm \<Rightarrow> guest_ram \<Rightarrow> nat \<Rightarrow> error + 's kvm_vm" where
  "kvm_create K ram vcpus =
     (let A = kv_abi K; n = max vcpus 1 in
      try_bind (need (kv_create_vm K)) (\<lambda>s0.
      try_bind (need (kv_set_memory K s0 ram)) (\<lambda>s1.
      try_bind (need (kv_create_vgic K s1)) (\<lambda>s2.
      try_bind (need (kv_set_attr K s2 (ab_nr_irqs A) 0 (ucast NR_IRQS))) (\<lambda>s3.
      try_bind (need (kv_set_attr K s3 (ab_addr A) (ab_addr_dist A) KVM_GICD_BASE)) (\<lambda>s4.
      try_bind (need (kv_set_attr K s4 (ab_addr A) (ab_addr_redist A) KVM_GICR_BASE)) (\<lambda>s5.
      try_bind (need (kv_mmap_size K s5)) (\<lambda>sz.
      try_bind (init_vcpus K [0..<n] sz s5) (\<lambda>(pending, s6).
      try_bind (need (kv_set_attr K s6 (ab_ctrl A) (ab_ctrl_init A) 0)) (\<lambda>s7.
        Inr \<lparr>kv = s7,
             kvm_gic = \<lparr>dist_base = KVM_GICD_BASE, dist_size = KVM_GICD_SIZE, redist_base = KVM_GICR_BASE,
                        redist_size = KVM_GICR_PER_CPU * of_nat n, kind = V3\<rparr>,
             kvm_vcpus = n, kick_tids = [], kvm_pending = pending,
             kvm_live = (\<lambda>_. \<lparr>run_size = 0, mmio_len = 0, tid_registered = False\<rparr>)\<rparr>))))))))))"

definition kvm_create_vcpu :: "'s kvm_vm \<Rightarrow> u8 \<Rightarrow> error + 's kvm_vm" where
  "kvm_create_vcpu v i =
     (if unat i < length (kvm_pending v)
      then case kvm_pending v ! unat i of
             None \<Rightarrow> Inl Backend
           | Some c \<Rightarrow> Inr (v\<lparr>kvm_pending := (kvm_pending v)[unat i := None], kvm_live := (kvm_live v)(unat i := c)\<rparr>)
      else Inl Backend)"

definition kvm_set_irq :: "'s kvm \<Rightarrow> 's kvm_vm \<Rightarrow> u32 \<Rightarrow> bool \<Rightarrow> error + 's kvm_vm" where
  "kvm_set_irq K v intid level =
     try_bind (need (kv_irq_line K (kv v) (push_bit 24 1 OR intid) level)) (\<lambda>s. Inr (v\<lparr>kv := s\<rparr>))"

definition signal_vcpus :: "'s kvm \<Rightarrow> 's kvm_vm \<Rightarrow> 's kvm_vm" where
  "signal_vcpus K v = v\<lparr>kv := foldl (kv_signal K) (kv v) (kick_tids v)\<rparr>"

definition kvm_capture_gic :: "'s kvm \<Rightarrow> 's kvm_vm \<Rightarrow> error + bytes" where
  "kvm_capture_gic K v = vgic_capture K NR_IRQS (kvm_vcpus v) (kv v)"

definition kvm_restore_gic :: "'s kvm \<Rightarrow> 's kvm_vm \<Rightarrow> bytes \<Rightarrow> error + 's kvm_vm" where
  "kvm_restore_gic K v blob =
     try_bind (vgic_restore K NR_IRQS (kvm_vcpus v) blob (kv v)) (\<lambda>s. Inr (v\<lparr>kv := s\<rparr>))"


section \<open>A vcpu\<close>

definition kvm_set_reg :: "'s kvm \<Rightarrow> 's kvm_vm \<Rightarrow> nat \<Rightarrow> u64 \<Rightarrow> u64 \<Rightarrow> error + 's kvm_vm" where
  "kvm_set_reg K v c i x = try_bind (need (kv_set_one K (kv v) c i (to_le 8 x))) (\<lambda>s. Inr (v\<lparr>kv := s\<rparr>))"

definition kvm_get_reg :: "'s kvm \<Rightarrow> 's kvm_vm \<Rightarrow> nat \<Rightarrow> u64 \<Rightarrow> error + u64" where
  "kvm_get_reg K v c i = try_bind (need (kv_get_one K (kv v) c i 8)) (\<lambda>b. Inr (from_le b))"

definition kvm_apply_template :: "'s kvm \<Rightarrow> 's kvm_vm \<Rightarrow> nat \<Rightarrow> cpu_template \<Rightarrow> error + 's kvm_vm" where
  "kvm_apply_template K v c t =
     foldl (\<lambda>r ov. try_bind r (\<lambda>v.
              let i = kvm_sysreg_id (kv_abi K) (ov_reg ov) in
              try_bind (kvm_get_reg K v c i) (\<lambda>cur.
                kvm_set_reg K v c i ((cur AND and_mask ov) OR or_value ov))))
       (Inr v) (overrides t)"

definition kvm_set_boot :: "'s kvm \<Rightarrow> 's kvm_vm \<Rightarrow> nat \<Rightarrow> u64 \<Rightarrow> u64 \<Rightarrow> error + 's kvm_vm" where
  "kvm_set_boot K v c entry dtb =
     try_bind (kvm_set_reg K v c (PSTATE_REG (kv_abi K)) 0x3c5) (\<lambda>v.
     try_bind (kvm_set_reg K v c (PC_REG (kv_abi K)) entry) (\<lambda>v.
       kvm_set_reg K v c (x_reg (kv_abi K) 0) dtb))"

definition upd_vcpu :: "nat \<Rightarrow> (kvm_vcpu \<Rightarrow> kvm_vcpu) \<Rightarrow> 's kvm_vm \<Rightarrow> 's kvm_vm" where
  "upd_vcpu c f v = v\<lparr>kvm_live := (kvm_live v)(c := f (kvm_live v c))\<rparr>"

definition register_tid :: "'s kvm \<Rightarrow> nat \<Rightarrow> 's kvm_vm \<Rightarrow> 's kvm_vm" where
  "register_tid K c v =
     (if tid_registered (kvm_live v c) then v
      else upd_vcpu c (\<lambda>u. u\<lparr>tid_registered := True\<rparr>) (v\<lparr>kick_tids := kick_tids v @ [kv_tid K c]\<rparr>))"

definition kvm_run :: "'s kvm \<Rightarrow> 's kvm_vm \<Rightarrow> nat \<Rightarrow> guest_ram \<Rightarrow> 's kvm_vm \<times> guest_ram \<times> (error + vm_exit)" where
  "kvm_run K v c ram =
     (let v1 = register_tid K c v in
      case kv_run K (kv v1) c ram of (s, ram', ex) \<Rightarrow>
        let v2 = v1\<lparr>kv := s\<rparr> in
        (case ex of
           RunInterrupted \<Rightarrow> (v2, ram', Inr Idle)
         | RunFailed \<Rightarrow> (v2, ram', Inl Backend)
         | ExitMmio ipa n is_write data \<Rightarrow>
             if is_write
             then (v2, ram', Inr (Mmio \<lparr>ma_ipa = ipa, ma_size = ucast n, ma_write = Some (from_le (take (unat n) data))\<rparr>))
             else (upd_vcpu c (\<lambda>u. u\<lparr>mmio_len := unat n\<rparr>) v2, ram',
                   Inr (Mmio \<lparr>ma_ipa = ipa, ma_size = ucast n, ma_write = None\<rparr>))
         | ExitSystemEvent \<Rightarrow> (v2, ram', Inr Shutdown)
         | ExitIntr \<Rightarrow> (v2, ram', Inr Idle)
         | ExitFailEntry \<Rightarrow>
             (v2, ram', Inr (Fault (case kvm_get_reg K v2 c (PC_REG (kv_abi K)) of Inl e \<Rightarrow> 0 | Inr pc \<Rightarrow> pc) 0 0))
         | ExitInternalError \<Rightarrow>
             (v2, ram', Inr (Fault (case kvm_get_reg K v2 c (PC_REG (kv_abi K)) of Inl e \<Rightarrow> 0 | Inr pc \<Rightarrow> pc) 0 0))
         | ExitOther \<Rightarrow> (v2, ram', Inl Backend)))"

definition kvm_complete_read :: "'s kvm \<Rightarrow> 's kvm_vm \<Rightarrow> nat \<Rightarrow> u64 \<Rightarrow> error + 's kvm_vm" where
  "kvm_complete_read K v c x =
     (let n = min (mmio_len (kvm_live v c)) 8
      in Inr (v\<lparr>kv := kv_set_data K (kv v) c (take n (to_le 8 x) @ drop n (kv_data K (kv v) c))\<rparr>))"

definition reg_size :: "u64 \<Rightarrow> nat" where
  "reg_size i = 2 ^ unat (drop_bit 52 i AND 0xf)"

definition reg_ids :: "'s kvm \<Rightarrow> 's \<Rightarrow> nat \<Rightarrow> error + u64 list" where
  "reg_ids K s c =
     (case kv_reg_list K s c 1 of
        Inr ids \<Rightarrow> Inr ids
      | Inl n \<Rightarrow>
          if ab_list_max (kv_abi K) < n then Inl Snapshot
          else (case kv_reg_list K s c n of Inl m \<Rightarrow> Inl Backend | Inr ids \<Rightarrow> Inr ids))"

definition kvm_capture :: "'s kvm \<Rightarrow> 's kvm_vm \<Rightarrow> nat \<Rightarrow> error + cpu_snapshot" where
  "kvm_capture K v c =
     try_bind (reg_ids K (kv v) c) (\<lambda>ids.
     try_bind (collect_all (\<lambda>i. try_bind (need (kv_get_one K (kv v) c i (reg_size i))) (\<lambda>b. Inr (i, b))) ids) (\<lambda>regs.
       Inr \<lparr>cs_x = [], cs_pc = 0, cs_cpsr = 0, cs_fpcr = 0, cs_fpsr = 0, vtimer_offset = 0, mono = 0,
            sysregs = [], cs_fp = [], kvm_regs = regs\<rparr>))"

definition kvm_restore :: "'s kvm \<Rightarrow> 's kvm_vm \<Rightarrow> nat \<Rightarrow> cpu_snapshot \<Rightarrow> error + 's kvm_vm" where
  "kvm_restore K v c cs =
     (if kvm_regs cs = [] then Inl Snapshot
      else Inr (v\<lparr>kv := foldl (\<lambda>s (i, b). case kv_set_one K s c i b of None \<Rightarrow> s | Some s' \<Rightarrow> s') (kv v) (kvm_regs cs)\<rparr>))"


section \<open>The operations of the machine\<close>

definition kvm_ops :: "'s kvm \<Rightarrow> 's kvm_vm hv_ops" where
  "kvm_ops K =
     \<lparr>hv_create = kvm_create K, hv_create_vcpu = (\<lambda>v i. kvm_create_vcpu v (of_nat i)), hv_gic = (\<lambda>v. Some (kvm_gic v)),
      hv_set_irq = kvm_set_irq K, hv_capture_gic = kvm_capture_gic K, hv_restore_gic = kvm_restore_gic K,
      hv_set_yield = (\<lambda>v on. v), hv_kick = signal_vcpus K, hv_request_stop = signal_vcpus K,
      vc_apply_template = kvm_apply_template K, vc_set_boot = kvm_set_boot K, vc_run = kvm_run K,
      vc_complete_read = kvm_complete_read K, vc_advance = (\<lambda>v c. Inr v), vc_timer_ns = (\<lambda>v c. Inr None),
      vc_capture = kvm_capture K, vc_restore = kvm_restore K\<rparr>"

end
