(* ===== verification/Kvm_Props.thy ===== *)
theory Kvm_Props
  imports Kvm Machine_Laws
begin

text \<open>
  The Linux backend: what a snapshot carries over to another machine, what it leaves behind, and that
  the backend gives the machine the contract its invariants rest on.
\<close>

section \<open>Registers of the kernel\<close>

text \<open>A file of registers, of which those in \<open>D\<close> hold what is written to them (where \<open>over\<close> allows the
  write to replace the old value), are touched by no other write, and are constant if they refuse
  writes.\<close>

definition keeps ::
  "'a set \<Rightarrow> ('s \<Rightarrow> 'a \<Rightarrow> 'v option) \<Rightarrow> ('s \<Rightarrow> 'a \<Rightarrow> 'v \<Rightarrow> 's option) \<Rightarrow> ('a \<Rightarrow> 'v option \<Rightarrow> 'v \<Rightarrow> bool) \<Rightarrow> bool" where
  "keeps D get put over \<longleftrightarrow>
     (\<forall>s a v s'. a \<in> D \<longrightarrow> put s a v = Some s' \<longrightarrow> over a (get s a) v \<longrightarrow> get s' a = Some v) \<and>
     (\<forall>s a v s' b. b \<in> D \<longrightarrow> b \<noteq> a \<longrightarrow> put s a v = Some s' \<longrightarrow> get s' b = get s b) \<and>
     (\<forall>s a v s2. a \<in> D \<longrightarrow> put s a v = None \<longrightarrow> get s2 a = get s a)"

definition put_or_skip :: "('s \<Rightarrow> 'a \<Rightarrow> 'v \<Rightarrow> 's option) \<Rightarrow> 's \<Rightarrow> 'a \<times> 'v \<Rightarrow> 's" where
  "put_or_skip put s av = (case put s (fst av) (snd av) of None \<Rightarrow> s | Some s' \<Rightarrow> s')"

lemma put_or_skip_other: "keeps D get put over \<Longrightarrow> b \<in> D \<Longrightarrow> b \<noteq> fst av \<Longrightarrow> get (put_or_skip put s av) b = get s b"
  unfolding keeps_def put_or_skip_def by (cases "put s (fst av) (snd av)") auto

lemma put_or_skip_same:
  assumes "keeps D get put over" "a \<in> D" "over a (get s a) v" "get s0 a = Some v"
  shows "get (put_or_skip put s (a, v)) a = Some v"
  using assms unfolding keeps_def put_or_skip_def by (cases "put s a v") (simp_all, metis)

lemma keeps_restore:
  assumes k: "keeps D get put over" and refl: "\<And>a v. over a (Some v) v"
    and "\<forall>(a, v) \<in> set avs. a \<in> D \<longrightarrow> get s0 a = Some v \<and> over a (get s a) v" "b \<in> D"
  shows "get (foldl (put_or_skip put) s avs) b = (if b \<in> fst ` set avs then get s0 b else get s b)"
  using assms(3)
proof (induction avs arbitrary: s)
  case (Cons av avs)
  obtain a v where av: "av = (a, v)" by (cases av)
  let ?s = "put_or_skip put s av"
  have same: "get ?s a = Some v" if "a \<in> D" using put_or_skip_same [OF k that, of s v s0] Cons.prems that av by simp
  have other: "get ?s c = get s c" if "c \<in> D" "c \<noteq> a" for c using put_or_skip_other [OF k that(1)] that av by simp
  have "\<forall>(c, w) \<in> set avs. c \<in> D \<longrightarrow> get s0 c = Some w \<and> over c (get ?s c) w"
  proof clarify
    fix c w assume c: "(c, w) \<in> set avs" "c \<in> D"
    then have cw: "get s0 c = Some w" "over c (get s c) w" using Cons.prems by auto
    show "get s0 c = Some w \<and> over c (get ?s c) w"
    proof (cases "c = a")
      case True
      then have "v = w" using Cons.prems c cw av by auto
      then show ?thesis using True same c(2) cw(1) refl by simp
    qed (use other c cw in simp)
  qed
  then have "get (foldl (put_or_skip put) ?s avs) b = (if b \<in> fst ` set avs then get s0 b else get ?s b)" by (rule Cons.IH)
  moreover have "get ?s b = (if b = a then get s0 b else get s b)"
    using same other assms(4) Cons.prems av by auto
  ultimately show ?case using av by auto
qed simp


section \<open>Saving and restoring\<close>

text \<open>What is relied on of the kernel.  Controller registers in \<open>sticky\<close> only gain bits when written, so
  they take a value over zero or over itself; the two register files are separate.\<close>

abbreviation attr_get :: "'s kvm \<Rightarrow> 's \<Rightarrow> u32 \<times> u64 \<Rightarrow> u64 option" where
  "attr_get K s ga \<equiv> kv_get_attr K s (fst ga) (snd ga)"

abbreviation attr_put :: "'s kvm \<Rightarrow> 's \<Rightarrow> u32 \<times> u64 \<Rightarrow> u64 \<Rightarrow> 's option" where
  "attr_put K s ga \<equiv> kv_set_attr K s (fst ga) (snd ga)"

abbreviation one_get :: "'s kvm \<Rightarrow> 's \<Rightarrow> nat \<times> u64 \<Rightarrow> bytes option" where
  "one_get K s ci \<equiv> kv_get_one K s (fst ci) (snd ci) (reg_size (snd ci))"

abbreviation one_put :: "'s kvm \<Rightarrow> 's \<Rightarrow> nat \<times> u64 \<Rightarrow> bytes \<Rightarrow> 's option" where
  "one_put K s ci \<equiv> kv_set_one K s (fst ci) (snd ci)"

definition kernel_ok :: "'s kvm \<Rightarrow> (u32 \<times> u64) set \<Rightarrow> (u32 \<times> u64) set \<Rightarrow> (nat \<times> u64) set \<Rightarrow> bool" where
  "kernel_ok K sticky Dg Dr \<longleftrightarrow>
     keeps Dg (attr_get K) (attr_put K) (\<lambda>a old v. a \<in> sticky \<longrightarrow> old = Some 0 \<or> old = Some v) \<and>
     keeps Dr (one_get K) (one_put K) (\<lambda>a old v. True) \<and>
     (\<forall>s a v s'. attr_put K s a v = Some s' \<longrightarrow> one_get K s' = one_get K s) \<and>
     (\<forall>s a v s'. one_put K s a v = Some s' \<longrightarrow> attr_get K s' = attr_get K s)"

lemma restore_attrs_zip:
  "length vals = length addrs \<Longrightarrow>
     restore_attrs K addrs (concat (map (to_le 8) vals)) s = foldl (put_or_skip (attr_put K)) s (zip addrs vals)"
proof (induction addrs vals arbitrary: s rule: list_induct2')
  case (4 ga addrs v vals)
  then show ?case by (cases ga) (simp add: put_or_skip_def from_le_to_le)
qed simp_all

lemma length_addr_list: "length (addr_list A NR_IRQS n) = 323 + 26 * n"
  by (induction n) (simp_all add: addr_list_def dist_addrs_def cpu_addrs_def ICC_REGS_def NR_IRQS_def Let_def)

lemma unat_small: "k < 2 ^ 32 \<Longrightarrow> unat (of_nat k :: u32) = k"
  by (simp add: unat_of_nat take_bit_eq_mod)

lemma vgic_restore_captured:
  assumes "vgic_capture K NR_IRQS n s0 = Inr blob" "n \<le> 8"
  shows "\<exists>vals. list_all2 (\<lambda>a v. attr_get K s0 a = Some v) (addr_list (kv_abi K) NR_IRQS n) vals \<and>
     vgic_restore K NR_IRQS n blob s = Inr (foldl (put_or_skip (attr_put K)) s (zip (addr_list (kv_abi K) NR_IRQS n) vals))"
proof -
  let ?addrs = "addr_list (kv_abi K) NR_IRQS n"
  obtain vals where vals: "list_all2 (\<lambda>a v. attr_get K s0 a = Some v) ?addrs vals"
    and blob: "blob = KGIC_MAGIC @ to_le 4 (1 :: u32) @ to_le 4 NR_IRQS @ to_le 4 (of_nat n :: u32) @
      to_le 4 (of_nat (length ?addrs) :: u32) @ concat (map (to_le 8) vals)"
    using assms(1) by (auto simp: vgic_capture_def Let_def try_bind_Inr collect_all_Inr need_Inr case_prod_beta)
  have len: "length vals = length ?addrs" using vals by (simp add: list_all2_lengthD)
  have "length (concat (map (to_le 8) vals)) = length vals * 8" by (induction vals) simp_all
  moreover have "unat (of_nat n :: u32) = n" "unat (of_nat (length ?addrs) :: u32) = length ?addrs"
    using assms(2) by (rule_tac [!] unat_small) (simp_all add: length_addr_list)
  moreover have "take 4 (drop 8 blob) = to_le 4 NR_IRQS" "take 4 (drop 12 blob) = to_le 4 (of_nat n :: u32)"
    "take 4 (drop 16 blob) = to_le 4 (of_nat (length ?addrs) :: u32)" "drop 20 blob = concat (map (to_le 8) vals)"
    "take 4 blob = KGIC_MAGIC"
    by (simp_all add: blob KGIC_MAGIC_def)
  ultimately have "vgic_restore K NR_IRQS n blob s = Inr (restore_attrs K ?addrs (concat (map (to_le 8) vals)) s)"
    using len by (simp add: vgic_restore_def Let_def from_le_to_le blob KGIC_MAGIC_def)
  then show ?thesis using vals restore_attrs_zip [OF len, of K s] by (intro exI [of _ vals]) simp
qed

lemma kvm_capture_regs:
  assumes "kvm_capture K v c = Inr cs" "(i, b) \<in> set (kvm_regs cs)"
  shows "one_get K (kv v) (c, i) = Some b"
proof -
  obtain ids where "list_all2 (\<lambda>i r. \<exists>b. one_get K (kv v) (c, i) = Some b \<and> (i, b) = r) ids (kvm_regs cs)"
    using assms(1) by (auto simp: kvm_capture_def try_bind_Inr collect_all_Inr need_Inr)
  then show ?thesis using assms(2) by (fastforce simp: list_all2_conv_all_nth in_set_conv_nth)
qed

lemma kvm_restore_fold:
  "kvm_regs cs \<noteq> [] \<Longrightarrow> kvm_restore K v c cs =
     Inr (v\<lparr>kv := foldl (put_or_skip (one_put K)) (kv v) (map (\<lambda>(i, b). ((c, i), b)) (kvm_regs cs))\<rparr>)"
  by (simp add: kvm_restore_def foldl_map put_or_skip_def case_prod_unfold)

lemma kernel_separate:
  assumes "kernel_ok K sticky Dg Dr"
  shows "one_get K (foldl (put_or_skip (attr_put K)) s avs) = one_get K s"
    "attr_get K (foldl (put_or_skip (one_put K)) s bvs) = attr_get K s"
proof -
  have "one_get K (put_or_skip (attr_put K) s av) = one_get K s" for s av
    using assms unfolding kernel_ok_def put_or_skip_def by (cases "attr_put K s (fst av) (snd av)") auto
  then show "one_get K (foldl (put_or_skip (attr_put K)) s avs) = one_get K s"
    by (induction avs arbitrary: s) simp_all
  have "attr_get K (put_or_skip (one_put K) s bv) = attr_get K s" for s bv
    using assms unfolding kernel_ok_def put_or_skip_def by (cases "one_put K s (fst bv) (snd bv)") auto
  then show "attr_get K (foldl (put_or_skip (one_put K)) s bvs) = attr_get K s"
    by (induction bvs arbitrary: s) simp_all
qed

definition restore_vcpus :: "'s kvm \<Rightarrow> cpu_snapshot list \<Rightarrow> nat \<Rightarrow> 's kvm_vm \<Rightarrow> error + 's kvm_vm" where
  "restore_vcpus K css n w = foldl (\<lambda>r c. try_bind r (\<lambda>w. kvm_restore K w c (css ! c))) (Inr w) [0..<n]"

lemma restore_vcpus_exact:
  assumes k: "kernel_ok K sticky Dg Dr"
    and caps: "\<forall>c < n. kvm_capture K v c = Inr (css ! c) \<and> kvm_regs (css ! c) \<noteq> []"
  shows "\<exists>w'. restore_vcpus K css n w = Inr w' \<and> kvm_vcpus w' = kvm_vcpus w \<and> attr_get K (kv w') = attr_get K (kv w) \<and>
     (\<forall>c < n. \<forall>(i, b) \<in> set (kvm_regs (css ! c)). (c, i) \<in> Dr \<longrightarrow> one_get K (kv w') (c, i) = Some b)"
  using caps
proof (induction n)
  case (Suc n)
  then obtain w1 where w1: "restore_vcpus K css n w = Inr w1" "kvm_vcpus w1 = kvm_vcpus w" "attr_get K (kv w1) = attr_get K (kv w)"
    and old: "\<And>c i b. \<lbrakk>c < n; (i, b) \<in> set (kvm_regs (css ! c)); (c, i) \<in> Dr\<rbrakk> \<Longrightarrow> one_get K (kv w1) (c, i) = Some b"
    by fastforce
  let ?bvs = "map (\<lambda>(i, b). ((n, i), b)) (kvm_regs (css ! n))"
  let ?s = "foldl (put_or_skip (one_put K)) (kv w1) ?bvs"
  have cap: "kvm_capture K v n = Inr (css ! n)" "kvm_regs (css ! n) \<noteq> []" using Suc.prems by simp_all
  have keep: "keeps Dr (one_get K) (one_put K) (\<lambda>a old v. True)" using k by (simp add: kernel_ok_def)
  have src: "\<forall>(a, b) \<in> set ?bvs. a \<in> Dr \<longrightarrow> one_get K (kv v) a = Some b \<and> True"
    using kvm_capture_regs [OF cap(1)] by auto
  have get: "one_get K ?s a = (if a \<in> fst ` set ?bvs then one_get K (kv v) a else one_get K (kv w1) a)" if "a \<in> Dr" for a
    by (rule keeps_restore [OF keep _ src that]) simp
  have "one_get K ?s (c, i) = Some b" if "c < Suc n" "(i, b) \<in> set (kvm_regs (css ! c))" "(c, i) \<in> Dr" for c i b
  proof (cases "c = n")
    case True
    then show ?thesis using get [OF that(3)] that kvm_capture_regs [OF cap(1)] by force
  next
    case False
    then have "(c, i) \<notin> fst ` set ?bvs" by auto
    then show ?thesis using get [OF that(3)] old [of c i b] that False by simp
  qed
  moreover have "attr_get K ?s = attr_get K (kv w)" using kernel_separate(2) [OF k] w1(3) by metis
  moreover have "restore_vcpus K css (Suc n) w = Inr (w1\<lparr>kv := ?s\<rparr>)"
    using w1(1) kvm_restore_fold [OF cap(2)] by (simp add: restore_vcpus_def)
  ultimately show ?case using w1(2) by auto
qed (simp add: restore_vcpus_def)

text \<open>C20. A snapshot carries the machine over to another process on Linux: when the controller and every
  vcpu of a machine have been captured, restoring them in a new machine of the same shape succeeds and
  every register there that the kernel lets userspace set has the captured value, for registers that
  refuse the write too, as long as the registers that only gain bits start at zero.\<close>

theorem kvm_state_transfer:
  assumes "kernel_ok K sticky Dg Dr" "kvm_vcpus w = kvm_vcpus v" "kvm_vcpus v \<le> 8"
    and "kvm_capture_gic K v = Inr blob"
    and "\<forall>c < kvm_vcpus v. kvm_capture K v c = Inr (css ! c) \<and> kvm_regs (css ! c) \<noteq> []"
    and "\<forall>(g, a) \<in> sticky. kv_get_attr K (kv w) g a = Some 0"
  shows "\<exists>w1 w2. kvm_restore_gic K w blob = Inr w1 \<and> restore_vcpus K css (kvm_vcpus v) w1 = Inr w2 \<and>
     (\<forall>(g, a) \<in> Dg \<inter> set (addr_list (kv_abi K) NR_IRQS (kvm_vcpus v)).
        kv_get_attr K (kv w2) g a = kv_get_attr K (kv v) g a) \<and>
     (\<forall>c < kvm_vcpus v. \<forall>(i, b) \<in> set (kvm_regs (css ! c)).
        (c, i) \<in> Dr \<longrightarrow> kv_get_one K (kv w2) c i (reg_size i) = Some b)"
proof -
  let ?addrs = "addr_list (kv_abi K) NR_IRQS (kvm_vcpus v)"
  obtain vals where vals: "list_all2 (\<lambda>a x. attr_get K (kv v) a = Some x) ?addrs vals"
    and r: "vgic_restore K NR_IRQS (kvm_vcpus v) blob (kv w) = Inr (foldl (put_or_skip (attr_put K)) (kv w) (zip ?addrs vals))"
    using vgic_restore_captured [OF assms(4) [unfolded kvm_capture_gic_def] assms(3), of "kv w"] by auto
  define w1 where "w1 = w\<lparr>kv := foldl (put_or_skip (attr_put K)) (kv w) (zip ?addrs vals)\<rparr>"
  have w1: "kvm_restore_gic K w blob = Inr w1" using r assms(2) by (simp add: kvm_restore_gic_def w1_def)
  let ?over = "\<lambda>a old v. a \<in> sticky \<longrightarrow> old = Some 0 \<or> old = Some (v :: u64)"
  have keep: "keeps Dg (attr_get K) (attr_put K) ?over" using assms(1) by (simp add: kernel_ok_def)
  have src: "\<forall>(a, x) \<in> set (zip ?addrs vals). a \<in> Dg \<longrightarrow> attr_get K (kv v) a = Some x \<and> ?over a (attr_get K (kv w) a) x"
    using vals assms(6) by (auto simp: list_all2_iff)
  have "a \<in> fst ` set (zip ?addrs vals)" if "a \<in> set ?addrs" for a
    using that vals by (simp add: list_all2_lengthD flip: set_map)
  then have gic: "attr_get K (kv w1) a = attr_get K (kv v) a" if "a \<in> Dg" "a \<in> set ?addrs" for a
    using keeps_restore [OF keep _ src that(1)] that by (simp add: w1_def)
  obtain w2 where w2: "restore_vcpus K css (kvm_vcpus v) w1 = Inr w2" "attr_get K (kv w2) = attr_get K (kv w1)"
    "\<forall>c < kvm_vcpus v. \<forall>(i, b) \<in> set (kvm_regs (css ! c)). (c, i) \<in> Dr \<longrightarrow> one_get K (kv w2) (c, i) = Some b"
    using restore_vcpus_exact [OF assms(1,5), of w1] by auto
  have "kv_get_attr K (kv w2) g a = kv_get_attr K (kv v) g a" if "(g, a) \<in> Dg" "(g, a) \<in> set ?addrs" for g a
    using gic [OF that] fun_cong [OF w2(2), of "(g, a)"] by simp
  then show ?thesis using w1 w2(1,3) by (rule_tac x = w1 in exI, rule_tac x = w2 in exI) auto
qed

text \<open>A kernel to evaluate: controller registers, vcpu registers and power states as functions.\<close>

type_synonym demo_kernel = "(u32 \<times> u64 \<Rightarrow> u64) \<times> (nat \<times> u64 \<Rightarrow> bytes) \<times> (nat \<Rightarrow> bool)"

definition demo_abi :: kvm_abi where
  "demo_abi =
     \<lparr>ab_arm64 = 0x6000000000000000, ab_size_u64 = 0x30000000000000, ab_arm_core = 0x100000, ab_sysreg = 0x130000,
      ab_dist = 1, ab_redist = 5, ab_cpu_sysregs = 6, ab_nr_irqs = 3, ab_addr = 0, ab_ctrl = 4, ab_addr_dist = 2,
      ab_addr_redist = 3, ab_ctrl_init = 0, ab_psci = 2, ab_power_off = 0, ab_list_max = 500\<rparr>"

definition demo_kvm :: "demo_kernel kvm" where
  "demo_kvm =
     \<lparr>kv_abi = demo_abi, kv_create_vm = Some (\<lambda>_. 0, \<lambda>_. [], \<lambda>_. False), kv_set_memory = (\<lambda>s _. Some s),
      kv_create_vgic = (\<lambda>s. Some s), kv_set_attr = (\<lambda>(ga, rg, off) g a x. Some (ga((g, a) := x), rg, off)),
      kv_get_attr = (\<lambda>(ga, rg, off) g a. Some (ga (g, a))), kv_mmap_size = (\<lambda>_. Some 0x3000),
      kv_create_vcpu = (\<lambda>s _. Some s), kv_preferred = (\<lambda>_. Some 0),
      kv_vcpu_init = (\<lambda>(ga, rg, off) c f. Some (ga, rg, off(c := bit f 0))), kv_mmap_run = (\<lambda>s _ _. Some s),
      kv_irq_line = (\<lambda>s _ _. Some s), kv_get_one = (\<lambda>(ga, rg, off) c i n. Some (rg (c, i))),
      kv_set_one = (\<lambda>(ga, rg, off) c i b. Some (ga, rg((c, i) := b), off)),
      kv_reg_list = (\<lambda>_ _ n. if n < 2 then Inl 2 else Inr [0x6030000000100040, 0x6030000000100042]),
      kv_run = (\<lambda>s _ ram. (s, ram, ExitIntr)), kv_data = (\<lambda>_ _. replicate 8 0), kv_set_data = (\<lambda>s _ _. s),
      kv_tid = id, kv_signal = (\<lambda>s _. s)\<rparr>"

lemma demo_kernel_ok: "kernel_ok demo_kvm UNIV UNIV UNIV"
  by (auto simp: kernel_ok_def keeps_def demo_kvm_def)

definition demo_kvm_vm :: "demo_kernel \<Rightarrow> demo_kernel kvm_vm" where
  "demo_kvm_vm s =
     \<lparr>kv = s, kvm_gic = \<lparr>dist_base = 0, dist_size = 0, redist_base = 0, redist_size = 0, kind = V3\<rparr>, kvm_vcpus = 2,
      kick_tids = [], kvm_pending = [], kvm_live = (\<lambda>_. \<lparr>run_size = 0, mmio_len = 0, tid_registered = False\<rparr>)\<rparr>"

definition demo_cpus :: "cpu_snapshot list" where
  "demo_cpus = map (\<lambda>c. \<lparr>cs_x = [], cs_pc = 0, cs_cpsr = 0, cs_fpcr = 0, cs_fpsr = 0, vtimer_offset = 0, mono = 0,
     sysregs = [], cs_fp = [], kvm_regs = [(0x6030000000100040, [of_nat c]), (0x6030000000100042, [of_nat c])]\<rparr>) [0..<2]"

lemma demo_vgic_capture: "\<exists>blob. vgic_capture demo_kvm nr n s = Inr blob"
proof -
  have "collect_all (\<lambda>(g, a). need_snap (kv_get_attr demo_kvm s g a)) xs = Inr (map (fst s) xs)" for xs
    by (induction xs) (simp_all add: demo_kvm_def case_prod_beta)
  then show ?thesis by (simp add: vgic_capture_def Let_def)
qed

theorem kvm_state_transfer_witness:
  "\<exists>blob w1 w2. kvm_capture_gic demo_kvm (demo_kvm_vm (\<lambda>_. 7, \<lambda>(c, i). [of_nat c], \<lambda>_. False)) = Inr blob \<and>
     kvm_restore_gic demo_kvm (demo_kvm_vm (\<lambda>_. 0, \<lambda>_. [], \<lambda>_. False)) blob = Inr w1 \<and>
     restore_vcpus demo_kvm demo_cpus 2 w1 = Inr w2 \<and>
     kv_get_attr demo_kvm (kv w2) 1 0 = Some 7 \<and> kv_get_one demo_kvm (kv w2) 1 0x6030000000100040 8 = Some [1]"
proof -
  let ?v = "demo_kvm_vm (\<lambda>_. 7, \<lambda>(c, i). [of_nat c], \<lambda>_. False)"
  let ?w = "demo_kvm_vm (\<lambda>_. 0, \<lambda>_. [], \<lambda>_. False)"
  have n: "kvm_vcpus ?w = kvm_vcpus ?v" "kvm_vcpus ?v \<le> 8" "kvm_vcpus ?v = 2" by (simp_all add: demo_kvm_vm_def)
  obtain blob where b: "kvm_capture_gic demo_kvm ?v = Inr blob"
    using demo_vgic_capture unfolding kvm_capture_gic_def by blast
  have caps: "\<forall>c < kvm_vcpus ?v. kvm_capture demo_kvm ?v c = Inr (demo_cpus ! c) \<and> kvm_regs (demo_cpus ! c) \<noteq> []"
    unfolding n by (auto simp: less_2_cases_iff demo_cpus_def kvm_capture_def reg_ids_def demo_kvm_def demo_abi_def demo_kvm_vm_def)
  have fresh: "\<forall>(g, a) \<in> UNIV. kv_get_attr demo_kvm (kv ?w) g a = Some 0" by (simp add: demo_kvm_def demo_kvm_vm_def)
  from kvm_state_transfer [OF demo_kernel_ok n(1,2) b caps fresh] obtain w1 w2
    where w: "kvm_restore_gic demo_kvm ?w blob = Inr w1" "restore_vcpus demo_kvm demo_cpus 2 w1 = Inr w2"
    and g: "\<forall>(g, a) \<in> set (addr_list (kv_abi demo_kvm) NR_IRQS 2). kv_get_attr demo_kvm (kv w2) g a = kv_get_attr demo_kvm (kv ?v) g a"
    and r: "\<forall>c < 2. \<forall>(i, x) \<in> set (kvm_regs (demo_cpus ! c)). kv_get_one demo_kvm (kv w2) c i (reg_size i) = Some x"
    unfolding n by auto
  have "(1, 0) \<in> set (addr_list (kv_abi demo_kvm) NR_IRQS 2)" by (simp add: addr_list_def dist_addrs_def demo_kvm_def demo_abi_def)
  then have "kv_get_attr demo_kvm (kv w2) 1 0 = Some 7" using g by (fastforce simp: demo_kvm_def demo_kvm_vm_def)
  moreover have "(0x6030000000100040, [1]) \<in> set (kvm_regs (demo_cpus ! 1))" by (simp add: demo_cpus_def)
  then have "kv_get_one demo_kvm (kv w2) 1 0x6030000000100040 (reg_size 0x6030000000100040) = Some [1]"
    using r [rule_format, of 1 "(0x6030000000100040, [1])"] by simp
  moreover have "reg_size 0x6030000000100040 = 8" by (simp add: reg_size_def)
  ultimately show ?thesis using b w by auto
qed

section \<open>Power\<close>

text \<open>What is documented of the power state of a vcpu: initialising sets it from the feature bit, and none
  of the other calls made before the guest runs touches it.\<close>

definition power_ok :: "'s kvm \<Rightarrow> ('s \<Rightarrow> nat \<Rightarrow> bool) \<Rightarrow> bool" where
  "power_ok K off \<longleftrightarrow> ab_power_off (kv_abi K) < 32 \<and>
     (\<forall>s c f s'. kv_vcpu_init K s c f = Some s' \<longrightarrow> off s' = (off s)(c := bit f (ab_power_off (kv_abi K)))) \<and>
     (\<forall>s c s' k. kv_create_vcpu K s c = Some s' \<longrightarrow> k \<noteq> c \<longrightarrow> off s' k = off s k) \<and>
     (\<forall>s c n s'. kv_mmap_run K s c n = Some s' \<longrightarrow> off s' = off s) \<and>
     (\<forall>s g a x s'. kv_set_attr K s g a x = Some s' \<longrightarrow> off s' = off s) \<and>
     (\<forall>s c i b s'. kv_set_one K s c i b = Some s' \<longrightarrow> off s' = off s) \<and>
     (\<forall>s i l s'. kv_irq_line K s i l = Some s' \<longrightarrow> off s' = off s)"

text \<open>What happens between creation and the first run.\<close>

inductive kvm_setup :: "'s kvm \<Rightarrow> 's kvm_vm \<Rightarrow> 's kvm_vm \<Rightarrow> bool" for K where
  vcpu: "kvm_create_vcpu v i = Inr v' \<Longrightarrow> kvm_setup K v v'"
| template: "kvm_apply_template K v c t = Inr v' \<Longrightarrow> kvm_setup K v v'"
| boot: "kvm_set_boot K v c entry dtb = Inr v' \<Longrightarrow> kvm_setup K v v'"
| gic: "kvm_restore_gic K v blob = Inr v' \<Longrightarrow> kvm_setup K v v'"
| regs: "kvm_restore K v c cs = Inr v' \<Longrightarrow> kvm_setup K v v'"
| irq: "kvm_set_irq K v intid level = Inr v' \<Longrightarrow> kvm_setup K v v'"

lemma kvm_set_reg_off: "power_ok K off \<Longrightarrow> kvm_set_reg K v c i x = Inr v' \<Longrightarrow> off (kv v') = off (kv v)"
  by (auto simp: power_ok_def kvm_set_reg_def try_bind_Inr need_Inr)

lemma kvm_apply_template_off:
  assumes "power_ok K off" "kvm_apply_template K v c t = Inr v'"
  shows "off (kv v') = off (kv v)"
proof -
  let ?step = "\<lambda>r ov. try_bind r (\<lambda>v. let i = kvm_sysreg_id (kv_abi K) (ov_reg ov) in
      try_bind (kvm_get_reg K v c i) (\<lambda>cur. kvm_set_reg K v c i ((cur AND and_mask ov) OR or_value ov)))"
  have "foldl ?step r os = Inr v' \<Longrightarrow> \<exists>u. r = Inr u \<and> off (kv v') = off (kv u)" for r os
  proof (induction os arbitrary: r)
    case (Cons ov os)
    then obtain u where "?step r ov = Inr u" "off (kv v') = off (kv u)" by fastforce
    then show ?case using kvm_set_reg_off [OF assms(1)] by (auto simp: try_bind_Inr Let_def)
  qed simp
  then show ?thesis using assms(2) unfolding kvm_apply_template_def by blast
qed

lemma restore_attrs_off:
  assumes "power_ok K off" shows "off (restore_attrs K addrs bs s) = off s"
proof (induction addrs arbitrary: bs s)
  case (Cons ga addrs)
  then show ?case using assms by (cases ga) (auto simp: power_ok_def split: option.split)
qed simp

lemma kvm_setup_off:
  assumes "power_ok K off" "kvm_setup K v v'"
  shows "off (kv v') = off (kv v)"
  using assms(2)
proof cases
  case (vcpu i)
  then show ?thesis by (auto simp: kvm_create_vcpu_def split: if_splits option.splits)
next
  case (template c t)
  then show ?thesis using kvm_apply_template_off [OF assms(1)] by blast
next
  case (boot c entry dtb)
  then show ?thesis using kvm_set_reg_off [OF assms(1)] by (auto simp: kvm_set_boot_def try_bind_Inr)
next
  case (gic blob)
  then show ?thesis using restore_attrs_off [OF assms(1)]
    by (auto simp: kvm_restore_gic_def try_bind_Inr vgic_restore_def Let_def split: if_splits)
next
  case (regs c cs)
  have "off (foldl (\<lambda>s (i, b). case kv_set_one K s c i b of None \<Rightarrow> s | Some s' \<Rightarrow> s') s rs) = off s" for s rs
    using assms(1) by (induction rs arbitrary: s) (auto simp: power_ok_def split: option.split)
  then show ?thesis using regs by (auto simp: kvm_restore_def split: if_splits)
next
  case (irq intid level)
  then show ?thesis using assms(1) by (auto simp: power_ok_def kvm_set_irq_def try_bind_Inr need_Inr)
qed

lemma init_vcpu_off:
  assumes "power_ok K off" "init_vcpu K i sz s = Inr (u, s')"
  shows "k \<noteq> unat i \<Longrightarrow> off s' k = off s k" "i \<noteq> 0 \<Longrightarrow> off s' (unat i)"
proof -
  let ?po = "ab_power_off (kv_abi K)"
  obtain s1 f s2 where s: "kv_create_vcpu K s (unat i) = Some s1" "kv_vcpu_init K s1 (unat i) f = Some s2"
    "kv_mmap_run K s2 (unat i) sz = Some s'" and f: "i \<noteq> 0 \<longrightarrow> (\<exists>g. f = g OR 2 ^ ?po)"
    using assms(2) by (cases "i = 0") (auto simp: init_vcpu_def Let_def try_bind_Inr need_Inr)
  have off: "off s' = (off s1)(unat i := bit f ?po)" "k \<noteq> unat i \<Longrightarrow> off s1 k = off s k" for k
    using assms(1) s unfolding power_ok_def by metis+
  show "k \<noteq> unat i \<Longrightarrow> off s' k = off s k" using off by simp
  have "?po < 32" using assms(1) by (simp add: power_ok_def)
  then have "bit (g OR 2 ^ ?po :: u32) ?po" for g by (simp add: bit_or_iff bit_exp_iff)
  then show "i \<noteq> 0 \<Longrightarrow> off s' (unat i)" using off(1) f by auto
qed

lemma init_vcpus_off:
  assumes "power_ok K off"
  shows "init_vcpus K is sz s = Inr (cs, s') \<Longrightarrow> \<forall>i \<in> set is. i < 256 \<Longrightarrow> 0 < k \<Longrightarrow> k \<in> set is \<or> off s k \<Longrightarrow> off s' k"
proof (induction "is" arbitrary: s cs)
  case (Cons i "is")
  obtain u s1 cs' where u: "init_vcpu K (of_nat i) sz s = Inr (u, s1)" "init_vcpus K is sz s1 = Inr (cs', s')"
    using Cons.prems(1) by (auto simp: try_bind_Inr)
  have i: "unat (of_nat i :: u8) = i" using Cons.prems(2) by (simp add: unat_of_nat take_bit_eq_mod)
  then have "of_nat i \<noteq> (0 :: u8)" if "0 < i" using that by (metis unsigned_0 less_irrefl)
  then have "off s1 k" if "k = i" using init_vcpu_off(2) [OF assms u(1)] i that Cons.prems(3) by simp
  moreover have "off s1 k = off s k" if "k \<noteq> i" using init_vcpu_off(1) [OF assms u(1), of k] i that by simp
  ultimately show ?case using Cons.IH [OF u(2)] Cons.prems by auto
qed simp

text \<open>C21. A restored fork has one vcpu: whatever a snapshot holds, and whatever is restored, the secondary
  vcpus of a new machine are powered off when the guest resumes, also when they were running when the
  snapshot was taken, because the power state is neither captured nor restored.\<close>

theorem kvm_secondaries_stay_off:
  assumes "power_ok K off" "kvm_create K ram n = Inr v" "n \<le> 8" "(kvm_setup K)\<^sup>*\<^sup>* v w" "0 < c" "c < n"
  shows "off (kv w) c"
proof -
  obtain s5 sz cs s6 s7 where i: "init_vcpus K [0..<max n 1] sz s5 = Inr (cs, s6)"
    and s7: "kv_set_attr K s6 (ab_ctrl (kv_abi K)) (ab_ctrl_init (kv_abi K)) 0 = Some s7" "kv v = s7"
    using assms(2) by (auto simp: kvm_create_def Let_def try_bind_Inr need_Inr)
  have "off s6 c" using init_vcpus_off [OF assms(1) i] assms(3,5,6) by simp
  then have "off (kv v) c" using s7 assms(1) by (auto simp: power_ok_def)
  moreover have "off (kv w) = off (kv v)" using assms(4) by (induction rule: rtranclp_induct) (use kvm_setup_off [OF assms(1)] in auto)
  ultimately show ?thesis by simp
qed

theorem kvm_secondaries_stay_off_witness:
  "\<exists>v w. kvm_create demo_kvm \<lparr>base = 0, mem = []\<rparr> 2 = Inr v \<and> kvm_restore demo_kvm v 1 (demo_cpus ! 1) = Inr w \<and>
     snd (snd (kv w)) 1"
proof -
  obtain v where v: "kvm_create demo_kvm \<lparr>base = 0, mem = []\<rparr> 2 = Inr v"
    by (simp add: kvm_create_def init_vcpu_def demo_kvm_def demo_abi_def numeral_2_eq_2 Let_def)
  obtain w where w: "kvm_restore demo_kvm v 1 (demo_cpus ! 1) = Inr w" by (simp add: kvm_restore_def demo_cpus_def)
  have p: "power_ok demo_kvm (\<lambda>s. snd (snd s))" by (auto simp: power_ok_def demo_kvm_def demo_abi_def)
  have "(kvm_setup demo_kvm)\<^sup>*\<^sup>* v w" using w by (blast intro: kvm_setup.regs)
  from kvm_secondaries_stay_off [OF p v _ this, of 1] show ?thesis using v w by auto
qed


section \<open>The contract of the machine\<close>

text \<open>A kernel that runs the guest in the memory it was given makes a backend for the machine's theorems.\<close>

lemma kvm_hv_ok: "\<forall>s c ram. changes_only UNIV ram (fst (snd (kv_run K s c ram))) \<Longrightarrow> hv_ok (kvm_ops K)"
  unfolding hv_ok_def
proof (intro allI)
  fix h c ram assume k: "\<forall>s c ram. changes_only UNIV ram (fst (snd (kv_run K s c ram)))"
  obtain s ram' ex where r: "kv_run K (kv (register_tid K c h)) c ram = (s, ram', ex)" by (metis prod_cases3)
  then have "fst (snd (kvm_run K h c ram)) = ram'" by (cases ex) (simp_all add: kvm_run_def Let_def)
  then show "changes_only UNIV ram (fst (snd (vc_run (kvm_ops K) h c ram)))"
    using k r by (simp add: kvm_ops_def) (metis fst_conv snd_conv)
qed

lemma kvm_vcpu_once: "kvm_create_vcpu v i = Inr v' \<Longrightarrow> kvm_create_vcpu v' i = Inl Backend"
  by (auto simp: kvm_create_vcpu_def split: if_splits option.splits)

end
