(* ===== verification/Cli.thy ===== *)
theory Cli
  imports Images Cpio Manifest Vm
begin

text \<open>
  The command line, \<^verbatim>\<open>amber/src/main.rs\<close>: the arguments of the commands, the configuration of a
  machine from manifest, image and environment, and the initramfs with the script that runs the command
  in the guest.  The environment is a function from names to values; the files of the host are the
  record \<open>cli_host\<close>.  Printing, terminals and process creation are outside the model.
\<close>

section \<open>Arguments\<close>

type_synonym environ = "string \<Rightarrow> string option"

fun dash_at :: "string list \<Rightarrow> nat option" where
  "dash_at [] = None"
| "dash_at (a # as) = (if a = ''--'' then Some 0 else map_option Suc (dash_at as))"

definition after_dash :: "string list \<Rightarrow> string list" where
  "after_dash args = (case dash_at args of Some i \<Rightarrow> drop (i + 1) args | None \<Rightarrow> [])"

definition is_flag :: "string \<Rightarrow> bool" where
  "is_flag a \<longleftrightarrow> a \<noteq> [] \<and> hd a = CHR ''-''"

text \<open>What \<open>run\<close> is asked for: detached or not, the target, the command.\<close>

definition run_args :: "string list \<Rightarrow> (bool \<times> string \<times> string list) option" where
  "run_args args =
     (let head = drop 2 (case dash_at args of Some i \<Rightarrow> take i args | None \<Rightarrow> args)
      in case find (\<lambda>a. \<not> is_flag a) head of
           None \<Rightarrow> None
         | Some target \<Rightarrow> Some (''-d'' \<in> set head \<or> ''--detach'' \<in> set head, target, after_dash args))"

fun join_with :: "string \<Rightarrow> string list \<Rightarrow> string" where
  "join_with sep [] = []"
| "join_with sep [x] = x"
| "join_with sep (x # y # ys) = x @ sep @ join_with sep (y # ys)"

definition exec_args :: "string list \<Rightarrow> (string \<times> string) option" where
  "exec_args args =
     (if length args \<le> 2 \<or> dash_at args = Some 2 then None
      else let cmd = join_with '' '' (after_dash args)
           in if cmd = [] then None else Some (args ! 2, cmd))"

definition fork_args :: "string list \<Rightarrow> (bool \<times> string) option" where
  "fork_args args =
     (case find (\<lambda>a. \<not> is_flag a) (drop 2 args) of
        None \<Rightarrow> None
      | Some template \<Rightarrow> Some (''-i'' \<in> set (drop 2 args), template))"

text \<open>The exit status for the code a machine or a command ended with.\<close>

definition exit_status :: "32 word \<Rightarrow> u8" where
  "exit_status code = of_int (min 255 (max 0 (sint code)))"

definition nonempty :: "string option \<Rightarrow> string option" where
  "nonempty v = (case v of Some s \<Rightarrow> if s = [] then None else Some s | None \<Rightarrow> None)"

text \<open>\<open>parse::<i32>\<close>.\<close>

definition parse_i32 :: "string \<Rightarrow> int option" where
  "parse_i32 s =
     (case s of
        c # ds \<Rightarrow>
          if c = CHR ''-''
          then (if ds = [] then None
                else case digits_from 0 ds of None \<Rightarrow> None | Some n \<Rightarrow> if n \<le> 2 ^ 31 then Some (- int n) else None)
          else map_option int (parse_unsigned 31 s)
      | [] \<Rightarrow> None)"

definition snapshot_from_env :: "environ \<Rightarrow> snapshot_req option" where
  "snapshot_from_env env =
     (case nonempty (env ''AMBER_SNAPSHOT'') of
        None \<Rightarrow> None
      | Some dir \<Rightarrow>
          let ms = (case Option.bind (env ''AMBER_SNAPSHOT_AFTER_MS'') (parse_unsigned 64) of Some n \<Rightarrow> n | None \<Rightarrow> 2000)
          in Some \<lparr>sr_after = of_nat ms / 1000, sr_dir = dir,
                   sr_marker = map_option (map of_char) (nonempty (env ''AMBER_SNAPSHOT_MARKER''))\<rparr>)"


section \<open>Files of the host\<close>

record cli_host =
  ch_read :: "string \<Rightarrow> bytes option"
  ch_exists :: "string \<Rightarrow> bool"
  ch_exe_dir :: "string option"
  ch_entries :: "string \<Rightarrow> string list option"
  ch_is_dir :: "string \<Rightarrow> bool"
  ch_epoch :: u64
  ch_gzip :: "bytes \<Rightarrow> bytes"

definition KERNEL :: string where "KERNEL = ''assets/Image''"
definition BUSYBOX :: string where "BUSYBOX = ''assets/irx/bin/busybox''"
definition MUSL :: string where "MUSL = ''assets/irx/lib/ld-musl-aarch64.so.1''"
definition MODULES_ROOT :: string where "MODULES_ROOT = ''assets/irx/lib/modules''"
definition AGENT :: string where "AGENT = ''assets/amber-agent''"
definition AGENT_PATH :: string where "AGENT_PATH = ''/sbin/amber-agent''"

definition MODULES :: "string list" where
  "MODULES =
     [''drivers/virtio/virtio_mmio.ko'', ''drivers/block/virtio_blk.ko'', ''drivers/virtio/virtio_balloon.ko'',
      ''drivers/char/hw_random/rng-core.ko'', ''drivers/char/hw_random/virtio-rng.ko'', ''net/core/failover.ko'',
      ''drivers/net/net_failover.ko'', ''drivers/net/virtio_net.ko'', ''fs/squashfs/squashfs.ko'',
      ''fs/overlayfs/overlay.ko'']"

definition asset :: "cli_host \<Rightarrow> environ \<Rightarrow> string \<Rightarrow> string" where
  "asset H env rel =
     (let has = (\<lambda>b. ch_exists H (path_join b KERNEL));
          exe = (case ch_exe_dir H of Some dir \<Rightarrow> if has dir then path_join dir rel else rel | None \<Rightarrow> rel)
      in case env ''AMBER_HOME'' of Some home \<Rightarrow> if has home then path_join home rel else exe | None \<Rightarrow> exe)"

definition cache_dir :: "environ \<Rightarrow> string" where
  "cache_dir env =
     (case env ''AMBER_CACHE'' of
        Some c \<Rightarrow> c
      | None \<Rightarrow>
          path_join
            (case env ''XDG_CACHE_HOME'' of
               Some b \<Rightarrow> b
             | None \<Rightarrow> (case env ''HOME'' of Some h \<Rightarrow> path_join h ''.cache'' | None \<Rightarrow> ''.''))
            ''amber'')"

definition first_module_dir :: "cli_host \<Rightarrow> environ \<Rightarrow> string option" where
  "first_module_dir H env =
     (let root = asset H env MODULES_ROOT
      in case ch_entries H root of
           None \<Rightarrow> None
         | Some es \<Rightarrow> find (ch_is_dir H) (map (\<lambda>e. path_join (path_join root e) ''kernel'') es))"


section \<open>The script of the guest\<close>

definition SQ :: char where "SQ = CHR 0x27"

definition sh_quote :: "string \<Rightarrow> string" where
  "sh_quote s = [SQ] @ concat (map (\<lambda>c. if c = SQ then [SQ, CHR 0x5C, SQ, SQ] else [c]) s) @ [SQ]"

definition line :: "string \<Rightarrow> string" where
  "line s = s @ [CHR 0x0A]"

definition disk_dev :: "nat \<Rightarrow> string" where
  "disk_dev i = ''/dev/vd'' @ [char_of ((98 + i) mod 256)]"

definition mount_point :: "nat \<Rightarrow> string" where
  "mount_point i = (if i = 0 then ''/newroot/data'' else ''/newroot/data'' @ show_nat (i + 1))"

definition mount_disk :: "nat \<Rightarrow> string" where
  "mount_disk i =
     (let mp = mount_point i; dev = disk_dev i
      in line (''mkdir -p '' @ mp @ ''; mount -t ext4 '' @ dev @ '' '' @ mp @ '' 2>/dev/null || mount -t ext4 -o ro,noload '' @
               dev @ '' '' @ mp @ '' 2>/dev/null || rmdir '' @ mp @ '' 2>/dev/null''))"

definition setup_net :: string where
  "setup_net =
     line (''if [ -e /sys/class/net/eth0 ]; then ip link set eth0 up; ip addr add 10.0.0.2/24 dev eth0; '' @
           ''ip route add default via 10.0.0.1; mkdir -p /newroot/etc; echo '' @ [SQ] @ ''nameserver 10.0.0.1'' @ [SQ] @
           '' > /newroot/etc/resolv.conf; fi'')"

definition setup_root :: "u64 \<Rightarrow> bool \<Rightarrow> nat \<Rightarrow> string" where
  "setup_root epoch modules disks =
     concat (map line [''#!/bin/busybox sh'', ''/bin/busybox --install -s /bin'', ''export PATH=/bin'',
       ''mount -t proc proc /proc'', ''mount -t sysfs sysfs /sys'', ''mount -t devtmpfs dev /dev'',
       ''date -s @'' @ show_nat (unat epoch) @ '' >/dev/null 2>&1'']) @
     (if modules then concat (map (\<lambda>m. line (''insmod /mod/'' @ base_name m)) MODULES) else []) @
     concat (map line [''mkdir -p /base /scratch /newroot'', ''mount -t squashfs -o ro /dev/vda /base'',
       ''mount -t tmpfs tmpfs /scratch'', ''mkdir -p /scratch/u /scratch/w'',
       ''mount -t overlay overlay -o lowerdir=/base,upperdir=/scratch/u,workdir=/scratch/w /newroot'',
       ''mount -t devtmpfs dev /newroot/dev'', ''mount -t proc proc /newroot/proc'', ''mount -t sysfs sysfs /newroot/sys'']) @
     concat (map mount_disk [0..<disks]) @ setup_net"

definition export_env :: "string list \<Rightarrow> string" where
  "export_env env = concat (map (\<lambda>e. line (''export '' @ sh_quote e)) env)"

definition inner_command :: "string option \<Rightarrow> string list \<Rightarrow> string" where
  "inner_command cwd argv =
     ''cd '' @ sh_quote (case cwd of Some d \<Rightarrow> d | None \<Rightarrow> ''/'') @ ''; exec '' @ join_with '' '' (map sh_quote argv)"

definition run_line :: "string option \<Rightarrow> string list \<Rightarrow> string" where
  "run_line cwd argv = line (''chroot /newroot /bin/sh -c '' @ sh_quote (inner_command cwd argv))"

definition is_agent :: "string list \<Rightarrow> bool" where
  "is_agent argv \<longleftrightarrow> argv \<noteq> [] \<and> hd argv = AGENT_PATH"

definition init_script :: "u64 \<Rightarrow> bool \<Rightarrow> nat \<Rightarrow> image_config \<Rightarrow> string list \<Rightarrow> string" where
  "init_script epoch modules disks config argv =
     setup_root epoch modules disks @ export_env (ic_env config) @
     (if is_agent argv
      then line ''mkdir -p /newroot/sbin'' @ line ''cp /sbin/amber-agent /newroot/sbin/amber-agent'' else []) @
     run_line (ic_working_dir config) argv @
     (if disks > 0
      then line ''sync'' @ concat (map (\<lambda>i. line (''umount '' @ mount_point i @ '' 2>/dev/null'')) [0..<disks]) else []) @
     line ''poweroff -f''"

definition text_bytes :: "string \<Rightarrow> bytes" where
  "text_bytes = map of_char"

fun read_all :: "cli_host \<Rightarrow> string list \<Rightarrow> bytes list option" where
  "read_all H [] = Some []"
| "read_all H (p # ps) =
     (case ch_read H p of None \<Rightarrow> None | Some b \<Rightarrow> map_option ((#) b) (read_all H ps))"

definition build_bootstrap :: "cli_host \<Rightarrow> environ \<Rightarrow> image_config \<Rightarrow> string list \<Rightarrow> nat \<Rightarrow> bytes option" where
  "build_bootstrap H env config argv disks =
     (let mods = first_module_dir H env;
          paths = [asset H env BUSYBOX, asset H env MUSL] @ (if is_agent argv then [asset H env AGENT] else []) @
            (case mods of None \<Rightarrow> [] | Some dir \<Rightarrow> map (path_join dir) MODULES)
      in case read_all H paths of
           None \<Rightarrow> None
         | Some files \<Rightarrow>
             let busybox = files ! 0; musl = files ! 1; extra = drop 2 files;
                 mod_data = (if is_agent argv then drop 1 extra else extra);
                 init = text_bytes (init_script (ch_epoch H) (mods \<noteq> None) disks config argv);
                 c0 = fold (\<lambda>d. cpio_dir (text_bytes d) 0x1ed) [''bin'', ''lib'', ''dev'', ''proc'', ''sys''] cpio_new;
                 c1 = cpio_symlink (text_bytes ''lib/libc.musl-aarch64.so.1'') (text_bytes ''ld-musl-aarch64.so.1'')
                        (cpio_file (text_bytes ''lib/ld-musl-aarch64.so.1'') musl 0x1ed
                          (cpio_file (text_bytes ''bin/busybox'') busybox 0x1ed c0));
                 c2 = (if is_agent argv
                       then cpio_file (text_bytes ''sbin/amber-agent'') (hd extra) 0x1ed (cpio_dir (text_bytes ''sbin'') 0x1ed c1)
                       else c1);
                 c3 = (case mods of
                         None \<Rightarrow> c2
                       | Some dir \<Rightarrow>
                           fold (\<lambda>(m, b). cpio_file (text_bytes (''mod/'' @ base_name m)) b 0x1a4) (zip MODULES mod_data)
                             (cpio_dir (text_bytes ''mod'') 0x1ed c2));
                 c4 = cpio_char_dev (text_bytes ''dev/null'') 0x1b6 1 3
                        (cpio_char_dev (text_bytes ''dev/console'') 0x180 5 1 (cpio_file (text_bytes ''init'') init 0x1ed c3))
             in Some (ch_gzip H (cpio_finish c4)))"


section \<open>Running a machine\<close>

definition set_caps :: "template \<Rightarrow> environ \<Rightarrow> environ" where
  "set_caps t env =
     fold (\<lambda>(var, cap) env.
             case (env var, Option.bind cap parse_size) of
               (None, Some b) \<Rightarrow> env(var := Some (show_nat (unat b)))
             | _ \<Rightarrow> env)
       [(''AMBER_DISK_BPS'', tp_disk_bps t), (''AMBER_NET_BPS'', tp_net_bps t)] env"

definition override_env :: "(string \<times> string) list \<Rightarrow> string list \<Rightarrow> string list" where
  "override_env extra es =
     fold (\<lambda>(k, v) es. filter (\<lambda>e. take (length k + 1) e \<noteq> k @ ''='') es @ [k @ ''='' @ v]) extra es"

definition parse_disk :: "string \<Rightarrow> string \<times> bool" where
  "parse_disk spec =
     (let n = length spec
      in if 3 \<le> n \<and> drop (n - 3) spec = '':ro'' then (take (n - 3) spec, False) else (spec, True))"

definition wanted_disks :: "environ \<Rightarrow> template option \<Rightarrow> (string \<times> bool) list" where
  "wanted_disks env t =
     map parse_disk
       ((case env ''AMBER_DISK'' of None \<Rightarrow> [] | Some l \<Rightarrow> filter (\<lambda>s. s \<noteq> []) (split_at_char (CHR '','') l)) @
        (case t of None \<Rightarrow> [] | Some t \<Rightarrow> tp_disks t))"

definition wanted_vcpus :: "environ \<Rightarrow> template option \<Rightarrow> nat" where
  "wanted_vcpus env t =
     (let n = (case Option.bind (env ''AMBER_VCPUS'') (parse_unsigned 64) of
                 Some n \<Rightarrow> n
               | None \<Rightarrow> (case Option.bind t tp_vcpus of Some n \<Rightarrow> unat n | None \<Rightarrow> 1))
      in min 8 (max 1 n))"

datatype net_choice = NoNet | CaptureNet | NamedNet string

definition choose_net :: "environ \<Rightarrow> net_choice" where
  "choose_net env =
     (case env ''AMBER_NET'' of
        None \<Rightarrow> NamedNet ''smoltcp''
      | Some k \<Rightarrow>
          if k = ''none'' \<or> k = ''off'' then NoNet else if k = ''capture'' then CaptureNet else NamedNet k)"

datatype vm_launch =
    UsageError
  | BuildFailed image_error
  | NoCommand
  | DiskNotFound string
  | BootstrapFailed
  | NoKernel string
  | Launch vm_config net_choice

definition path_text :: "string list \<Rightarrow> string" where
  "path_text ps = concat (map (\<lambda>c. ''/'' @ c) ps)"

definition vm_cfg ::
  "environ \<Rightarrow> template option \<Rightarrow> bytes \<Rightarrow> bytes \<Rightarrow> string list \<Rightarrow> (string \<times> bool) list \<Rightarrow> vm_config" where
  "vm_cfg env t kimg initrd sq disks =
     vm_config_default
       \<lparr>cfg_kernel := kimg, cfg_initrd := Some initrd, cfg_disk := Some (path_text sq),
        cfg_mem_size :=
          (case Option.bind (env ''AMBER_MEM'') parse_size of
             Some b \<Rightarrow> unat b
           | None \<Rightarrow> (case Option.bind (Option.bind t tp_ram_cap) parse_size of
                        Some b \<Rightarrow> unat b | None \<Rightarrow> cfg_mem_size vm_config_default)),
        cfg_vcpus := wanted_vcpus env t, cfg_data_disks := disks, cfg_vsock := nonempty (env ''AMBER_VSOCK''),
        cfg_cpu_template := nonempty (env ''AMBER_CPU_TEMPLATE''),
        cfg_control_fd := Option.bind (env ''AMBER_CONTROL_FD'') parse_i32, cfg_snapshot := snapshot_from_env env,
        cfg_cmdline := (if env ''AMBER_VERBOSE'' \<noteq> None then ''earlycon=pl011,0x9000000 console=ttyAMA0''
                        else cfg_cmdline vm_config_default)\<rparr>"

text \<open>The machine of \<open>run\<close> without a daemon, and of a worker: what is launched from a built image, and the
  whole command with the environment the machine runs in.  The cache directory is given by its
  components.\<close>

definition launch_vm :: "cli_host \<Rightarrow> environ \<Rightarrow> template option \<Rightarrow> string list \<Rightarrow> built \<Rightarrow> vm_launch" where
  "launch_vm H env t args b =
     (let extra = (case t of Some t \<Rightarrow> tp_env t | None \<Rightarrow> []);
          config = (bt_config b)\<lparr>ic_env := override_env extra (ic_env (bt_config b))\<rparr>;
          argv = (if after_dash args = [] then default_argv config else after_dash args);
          disks = wanted_disks env t
      in if argv = [] then NoCommand
         else case find (\<lambda>d. \<not> ch_exists H (fst d)) disks of
                Some d \<Rightarrow> DiskNotFound (fst d)
              | None \<Rightarrow>
                  (case build_bootstrap H env config argv (length disks) of
                     None \<Rightarrow> BootstrapFailed
                   | Some initrd \<Rightarrow>
                       (case ch_read H (asset H env KERNEL) of
                          None \<Rightarrow> NoKernel (asset H env KERNEL)
                        | Some kimg \<Rightarrow> Launch (vm_cfg env t kimg initrd (bt_base b) disks) (choose_net env))))"

definition cmd_vm ::
  "'s image_env \<Rightarrow> (string \<Rightarrow> (string \<times> bytes) list option) \<Rightarrow> cli_host \<Rightarrow> manifest option \<Rightarrow> string list \<Rightarrow>
     string list \<Rightarrow> environ \<Rightarrow> 's \<Rightarrow> files \<Rightarrow> 's \<times> files \<times> environ \<times> vm_launch" where
  "cmd_vm E tars H mf cache args env s fs =
     (if length args \<le> 2 then (s, fs, env, UsageError)
      else
        let target = args ! 2;
            t = Option.bind mf (\<lambda>m. manifest_template m target);
            env1 = (case t of Some t \<Rightarrow> set_caps t env | None \<Rightarrow> env);
            oci_ref = (case t of Some t \<Rightarrow> tp_image t | None \<Rightarrow> target)
        in case build_image E tars oci_ref cache False s fs of
             (s1, fs1, Inl e) \<Rightarrow> (s1, fs1, env1, BuildFailed e)
           | (s1, fs1, Inr b) \<Rightarrow> (s1, fs1, env1, launch_vm H env1 t args b))"

text \<open>A template is a machine that runs the agent and is captured when the agent is ready.\<close>

definition template_env :: "nat \<Rightarrow> string \<Rightarrow> environ \<Rightarrow> environ" where
  "template_env pid dir env =
     env(''AMBER_GIC'' \<mapsto> ''sw'', ''AMBER_NET'' \<mapsto> ''smoltcp'', ''AMBER_VSOCK'' \<mapsto> ''/tmp/amber-tmpl-vsock-'' @ show_nat pid,
         ''AMBER_SNAPSHOT'' \<mapsto> dir, ''AMBER_SNAPSHOT_MARKER'' \<mapsto> ''__AMBER_READY__'', ''AMBER_SNAPSHOT_AFTER_MS'' \<mapsto> ''30000'')"

definition cmd_template ::
  "'s image_env \<Rightarrow> (string \<Rightarrow> (string \<times> bytes) list option) \<Rightarrow> cli_host \<Rightarrow> manifest option \<Rightarrow> string list \<Rightarrow> nat \<Rightarrow>
     string list \<Rightarrow> environ \<Rightarrow> 's \<Rightarrow> files \<Rightarrow> 's \<times> files \<times> environ \<times> vm_launch" where
  "cmd_template E tars H mf cache pid args env s fs =
     (if length args \<le> 3 then (s, fs, env, UsageError)
      else cmd_vm E tars H mf cache [''amber'', ''__vm'', args ! 2, ''--'', AGENT_PATH] (template_env pid (args ! 3) env) s fs)"

end
