(* ===== verification/Spec2Isabelle.thy ===== *)
theory Spec2Isabelle
  imports Virtio_Props Blk_Props Net_Props Vsock_Props Gic_Props Console_Props Fork_Props Hvf_Props Lockdown_Props Cpio Flatten_Props Exec_Props Serve_Props Egress_Props Images_Props Kvm_Props Cli_Props
begin

text \<open>
  Verification of amber, a microVM monitor for arm64 (\<^verbatim>\<open>src/crates\<close> and
  \<^verbatim>\<open>src/agent\<close>).

  \<^bold>\<open>The program.\<close>  The command line (\<^verbatim>\<open>amber/src/main.rs\<close>) builds a bootable image from a
  registry or an archive (\<^verbatim>\<open>amber-image\<close>), configures a machine and runs it
  (\<^verbatim>\<open>amber-core\<close>) on a backend: Hypervisor.framework (\<^verbatim>\<open>amber-hvf\<close>, with a software
  GICv2) or KVM (\<^verbatim>\<open>amber-kvm\<close>).  The guest sees a console UART and virtio-mmio devices: disk,
  network, vsock, entropy, balloon; the network device can be joined to a user-space stack
  (\<^verbatim>\<open>amber-net\<close>).  A running machine can be paused, ballooned and snapshotted over a control
  channel, and a snapshot restored in a new process.  The daemon (\<^verbatim>\<open>amber/src/daemon.rs\<close>)
  supervises worker processes within a memory budget, keeps a pool of restored forks, and runs commands
  in them through the agent in the guest (\<^verbatim>\<open>agent/src/main.rs\<close>).

  \<^bold>\<open>How it is modelled.\<close>  A struct is a record, an enum a datatype, a fixed-width integer a word of its
  width (so sums wrap as in a release build), a fallible function returns a sum.  Operations pass their
  state explicitly.  Where threads share state, each region under a lock is one step and a relation
  interleaves them: \<open>mstep\<close> for the threads of a machine, \<open>daemon_step\<close> for those of the daemon,
  \<open>egress_step\<close> for the calls of the network backend, \<open>hvf_step\<close> and \<open>kvm_setup\<close> for the backends,
  \<open>run_loaders\<close> for concurrent downloads.  What is not under \<^verbatim>\<open>src\<close> is an argument: the host
  kernel (\<open>kvm\<close>), Hypervisor.framework (\<open>hvf\<close>), the smoltcp stack (\<open>netstack\<close>, \<open>wire\<close>), HTTP, JSON and
  SHA-256 (\<open>web\<close>, \<open>image_env\<close>), serde (\<open>serde\<close>, \<open>proto_codec\<close>), the flattened-device-tree writer, clocks,
  files and sockets.  What is relied on of them is a named predicate (\<open>hv_ok\<close>, \<open>kernel_ok\<close>, \<open>power_ok\<close>,
  \<open>wire_ok\<close>, \<open>serde_ok\<close>, \<open>exit_codec_ok\<close>, \<open>fs_quiet\<close>), and every property that has one comes with a
  witness on a concrete instance.

  \<^bold>\<open>Theories and sources.\<close>
  \<^item> \<^verbatim>\<open>Prelude\<close>, \<^verbatim>\<open>Text\<close>, \<^verbatim>\<open>Addr\<close>, \<^verbatim>\<open>Framing\<close>: words and byte codecs, strings,
    internet addresses, records on a byte stream.
  \<^item> \<^verbatim>\<open>Core\<close>, \<^verbatim>\<open>Memory\<close>: \<^verbatim>\<open>amber-core/src/lib.rs\<close>, \<^verbatim>\<open>hypervisor.rs\<close>,
    \<^verbatim>\<open>cpu.rs\<close> and \<^verbatim>\<open>memory.rs\<close>.
  \<^item> \<^verbatim>\<open>Virtio\<close>, \<^verbatim>\<open>Blk\<close>, \<^verbatim>\<open>Rng_Balloon\<close>, \<^verbatim>\<open>Net\<close>, \<^verbatim>\<open>Vsock\<close>,
    \<^verbatim>\<open>Limiter\<close>, \<^verbatim>\<open>Devices\<close>: the transport and the devices (\<^verbatim>\<open>virtio.rs\<close>,
    \<^verbatim>\<open>net.rs\<close>, \<^verbatim>\<open>vsock.rs\<close>, \<^verbatim>\<open>limiter.rs\<close>).
  \<^item> \<^verbatim>\<open>Pl011\<close>, \<^verbatim>\<open>Gic\<close>, \<^verbatim>\<open>Hvf\<close>, \<^verbatim>\<open>Kvm\<close>: the console (\<^verbatim>\<open>bus.rs\<close>), the software
    interrupt controller (\<^verbatim>\<open>gicv2.rs\<close>) and the two backends.
  \<^item> \<^verbatim>\<open>Loader\<close>, \<^verbatim>\<open>Dtb\<close>, \<^verbatim>\<open>Snapshot\<close>, \<^verbatim>\<open>Vm\<close>, \<^verbatim>\<open>Machine\<close>,
    \<^verbatim>\<open>Lockdown\<close>: building, running, capturing and confining a machine.
  \<^item> \<^verbatim>\<open>Fs\<close>, \<^verbatim>\<open>Flatten\<close>, \<^verbatim>\<open>Cpio\<close>, \<^verbatim>\<open>Registry\<close>, \<^verbatim>\<open>Blob_Race\<close>, \<^verbatim>\<open>Images\<close>: the
    image crate.
  \<^item> \<^verbatim>\<open>Egress\<close>: the user-space network.
  \<^item> \<^verbatim>\<open>Proto\<close>, \<^verbatim>\<open>Manifest\<close>, \<^verbatim>\<open>Daemon\<close>, \<^verbatim>\<open>Exec\<close>, \<^verbatim>\<open>Serve\<close>, \<^verbatim>\<open>Cli\<close>: the daemon, its
    clients, the agent and the command line.

  Theories ending in \<^verbatim>\<open>_Laws\<close>, with \<^verbatim>\<open>Virtio_Queue\<close> and \<^verbatim>\<open>Virtio_Mmio\<close>, hold the shared
  lemmas; \<^verbatim>\<open>Demo_Ring\<close> holds the ring the device witnesses run on; theories ending in
  \<^verbatim>\<open>_Props\<close> hold the properties.

  \<^bold>\<open>Contracts.\<close>  \<open>byte_store\<close> is what guest RAM promises its clients; \<open>virtio_device\<close> and, extending it,
  \<open>confined_device\<close> what a device promises the transport, so that the transport's theorems hold for
  every device (interpreted for the disk, the network, vsock, entropy, the balloon and the sum of them
  on the bus); \<open>snapshot_part\<close> what capture and restore of one part promise the snapshot (transport,
  console, interrupt controller); \<open>framing\<close> what a writer and a reader of records promise.

  \<^bold>\<open>What is shown.\<close>
  \<^item> Fork: a snapshot of any machine reachable from a boot restores to the same machine; the interrupt
    controllers and the KVM registers survive the round trip; the snapshot is taken only when every vcpu
    is out of the guest.
  \<^item> Machine: along every interleaving devices keep their slots, kinds and invariants, and accesses reach
    the device they address and no other.
  \<^item> Devices: queues are served completely and in order, writes stay in the chains the driver posted, the
    disk returns and keeps what it should, a read-only disk never changes, buffers and rates are bounded.
  \<^item> Interrupts and power: arbitration picks the best deliverable interrupt; a vcpu starts once.
  \<^item> Confinement: what a locked-down machine may still do; what unpacking an image may touch; which
    addresses a guest can dial; where a registry token can be asked for; that a command's words reach
    the guest unchanged.
  \<^item> Images: a blob is what its digest says; a build is remembered; archives read back.
  \<^item> Daemon: admission keeps the budget along every interleaving, every connection refines the steps of
    its regions, and a command's output and code reach the client.
  \<^item> The properties of kind error and liveness state what the code does in cases it handles differently
    from its comments: machines left paused, snapshots that cannot be restored, secondaries that stay
    off, whiteouts and links that leave the image, reservations that leak, a race on a shared
    temporary file, a signal reported as success.

  \<^bold>\<open>Bounds and fuel.\<close>  Most loops are structural or have a measure.  \<open>pump_loop\<close> (the receive pump) and
  \<open>run_loop\<close> (the exit loop) may run for ever and are partial; \<open>pump_rx_ends\<close> shows that the pump
  returns when the rings are separate.  Path resolution follows at most 40 links, the limit of the
  kernel, so running out of it is the error \<open>ELOOP\<close> and not an artefact.  The archive reader used as
  specification takes the length of its input as fuel, enough because every entry has a header.  Rates
  are exact rationals in place of \<^verbatim>\<open>f64\<close>.

  \<^bold>\<open>Not modelled.\<close>  \<^verbatim>\<open>amber-image/src/pack.rs\<close> runs \<^verbatim>\<open>mksquashfs\<close>.  The self-tests and
  fuzz entry points are drivers of the code above.  The preemption thread of the HVF backend only
  forces exits, which the model allows at any time.  The listener thread of the vsock socket, the
  connect threads and listeners of the network backend, the agent's dialling loop, raw terminals,
  signal handlers and process creation are sequences of host calls; their outcomes are arguments of
  the operations that use them.  The TOML, JSON and tar readers are third-party code.  Of the command
  line, the commands that forward one request and print the reply, \<^verbatim>\<open>boot\<close>, \<^verbatim>\<open>restore\<close> and disk
  formatting are left out.  Error texts are kept only where another component reads them.
\<close>

end
